(* ===== verification/Prelude.thy ===== *)
theory Prelude
  imports Complex_Main "HOL-Library.Multiset"
begin

text \<open>
  Shared vocabulary of the development: the types that stand for Python's
  \<open>Decimal\<close>, \<open>date\<close> and \<open>datetime\<close>, the string operations the services use, the
  reading of nullable numeric columns, and the interface of the lifecycle tables
  (locale \<open>lifecycle\<close>) that the invoice, issued-invoice and expense state
  machines provide.
\<close>

named_theorems result_iff \<open>characterisations of when an operation returns normally\<close>

section \<open>Types\<close>

text \<open>
  A \<open>Decimal\<close> is its value, an exact rational; \<open>Money\<close> says why the 28-digit
  context does not change what the code stores. A \<open>date\<close> is its proleptic
  ordinal (\<open>date.toordinal()\<close>), so \<open>(a - b).days\<close> is a difference; a
  \<open>datetime\<close> is a number of seconds.
\<close>

type_synonym decimal = rat
type_synonym date = int
type_synonym instant = rat
type_synonym ident = string

text \<open>\<open>Decimal(column or 0)\<close>: NULL reads as zero.\<close>

definition or_zero :: "decimal option \<Rightarrow> decimal" where
  "or_zero x = (case x of None \<Rightarrow> 0 | Some v \<Rightarrow> v)"

lemma or_zero_simps [simp]: "or_zero None = 0" "or_zero (Some v) = v"
  by (simp_all add: or_zero_def)

text \<open>\<open>x or default\<close> on a nullable string: both None and the empty string are false.\<close>

definition str_or :: "string option \<Rightarrow> string \<Rightarrow> string" where
  "str_or x d = (case x of None \<Rightarrow> d | Some s \<Rightarrow> (if s = [] then d else s))"

lemma str_or_simps [simp]:
  "str_or None d = d" "str_or (Some []) d = d" "str_or (Some (c # cs)) d = c # cs"
  by (simp_all add: str_or_def)

text \<open>A nullable string used as a condition.\<close>

definition truthy :: "string option \<Rightarrow> bool" where
  "truthy x \<longleftrightarrow> x \<noteq> None \<and> x \<noteq> Some []"

lemma truthy_simps [simp]:
  "\<not> truthy None" "\<not> truthy (Some [])" "truthy (Some (c # cs))"
  by (simp_all add: truthy_def)

section \<open>Strings\<close>

text \<open>
  Strings are lists of characters; the case and white-space operations are those
  of the ASCII range, and other characters are left as they are.
\<close>

definition is_space :: "char \<Rightarrow> bool" where
  "is_space c \<longleftrightarrow> (let n = (of_char c :: nat) in (9 \<le> n \<and> n \<le> 13) \<or> (28 \<le> n \<and> n \<le> 32))"

definition is_upper :: "char \<Rightarrow> bool" where
  "is_upper c \<longleftrightarrow> (let n = (of_char c :: nat) in 65 \<le> n \<and> n \<le> 90)"

definition is_lower :: "char \<Rightarrow> bool" where
  "is_lower c \<longleftrightarrow> (let n = (of_char c :: nat) in 97 \<le> n \<and> n \<le> 122)"

definition is_digit :: "char \<Rightarrow> bool" where
  "is_digit c \<longleftrightarrow> (let n = (of_char c :: nat) in 48 \<le> n \<and> n \<le> 57)"

definition upper_char :: "char \<Rightarrow> char" where
  "upper_char c = (if is_lower c then char_of ((of_char c :: nat) - 32) else c)"

definition lower_char :: "char \<Rightarrow> char" where
  "lower_char c = (if is_upper c then char_of ((of_char c :: nat) + 32) else c)"

abbreviation py_upper :: "string \<Rightarrow> string" where
  "py_upper s \<equiv> map upper_char s"

abbreviation py_lower :: "string \<Rightarrow> string" where
  "py_lower s \<equiv> map lower_char s"

definition py_strip :: "string \<Rightarrow> string" where
  "py_strip s = rev (dropWhile is_space (rev (dropWhile is_space s)))"

lemma upper_char_code:
  "(of_char (upper_char c) :: nat) = (if is_lower c then of_char c - 32 else of_char c)"
  by (auto simp: upper_char_def is_lower_def Let_def)

lemma upper_char_not_lower [simp]: "\<not> is_lower (upper_char c)"
proof (cases "is_lower c")
  case True
  then have "(of_char (upper_char c) :: nat) = of_char c - 32" "(of_char c :: nat) \<le> 122"
    by (auto simp: upper_char_code is_lower_def Let_def)
  then show ?thesis by (simp add: is_lower_def Let_def)
qed (simp add: upper_char_def)

lemma upper_char_idem [simp]: "upper_char (upper_char c) = upper_char c"
  by (simp add: upper_char_def [of "upper_char c"])

lemma upper_char_space [simp]: "is_space (upper_char c) = is_space c"
proof (cases "is_lower c")
  case True
  then have "(of_char (upper_char c) :: nat) = of_char c - 32"
    and "97 \<le> (of_char c :: nat)" "(of_char c :: nat) \<le> 122"
    by (auto simp: upper_char_code is_lower_def Let_def)
  then show ?thesis unfolding is_space_def Let_def by arith
qed (simp add: upper_char_def)

lemma upper_char_fixes [simp]:
  "is_upper c \<Longrightarrow> upper_char c = c" "is_digit c \<Longrightarrow> upper_char c = c"
  by (auto simp: upper_char_def is_upper_def is_lower_def is_digit_def Let_def)

section \<open>Lists\<close>

lemma filter_True_id: "(\<And>x. x \<in> set xs \<Longrightarrow> P x) \<Longrightarrow> filter P xs = xs"
  by (induction xs) auto

lemma filter_key_unique:
  "distinct (map f xs) \<Longrightarrow> x \<in> set xs \<Longrightarrow> filter (\<lambda>y. f y = f x) xs = [x]"
proof (induction xs)
  case (Cons y ys)
  show ?case
  proof (cases "x = y")
    case True
    with Cons.prems show ?thesis by (auto simp: filter_empty_conv rev_image_eqI)
  next
    case False
    with Cons.prems have "x \<in> set ys" "f y \<noteq> f x" by (auto simp: rev_image_eqI)
    with Cons show ?thesis by simp
  qed
qed simp

lemma sum_list_all_zero: "(\<And>x. x \<in> set xs \<Longrightarrow> f x = (0 :: decimal)) \<Longrightarrow> sum_list (map f xs) = 0"
  by (induction xs) auto

lemma sum_list_sort_key: "sum_list (map f (sort_key k xs)) = (sum_list (map f xs) :: 'a :: comm_monoid_add)"
  by (metis mset_map mset_sort sum_mset_sum_list)

lemma sum_list_map_append_single [simp]:
  "sum_list (map f (xs @ [x])) = sum_list (map f xs) + (f x :: decimal)"
  by simp

section \<open>Decimal digits\<close>

text \<open>\<open>str(n)\<close> of a non-negative integer.\<close>

definition digit_char :: "nat \<Rightarrow> char" where
  "digit_char d = char_of (48 + d)"

function str_nat :: "nat \<Rightarrow> string" where
  "str_nat n = (if n < 10 then [digit_char n] else str_nat (n div 10) @ [digit_char (n mod 10)])"
  by auto
termination by (relation "measure id") auto

declare str_nat.simps [simp del]

lemma str_nat_length: "0 < k \<Longrightarrow> n < 10 ^ k \<Longrightarrow> length (str_nat n) \<le> k"
proof (induction n arbitrary: k rule: str_nat.induct)
  case (1 n)
  show ?case
  proof (cases "n < 10")
    case True
    with 1 show ?thesis by (simp add: str_nat.simps [of n])
  next
    case False
    with 1(3) obtain j where j: "k = Suc j" "0 < j" by (cases k; cases "k - 1") auto
    have "n div 10 < 10 ^ j" using 1(3) by (simp add: j less_mult_imp_div_less mult.commute)
    with 1(1) [OF False j(2)] False show ?thesis by (simp add: str_nat.simps [of n] j)
  qed
qed

definition digits_value :: "string \<Rightarrow> nat" where
  "digits_value s = foldl (\<lambda>v c. 10 * v + (of_char c - 48)) 0 s"

lemma digit_char_code [simp]: "d < 10 \<Longrightarrow> (of_char (digit_char d) :: nat) = 48 + d"
  by (simp add: digit_char_def)

lemma digits_value_str: "digits_value (str_nat n) = n"
proof (induction n rule: str_nat.induct)
  case (1 n)
  then show ?case
    by (cases "n < 10") (simp_all add: str_nat.simps [of n] digits_value_def)
qed

lemma str_nat_inj: "str_nat m = str_nat n \<longleftrightarrow> m = n"
  using digits_value_str by metis

lemma str_nat_digits: "list_all is_digit (str_nat n)"
proof (induction n rule: str_nat.induct)
  case (1 n)
  then show ?case
    by (cases "n < 10") (simp_all add: str_nat.simps [of n] is_digit_def Let_def)
qed

section \<open>Rows and queries\<close>

text \<open>
  A table is the list of its rows in insertion order: \<open>LIMIT 1\<close> is the first row of a
  result, an update by key replaces the rows that carry the key.
\<close>

definition first_of :: "'a list \<Rightarrow> 'a option" where
  "first_of xs = (case xs of [] \<Rightarrow> None | x # _ \<Rightarrow> Some x)"

lemma first_of_None [simp]: "first_of xs = None \<longleftrightarrow> xs = []"
  by (cases xs) (simp_all add: first_of_def)

lemma first_of_set: "first_of xs = Some x \<Longrightarrow> x \<in> set xs"
  by (cases xs) (simp_all add: first_of_def)

lemma find_filter: "find P xs = first_of (filter P xs)"
  by (induction xs) (auto simp: first_of_def)

lemma find_mem: "find P xs = Some x \<Longrightarrow> x \<in> set xs \<and> P x"
  by (auto simp: find_filter dest!: first_of_set)

lemma find_update:
  assumes "\<And>x. key (f x) = key x"
  shows "find (\<lambda>x. key x = i) (map (\<lambda>x. if key x = j then f x else x) xs) =
    (if i = j then map_option f (find (\<lambda>x. key x = i) xs) else find (\<lambda>x. key x = i) xs)"
  by (induction xs) (auto simp: assms)

lemma map_key_update:
  assumes "\<And>x. key (f x) = key x"
  shows "map key (map (\<lambda>x. if key x = j then f x else x) xs) = map key xs"
  by (induction xs) (auto simp: assms)

lemma key_unique: "distinct (map key xs) \<Longrightarrow> x \<in> set xs \<Longrightarrow> y \<in> set xs \<Longrightarrow> key x = key y \<Longrightarrow> x = y"
  unfolding distinct_map by (blast dest: inj_onD)

lemma find_key_unique:
  assumes "distinct (map key xs)" "x \<in> set xs"
  shows "find (\<lambda>y. key y = key x) xs = Some x"
  using assms by (induction xs) (auto simp: rev_image_eqI)

section \<open>Lifecycle tables\<close>

text \<open>
  Every lifecycle of the platform is a table asked for the target of an action: the
  services never write a state the table did not return. The interface is the
  table's answer (\<open>Inl\<close> the refusal), the states from which nothing moves, and a
  measure-free law: no action leaves a terminal state.
\<close>

fun run_actions :: "('act \<Rightarrow> 'st \<Rightarrow> 'err + 'st) \<Rightarrow> 'act list \<Rightarrow> 'st \<Rightarrow> 'err + 'st" where
  "run_actions tgt [] s = Inr s"
| "run_actions tgt (a # as) s =
     (case tgt a s of Inl e \<Rightarrow> Inl e | Inr t \<Rightarrow> run_actions tgt as t)"

lemma run_actions_append:
  "run_actions tgt (as @ bs) s =
     (case run_actions tgt as s of Inl e \<Rightarrow> Inl e | Inr t \<Rightarrow> run_actions tgt bs t)"
  by (induction as arbitrary: s) (auto split: sum.splits)

locale lifecycle =
  fixes tgt :: "'act \<Rightarrow> 'st \<Rightarrow> 'err + 'st"
    and terminal :: "'st \<Rightarrow> bool"
  assumes terminal_stuck: "terminal s \<Longrightarrow> tgt a s = Inr t \<Longrightarrow> False"
begin

lemma terminal_run: "terminal s \<Longrightarrow> run_actions tgt as s = Inr t \<Longrightarrow> as = [] \<and> t = s"
  by (cases as) (auto split: sum.splits dest: terminal_stuck)

lemma run_invariant:
  assumes step: "\<And>a s t. P s \<Longrightarrow> tgt a s = Inr t \<Longrightarrow> P t"
  shows "P s \<Longrightarrow> run_actions tgt as s = Inr t \<Longrightarrow> P t"
  by (induction as arbitrary: s) (auto split: sum.splits dest: step)

text \<open>
  A state that no action targets is never entered: a run ends there only if it
  started there and did nothing.
\<close>

lemma untargeted_initial:
  assumes "\<And>a s. tgt a s \<noteq> Inr u" and "run_actions tgt as s = Inr u"
  shows "as = [] \<and> s = u"
proof (cases as rule: rev_cases)
  case Nil
  with assms(2) show ?thesis by simp
next
  case (snoc bs b)
  with assms(2) obtain t where "tgt b t = Inr u"
    by (auto simp: run_actions_append split: sum.splits)
  with assms(1) show ?thesis by blast
qed

end

end
