(* ===== verification/Money.thy ===== *)
theory Money
  imports Prelude
begin

text \<open>
  \<open>core/money.py\<close>: exact rounding of amounts, ROUND_HALF_UP (ties away from zero).
  The interface the other components rely on is the locale \<open>rounding\<close>: a function
  onto a grid of values that is the identity there. It is interpreted on \<open>q\<close> at
  every number of places and on \<open>q2\<close>.
\<close>

section \<open>The operations\<close>

definition half_up :: "rat \<Rightarrow> int" where
  "half_up x = (if x < 0 then - \<lfloor>1 / 2 - x\<rfloor> else \<lfloor>x + 1 / 2\<rfloor>)"

definition q :: "decimal \<Rightarrow> nat \<Rightarrow> decimal" where
  "q value places = of_int (half_up (value * 10 ^ places)) / 10 ^ places"

definition q2 :: "decimal \<Rightarrow> decimal" where
  "q2 value = of_int (half_up (value * 100)) / 100"

lemma q2_eq_q: "q2 v = q v 2"
  by (simp add: q2_def q_def)

definition on_grid :: "nat \<Rightarrow> decimal \<Rightarrow> bool" where
  "on_grid n x \<longleftrightarrow> (\<exists>k :: int. x = of_int k / 10 ^ n)"

abbreviation on_cents :: "decimal \<Rightarrow> bool" where
  "on_cents \<equiv> on_grid 2"

section \<open>Rounding a rational\<close>

lemma half_up_of_int [simp]: "half_up (of_int k) = k"
proof -
  have "\<lfloor>(of_int k :: rat) + 1 / 2\<rfloor> = k" and "\<lfloor>1 / 2 - (of_int k :: rat)\<rfloor> = - k"
    by (simp_all add: floor_eq_iff)
  then show ?thesis by (simp add: half_up_def)
qed

lemma half_up_zero [simp]: "half_up 0 = 0"
  using half_up_of_int [of 0] by (simp del: half_up_of_int)

lemma half_up_minus: "half_up (- x) = - half_up x"
proof (cases "x = 0")
  case False
  then show ?thesis by (auto simp: half_up_def add.commute)
qed simp

lemma half_up_bounds:
  "of_int (half_up x) - 1 / 2 \<le> x" "x \<le> of_int (half_up x) + 1 / 2"
proof -
  have "of_int \<lfloor>x + 1 / 2\<rfloor> \<le> x + 1 / 2" "x + 1 / 2 < of_int \<lfloor>x + 1 / 2\<rfloor> + 1"
    "of_int \<lfloor>1 / 2 - x\<rfloor> \<le> 1 / 2 - x" "1 / 2 - x < of_int \<lfloor>1 / 2 - x\<rfloor> + 1"
    by linarith+
  then show "of_int (half_up x) - 1 / 2 \<le> x" "x \<le> of_int (half_up x) + 1 / 2"
    unfolding half_up_def
    by (cases "x < 0"; simp only: if_True if_False of_int_minus; linarith)+
qed

lemma half_up_mono: "x \<le> y \<Longrightarrow> half_up x \<le> half_up y"
proof -
  assume le: "x \<le> y"
  have neg: "half_up x \<le> 0" if "x < 0"
    using that half_up_bounds(1) [of x] by linarith
  have pos: "0 \<le> half_up y" if "\<not> y < 0"
    using that half_up_bounds(2) [of y] by linarith
  consider "y < 0" | "x < 0" "\<not> y < 0" | "\<not> x < 0" using le by linarith
  then show ?thesis
  proof cases
    case 1
    with le show ?thesis by (simp add: half_up_def floor_mono)
  next
    case 2
    with neg pos show ?thesis by linarith
  next
    case 3
    with le show ?thesis by (simp add: half_up_def floor_mono)
  qed
qed

lemma half_up_add_int:
  assumes "0 \<le> x" and "0 \<le> k"
  shows "half_up (x + of_int k) = half_up x + k"
proof -
  have "x + of_int k + 1 / 2 = x + 1 / 2 + of_int k" by simp
  then have "\<lfloor>x + of_int k + 1 / 2\<rfloor> = \<lfloor>x + 1 / 2\<rfloor> + k"
    by (simp only: floor_add_int)
  with assms show ?thesis by (simp add: half_up_def)
qed

text \<open>
  Where the exact value is not a tie, a perturbation smaller than its distance to the
  nearest tie does not change the result. A quotient \<open>n / d\<close> that is not a tie is
  at least \<open>1 / (2 * d)\<close> away from one.
\<close>

lemma half_up_eqI:
  assumes "of_int k - 1 / 2 < x" "x < of_int k + 1 / 2"
  shows "half_up x = k"
proof -
  have "\<lfloor>x + 1 / 2\<rfloor> = k" "\<lfloor>1 / 2 - x\<rfloor> = - k"
    using assms by (simp_all add: floor_eq_iff)
  then show ?thesis by (simp add: half_up_def)
qed

lemma not_tie_distance:
  fixes n :: int and d :: int
  assumes d: "0 < d" and ne: "of_int n / of_int d \<noteq> (of_int k + 1 / 2 :: rat)"
  shows "1 / (2 * of_int d) \<le> \<bar>of_int n / of_int d - (of_int k + 1 / 2 :: rat)\<bar>"
proof -
  have eq: "of_int n / of_int d - (of_int k + 1 / 2 :: rat)
      = of_int (2 * n - d * (2 * k + 1)) / (2 * of_int d)"
    using d by (simp add: field_simps)
  have "2 * n - d * (2 * k + 1) \<noteq> 0"
    using ne d eq by (metis div_0 of_int_0 right_minus_eq)
  then have "1 \<le> \<bar>2 * n - d * (2 * k + 1)\<bar>" by linarith
  then have "(1 :: rat) \<le> \<bar>of_int (2 * n - d * (2 * k + 1))\<bar>"
    by (metis of_int_1_le_iff of_int_abs)
  then show ?thesis
    using d unfolding eq by (simp add: divide_right_mono)
qed

lemma half_up_perturb:
  fixes n d :: int
  assumes d: "0 < d" and x: "x = (of_int n / of_int d :: rat)"
    and tie: "\<And>k. x \<noteq> of_int k + 1 / 2"
    and near: "\<bar>y - x\<bar> < 1 / (2 * of_int d)"
  shows "half_up y = half_up x"
proof -
  define k where "k = half_up x"
  have pos: "0 < 1 / (2 * of_int d :: rat)" using d by simp
  have up: "1 / (2 * of_int d) \<le> \<bar>x - (of_int k + 1 / 2)\<bar>"
    using not_tie_distance [OF d, of n k] tie [of k] x by simp
  have lo: "1 / (2 * of_int d) \<le> \<bar>x - (of_int (k - 1) + 1 / 2)\<bar>"
    using not_tie_distance [OF d, of n "k - 1"] tie [of "k - 1"] x by simp
  have b: "of_int k - 1 / 2 \<le> x" "x \<le> of_int k + 1 / 2"
    using half_up_bounds [of x] by (simp_all add: k_def)
  have "of_int k - 1 / 2 < y" "y < of_int k + 1 / 2"
    using up lo b near pos by (auto simp: abs_if split: if_splits)
  then show ?thesis
    unfolding k_def [symmetric] by (rule half_up_eqI)
qed

section \<open>The grid of representable values\<close>

lemma grid_of_int [simp, intro]: "on_grid n (of_int k)"
  unfolding on_grid_def by (rule exI [of _ "k * 10 ^ n"]) simp

lemma grid_0 [simp]: "on_grid n 0"
  using grid_of_int [of n 0] by simp

lemma grid_1 [simp]: "on_grid n 1"
  using grid_of_int [of n 1] by simp

lemma grid_numeral [simp]: "on_grid n (numeral k)"
  using grid_of_int [of n "numeral k"] by simp

lemma grid_minus [simp]: "on_grid n (- x) \<longleftrightarrow> on_grid n x"
proof -
  have "on_grid n (- x)" if "on_grid n x" for x
    using that unfolding on_grid_def by (metis minus_divide_left of_int_minus)
  from this [of x] this [of "- x"] show ?thesis by auto
qed

lemma grid_add [intro]:
  assumes "on_grid n x" and "on_grid n y"
  shows "on_grid n (x + y)"
proof -
  from assms obtain k l :: int where "x = of_int k / 10 ^ n" "y = of_int l / 10 ^ n"
    by (auto simp: on_grid_def)
  then have "x + y = of_int (k + l) / 10 ^ n" by (simp add: add_divide_distrib)
  then show ?thesis unfolding on_grid_def by blast
qed

lemma grid_diff [intro]: "on_grid n x \<Longrightarrow> on_grid n y \<Longrightarrow> on_grid n (x - y)"
  using grid_add [of n x "- y"] by simp

lemma grid_max [intro]: "on_grid n x \<Longrightarrow> on_grid n y \<Longrightarrow> on_grid n (max x y)"
  by (simp add: max_def)

lemma grid_q [simp, intro]: "on_grid n (q x n)"
  unfolding on_grid_def q_def by blast

lemma q_fix: "on_grid n x \<Longrightarrow> q x n = x"
  by (auto simp: on_grid_def q_def)

lemma q_mono: "x \<le> y \<Longrightarrow> q x n \<le> q y n"
  unfolding q_def by (intro divide_right_mono iffD2 [OF of_int_le_iff] half_up_mono mult_right_mono) simp_all

lemma q_minus: "q (- x) n = - q x n"
  by (simp add: q_def half_up_minus)

lemma q_error: "\<bar>q x n - x\<bar> \<le> 1 / (2 * 10 ^ n)"
proof -
  define s :: rat where "s = 10 ^ n"
  have s: "0 < s" by (simp add: s_def)
  have "\<bar>of_int (half_up (x * s)) - x * s\<bar> \<le> 1 / 2"
    using half_up_bounds [of "x * s"] by (simp add: abs_if)
  moreover have "q x n - x = (of_int (half_up (x * s)) - x * s) / s"
    using s by (simp add: q_def s_def [symmetric] diff_divide_distrib)
  ultimately have "\<bar>q x n - x\<bar> \<le> (1 / 2) / s"
    using s by (simp only: abs_divide abs_of_pos divide_right_mono less_imp_le)
  then show ?thesis by (simp add: s_def mult.commute)
qed

text \<open>\<open>str\<close> of an amount of whole cents that is not negative.\<close>

definition str_cents :: "decimal \<Rightarrow> string" where
  "str_cents x =
     (let c = nat (half_up (x * 100))
      in str_nat (c div 100) @ ''.'' @ str_nat (c div 10 mod 10) @ str_nat (c mod 10))"

section \<open>The rounding interface\<close>

locale rounding =
  fixes rnd :: "decimal \<Rightarrow> decimal" and grid :: "decimal \<Rightarrow> bool" and eps :: decimal
  assumes rnd_grid: "grid (rnd x)"
    and rnd_fix: "grid x \<Longrightarrow> rnd x = x"
    and rnd_mono: "x \<le> y \<Longrightarrow> rnd x \<le> rnd y"
    and rnd_minus: "rnd (- x) = - rnd x"
    and rnd_error: "\<bar>rnd x - x\<bar> \<le> eps"
    and zero_grid: "grid 0"
    and add_grid: "grid x \<Longrightarrow> grid y \<Longrightarrow> grid (x + y)"
begin

lemma rnd_idem: "rnd (rnd x) = rnd x"
  by (rule rnd_fix [OF rnd_grid])

lemma rnd_zero: "rnd 0 = 0"
  by (rule rnd_fix [OF zero_grid])

lemma rnd_nonneg: "0 \<le> x \<Longrightarrow> 0 \<le> rnd x"
  using rnd_mono [of 0 x] by (simp add: rnd_zero)

lemma rnd_nonpos: "x \<le> 0 \<Longrightarrow> rnd x \<le> 0"
  using rnd_mono [of x 0] by (simp add: rnd_zero)

lemma minus_grid: "grid x \<Longrightarrow> grid (- x)"
  by (metis rnd_fix rnd_grid rnd_minus)

lemma diff_grid: "grid x \<Longrightarrow> grid y \<Longrightarrow> grid (x - y)"
  using add_grid [of x "- y"] minus_grid by simp

lemma sum_list_grid: "(\<And>x. x \<in> set xs \<Longrightarrow> grid (f x)) \<Longrightarrow> grid (sum_list (map f xs))"
  by (induction xs) (auto simp: zero_grid add_grid)

lemma rnd_sum_list: "(\<And>x. x \<in> set xs \<Longrightarrow> grid (f x)) \<Longrightarrow> rnd (sum_list (map f xs)) = sum_list (map f xs)"
  by (rule rnd_fix) (rule sum_list_grid)

text \<open>
  Rounding line by line and then summing drifts from rounding the exact sum by at
  most one rounding error per line, plus one.
\<close>

lemma sum_drift: "\<bar>sum_list (map (\<lambda>x. rnd (f x)) xs) - sum_list (map f xs)\<bar> \<le> of_nat (length xs) * eps"
proof (induction xs)
  case (Cons x xs)
  have "\<bar>rnd (f x) - f x\<bar> \<le> eps" by (rule rnd_error)
  with Cons.IH show ?case by (simp add: algebra_simps abs_le_iff)
qed simp

end

interpretation dec: rounding "\<lambda>x. q x n" "on_grid n" "1 / (2 * 10 ^ n)" for n
  by unfold_locales (auto simp: q_fix q_mono q_minus q_error)

interpretation cents: rounding q2 on_cents "1 / 200"
proof -
  have "rounding (\<lambda>x. q x 2) on_cents (1 / (2 * 10 ^ 2))"
    by (rule dec.rounding_axioms)
  then show "rounding q2 on_cents (1 / 200)"
    by (simp add: q2_eq_q [abs_def])
qed

lemmas q2_simps [simp] = cents.rnd_grid cents.rnd_idem cents.rnd_zero cents.rnd_minus

text \<open>Evaluation at numerals.\<close>

lemma half_up_eval: "half_up (numeral a / numeral b) = (2 * numeral a + numeral b) div (2 * numeral b)"
proof -
  have "(numeral a / numeral b + 1 / 2 :: rat)
      = of_int (2 * numeral a + numeral b) / of_int (2 * numeral b)"
    by (simp add: field_simps)
  then have "\<lfloor>(numeral a / numeral b + 1 / 2 :: rat)\<rfloor> = (2 * numeral a + numeral b) div (2 * numeral b)"
    by (simp only: floor_divide_of_int_eq)
  then show ?thesis by (simp add: half_up_def)
qed

section \<open>Why the 28-digit context is invisible\<close>

text \<open>
  Python evaluates a quotient such as \<open>outstanding * rate / 100 * days / 365\<close> in a
  context of 28 significant digits before \<open>q2\<close> rounds it to cents. Let the exact
  value be \<open>n / d\<close>: as long as what the context computed is off by less than
  \<open>1 / (200 * d)\<close> (for the \<open>Numeric(14, 2)\<close> columns of the models the context error is
  many orders of magnitude smaller) the cents are those of the exact quotient. A tie is itself a
  decimal of three places, which the context represents exactly, so it is left out.
\<close>

lemma q2_context:
  fixes n d :: int
  assumes d: "0 < d" and x: "x = (of_int n / of_int d :: rat)"
    and tie: "\<And>k. x * 100 \<noteq> of_int k + 1 / 2"
    and near: "\<bar>y - x\<bar> < 1 / (200 * of_int d)"
  shows "q2 y = q2 x"
proof -
  have "\<bar>y * 100 - x * 100\<bar> = \<bar>y - x\<bar> * 100"
    by (simp only: left_diff_distrib [symmetric] abs_mult abs_numeral)
  also have "\<dots> < 1 / (2 * of_int d)"
    using near by (simp add: field_simps)
  finally have "half_up (y * 100) = half_up (x * 100)"
    using d x tie by (intro half_up_perturb [of d _ "n * 100"]) auto
  then show ?thesis by (simp add: q2_def)
qed

end
