(* ===== verification/Ledger.thy ===== *)
theory Ledger
  imports Money
begin

text \<open>
  The interface both payment ledgers provide (\<open>services/payments.py\<close> for receivables,
  \<open>services/ap_payments.py\<close> for payables): setting the cumulative amount paid
  refreshes the cached total and appends the signed difference, or nothing when there
  is none. The clients rely on the laws below, never on how an entry is built.
\<close>

definition delta_of :: "decimal option \<Rightarrow> decimal" where
  "delta_of d = or_zero d"

locale cumulative_ledger =
  fixes cache :: "'inv \<Rightarrow> decimal"
    and set_total :: "decimal \<Rightarrow> 'inv \<Rightarrow> 'inv \<times> decimal option"
  assumes cache_set: "cache (fst (set_total t i)) = q2 t"
    and delta_set: "snd (set_total t i) =
      (if q2 (q2 t - cache i) \<noteq> 0 then Some (q2 (q2 t - cache i)) else None)"
begin

fun settle :: "decimal list \<Rightarrow> 'inv \<Rightarrow> 'inv \<times> decimal list" where
  "settle [] i = (i, [])"
| "settle (t # ts) i =
     (let (j, d) = set_total t i; (k, ds) = settle ts j
      in (k, (case d of None \<Rightarrow> ds | Some x \<Rightarrow> x # ds)))"

lemma cache_grid: "on_cents (cache (fst (set_total t i)))"
  by (simp add: cache_set)

lemma delta_exact: "on_cents (cache i) \<Longrightarrow> delta_of (snd (set_total t i)) = q2 t - cache i"
  by (simp add: delta_of_def delta_set cents.rnd_fix grid_diff)

text \<open>The ledger law: the entry appended accounts for the change of the cache.\<close>

lemma post_sum:
  "on_cents (cache i) \<Longrightarrow> s = cache i \<Longrightarrow>
   s + delta_of (snd (set_total t i)) = cache (fst (set_total t i))"
  by (simp add: delta_exact cache_set)

lemma set_twice: "snd (set_total t (fst (set_total t i))) = None"
  by (simp add: delta_set cache_set)

lemma settle_sum:
  "on_cents (cache i) \<Longrightarrow> cache i + sum_list (snd (settle ts i)) = cache (fst (settle ts i))"
proof (induction ts arbitrary: i)
  case (Cons t ts)
  have "cache (fst (set_total t i)) + sum_list (snd (settle ts (fst (set_total t i))))
      = cache (fst (settle ts (fst (set_total t i))))"
    by (rule Cons.IH) (rule cache_grid)
  moreover have "cache i + delta_of (snd (set_total t i)) = cache (fst (set_total t i))"
    by (rule post_sum) (simp_all add: Cons.prems)
  ultimately show ?case
    by (simp add: Let_def split_beta delta_of_def split: option.splits) (auto simp: algebra_simps)
qed simp

end

end
