(* ===== verification/BankId.thy ===== *)
theory BankId
  imports Prelude
begin

text \<open>
  \<open>core/bank_id.py\<close>: the structural checks on IBAN (ISO 13616 and MOD-97) and BIC
  (ISO 9362) that every write path of a bank detail and the SEPA builder apply. The
  last section proves what the check digits are for: one mistyped character of a
  valid IBAN is always refused.
\<close>

datatype bank_error = InvalidIban | InvalidBic

section \<open>Tables and shapes\<close>

definition IBAN_LENGTHS :: "string \<Rightarrow> nat option" where
  "IBAN_LENGTHS = map_of
    [(''AD'', 24), (''AT'', 20), (''BE'', 16), (''BG'', 22), (''CH'', 21), (''CY'', 28),
     (''CZ'', 24), (''DE'', 22), (''DK'', 18), (''EE'', 20), (''ES'', 24), (''FI'', 18),
     (''FR'', 27), (''GB'', 22), (''GI'', 23), (''GR'', 27), (''HR'', 21), (''HU'', 28),
     (''IE'', 22), (''IS'', 26), (''IT'', 27), (''LI'', 21), (''LT'', 20), (''LU'', 20),
     (''LV'', 21), (''MC'', 27), (''MT'', 31), (''NL'', 18), (''NO'', 15), (''PL'', 28),
     (''PT'', 25), (''RO'', 24), (''SE'', 24), (''SI'', 19), (''SK'', 24), (''SM'', 27),
     (''VA'', 22)]"

abbreviation is_alnum :: "char \<Rightarrow> bool" where
  "is_alnum c \<equiv> is_upper c \<or> is_digit c"

definition iban_re :: "string \<Rightarrow> bool" where
  "iban_re s \<longleftrightarrow>
     5 \<le> length s \<and> length s \<le> 34 \<and>
     list_all is_upper (take 2 s) \<and> list_all is_digit (take 2 (drop 2 s)) \<and>
     list_all is_alnum (drop 4 s)"

definition bic_re :: "string \<Rightarrow> bool" where
  "bic_re s \<longleftrightarrow>
     (length s = 8 \<or> length s = 11) \<and>
     list_all is_upper (take 6 s) \<and> list_all is_alnum (drop 6 s)"

section \<open>Operations\<close>

definition normalize_iban :: "string \<Rightarrow> string" where
  "normalize_iban value = py_upper (filter (\<lambda>c. \<not> is_space c) value)"

definition base36 :: "char \<Rightarrow> nat" where
  "base36 c = (if is_digit c then of_char c - 48 else of_char c - 55)"

definition str_digits :: "nat \<Rightarrow> nat list" where
  "str_digits n = (if n < 10 then [n] else [n div 10, n mod 10])"

definition int_of_digits :: "nat list \<Rightarrow> int" where
  "int_of_digits ds = foldl (\<lambda>a d. 10 * a + int d) 0 ds"

text \<open>
  \<open>int(ch, 36)\<close> and \<open>int(digits)\<close> raise \<open>ValueError\<close> on a character that is not
  alphanumeric and on the empty string: \<open>None\<close>.
\<close>

definition mod97 :: "string \<Rightarrow> int option" where
  "mod97 iban =
     (let rearranged = drop 4 iban @ take 4 iban in
      if rearranged = [] \<or> \<not> list_all is_alnum rearranged then None
      else Some (int_of_digits (concat (map (\<lambda>ch. str_digits (base36 ch)) rearranged)) mod 97))"

definition is_valid_iban :: "string \<Rightarrow> bool" where
  "is_valid_iban value =
     (let iban = normalize_iban value in
      if \<not> iban_re iban then False
      else (case IBAN_LENGTHS (take 2 iban) of
              None \<Rightarrow> False
            | Some expected_len \<Rightarrow>
                (if length iban \<noteq> expected_len then False else mod97 iban = Some 1)))"

definition is_valid_bic :: "string \<Rightarrow> bool" where
  "is_valid_bic value = bic_re (py_upper (py_strip value))"

definition assert_iban :: "string \<Rightarrow> bank_error + string" where
  "assert_iban value =
     (let iban = normalize_iban value in
      if \<not> is_valid_iban iban then Inl InvalidIban else Inr iban)"

definition assert_bic :: "string \<Rightarrow> bank_error + string" where
  "assert_bic value =
     (let bic = py_upper (py_strip value) in
      if \<not> is_valid_bic bic then Inl InvalidBic else Inr bic)"

text \<open>The masked form is shown as the last four characters and the length.\<close>

definition mask_iban :: "string option \<Rightarrow> (string \<times> nat) option" where
  "mask_iban value =
     (if \<not> truthy value then None
      else let iban = normalize_iban (the value)
           in Some (drop (length iban - 4) iban, length iban))"

definition optional_iban :: "string option \<Rightarrow> bank_error + string option" where
  "optional_iban value =
     (case value of
        None \<Rightarrow> Inr None
      | Some v \<Rightarrow> if py_strip v = [] then Inr None
                  else (case assert_iban v of Inl e \<Rightarrow> Inl e | Inr w \<Rightarrow> Inr (Some w)))"

section \<open>Normal form\<close>

lemma normalize_idem [simp]: "normalize_iban (normalize_iban v) = normalize_iban v"
  by (simp add: normalize_iban_def filter_map o_def)

lemma valid_normalize [simp]: "is_valid_iban (normalize_iban v) = is_valid_iban v"
  by (simp add: is_valid_iban_def)

lemma assert_iban_Inr [result_iff]:
  "assert_iban v = Inr w \<longleftrightarrow> is_valid_iban v \<and> w = normalize_iban v"
  by (auto simp: assert_iban_def Let_def)

lemma valid_iban_shape:
  assumes "is_valid_iban w" and "normalize_iban w = w"
  shows "iban_re w" and "mod97 w = Some 1" and "IBAN_LENGTHS (take 2 w) = Some (length w)"
  using assms by (auto simp: is_valid_iban_def Let_def split: if_splits option.splits)

lemma normal_form_iff: "normalize_iban s = s \<longleftrightarrow> list_all (\<lambda>c. \<not> is_space c \<and> upper_char c = c) s"
proof
  assume eq: "normalize_iban s = s"
  then have "length (filter (\<lambda>c. \<not> is_space c) s) = length s"
    unfolding normalize_iban_def by (metis length_map)
  then have "\<not> is_space c" if "c \<in> set s" for c
    using that length_filter_less [of c s "\<lambda>c. \<not> is_space c"] by auto
  then have f: "filter (\<lambda>c. \<not> is_space c) s = s" by (rule filter_True_id)
  with eq have "map upper_char s = map (\<lambda>c. c) s" by (simp add: normalize_iban_def)
  then have "\<forall>c \<in> set s. upper_char c = c" by (simp only: map_eq_conv)
  with f show "list_all (\<lambda>c. \<not> is_space c \<and> upper_char c = c) s"
    by (auto simp: list_all_iff filter_id_conv)
next
  assume "list_all (\<lambda>c. \<not> is_space c \<and> upper_char c = c) s"
  then show "normalize_iban s = s"
    by (induction s) (auto simp: normalize_iban_def)
qed

lemma normalize_update:
  "\<not> is_space x \<Longrightarrow> upper_char x = x \<Longrightarrow> normalize_iban s = s \<Longrightarrow> normalize_iban (s[i := x]) = s[i := x]"
  by (auto simp: normal_form_iff list_all_iff dest!: set_update_subset_insert [THEN subsetD])

section \<open>What MOD-97 catches\<close>

definition width :: "char \<Rightarrow> nat" where
  "width c = length (str_digits (base36 c))"

definition iban_number :: "string \<Rightarrow> int" where
  "iban_number s = int_of_digits (concat (map (\<lambda>ch. str_digits (base36 ch)) s))"

lemma int_of_digits_foldl:
  "foldl (\<lambda>a d. 10 * a + int d) x ds = x * 10 ^ length ds + int_of_digits ds"
proof (induction ds rule: rev_induct)
  case (snoc d ds)
  then show ?case by (simp add: int_of_digits_def algebra_simps)
qed (simp add: int_of_digits_def)

lemma int_of_digits_append:
  "int_of_digits (xs @ ys) = int_of_digits xs * 10 ^ length ys + int_of_digits ys"
  unfolding int_of_digits_def foldl_append
  by (subst int_of_digits_foldl) (simp add: int_of_digits_def)

lemma int_of_str_digits: "n < 100 \<Longrightarrow> int_of_digits (str_digits n) = int n"
proof -
  have "int n = 10 * (int n div 10) + int n mod 10" by simp
  then show ?thesis by (simp add: int_of_digits_def str_digits_def zdiv_int zmod_int)
qed

lemma base36_bound: "is_alnum c \<Longrightarrow> base36 c < 36"
  by (auto simp: base36_def is_upper_def is_digit_def Let_def)

lemma base36_inj:
  "is_alnum c \<Longrightarrow> is_alnum d \<Longrightarrow> is_digit c = is_digit d \<Longrightarrow> base36 c = base36 d \<Longrightarrow> c = d"
proof -
  assume "is_alnum c" "is_alnum d" "is_digit c = is_digit d" "base36 c = base36 d"
  then have "(of_char c :: nat) = of_char d"
    unfolding base36_def is_upper_def is_digit_def Let_def
    by (auto simp del: of_char_eq_iff split: if_splits)
  then show "c = d" by simp
qed

lemma width_class: "is_alnum c \<Longrightarrow> is_alnum d \<Longrightarrow> is_digit c = is_digit d \<Longrightarrow> width c = width d"
  by (auto simp: width_def str_digits_def base36_def is_upper_def is_digit_def Let_def)

lemma iban_number_split:
  assumes "is_alnum c"
  shows "iban_number (us @ c # vs) =
    (iban_number us * 10 ^ width c + int (base36 c)) * 10 ^ sum_list (map width vs) + iban_number vs"
proof -
  have len: "length (concat (map (\<lambda>ch. str_digits (base36 ch)) vs)) = sum_list (map width vs)" for vs
    by (simp add: length_concat width_def [abs_def] o_def)
  have "base36 c < 100" using base36_bound [OF assms] by simp
  then show ?thesis
    by (simp add: iban_number_def int_of_digits_append len int_of_str_digits width_def power_add algebra_simps)
qed

lemma coprime_97: "(97 :: int) dvd x * 10 ^ n \<Longrightarrow> 97 dvd x"
proof -
  have "coprime (97 :: int) (10 ^ n)"
    by (rule coprime_power_right_iff [THEN iffD2]) (simp add: coprime_iff_gcd_eq_1 gcd_non_0_int)
  then show "97 dvd x * 10 ^ n \<Longrightarrow> 97 dvd x"
    by (simp add: coprime_dvd_mult_left_iff)
qed

lemma number_single_error:
  assumes c: "is_alnum c" and d: "is_alnum d" and cls: "is_digit c = is_digit d"
    and eq: "iban_number (us @ c # vs) mod 97 = iban_number (us @ d # vs) mod 97"
  shows "c = d"
proof -
  let ?w = "sum_list (map width vs)"
  have "97 dvd iban_number (us @ c # vs) - iban_number (us @ d # vs)"
    using eq by (simp add: mod_eq_dvd_iff)
  also have "iban_number (us @ c # vs) - iban_number (us @ d # vs)
      = (int (base36 c) - int (base36 d)) * 10 ^ ?w"
    using width_class [OF c d cls]
    by (simp add: iban_number_split [OF c] iban_number_split [OF d] algebra_simps)
  finally have "97 dvd int (base36 c) - int (base36 d)" by (rule coprime_97)
  moreover have "base36 c < 36" "base36 d < 36" using base36_bound c d by auto
  ultimately have "base36 c = base36 d"
    using dvd_imp_le_int [of "int (base36 c) - int (base36 d)" 97] by linarith
  with c d cls show ?thesis by (rule base36_inj)
qed

lemma mod97_Some:
  "mod97 s = Some m \<Longrightarrow> m = iban_number (drop 4 s @ take 4 s) mod 97 \<and> list_all is_alnum s"
proof -
  assume a: "mod97 s = Some m"
  then have "list_all is_alnum (drop 4 s @ take 4 s)"
    by (auto simp: mod97_def Let_def split: if_splits)
  then have "list_all is_alnum (take 4 s @ drop 4 s)"
    by (simp only: list_all_append)
  then have "list_all is_alnum s" by (simp only: append_take_drop_id)
  moreover have "m = iban_number (drop 4 s @ take 4 s) mod 97"
    using a unfolding mod97_def iban_number_def Let_def by (simp split: if_splits)
  ultimately show ?thesis by blast
qed

text \<open>The rearranged string has the character of position \<open>i\<close> at exactly one place.\<close>

lemma rearranged_split:
  assumes "i < length s"
  obtains us vs where "\<And>x. drop 4 (s[i := x]) @ take 4 (s[i := x]) = us @ x # vs"
    and "drop 4 s @ take 4 s = us @ s ! i # vs"
proof (cases "i < 4")
  case True
  let ?us = "drop 4 s @ take i s" and ?vs = "drop (Suc i) (take 4 s)"
  have "take 4 s = take i s @ s ! i # ?vs"
    using True assms id_take_nth_drop [of i "take 4 s"] by (simp add: min_def)
  moreover have "take 4 (s[i := x]) = take i s @ x # ?vs" for x
    using True assms
    by (simp only: take_update_swap) (simp add: upd_conv_take_nth_drop min_def)
  ultimately show ?thesis
    using True by (intro that [of ?us ?vs]) simp_all
next
  case False
  let ?us = "take (i - 4) (drop 4 s)" and ?vs = "drop (Suc (i - 4)) (drop 4 s) @ take 4 s"
  have "drop 4 s = ?us @ s ! i # drop (Suc (i - 4)) (drop 4 s)"
    using False assms id_take_nth_drop [of "i - 4" "drop 4 s"] by simp
  moreover have "drop 4 (s[i := x]) = ?us @ x # drop (Suc (i - 4)) (drop 4 s)" for x
    using False assms
    by (simp only: drop_update_swap not_less) (simp add: upd_conv_take_nth_drop)
  ultimately show ?thesis
    using False by (intro that [of ?us ?vs]) simp_all
qed

lemma mod97_single_error:
  assumes i: "i < length s" and ok: "mod97 s = Some 1" and bad: "mod97 (s[i := x]) = Some 1"
    and cls: "is_digit x = is_digit (s ! i)"
  shows "x = s ! i"
proof -
  obtain us vs where eqs: "\<And>x. drop 4 (s[i := x]) @ take 4 (s[i := x]) = us @ x # vs"
    "drop 4 s @ take 4 s = us @ s ! i # vs"
    using rearranged_split [OF i] by metis
  have "is_alnum x" "is_alnum (s ! i)"
    using mod97_Some [OF ok] mod97_Some [OF bad] i
    by (auto simp: list_all_length dest: spec [of _ i])
  then show ?thesis
    using mod97_Some [OF ok] mod97_Some [OF bad] eqs cls
    by (intro number_single_error [of x "s ! i" us vs]) auto
qed

section \<open>Property\<close>

text \<open>
  C8: check digits. Let \<open>w\<close> be an account number the write paths accepted. Replacing
  one of its characters by any other of the same class (digit by digit, letter by
  letter), at any position, country and check digits included, gives a string that
  \<open>assert_iban\<close> refuses with \<open>invalid_iban\<close>.
\<close>

theorem iban_single_error:
  assumes acc: "assert_iban v = Inr w" and i: "i < length w"
    and x: "is_alnum x" "is_digit x = is_digit (w ! i)" and ne: "x \<noteq> w ! i"
  shows "assert_iban (w[i := x]) = Inl InvalidIban"
proof (rule ccontr)
  have w: "is_valid_iban w" "normalize_iban w = w"
    using acc by (auto simp: result_iff)
  have "\<not> is_space x" "upper_char x = x"
    using x(1) by (auto simp: is_space_def is_upper_def is_digit_def Let_def)
  then have nx: "normalize_iban (w[i := x]) = w[i := x]"
    using w(2) by (rule normalize_update)
  assume "assert_iban (w[i := x]) \<noteq> Inl InvalidIban"
  then have "is_valid_iban (w[i := x])"
    using nx by (auto simp: assert_iban_def Let_def split: if_splits)
  then show False
    using mod97_single_error [OF i, of x] valid_iban_shape(2) w nx x(2) ne by metis
qed

theorem iban_single_error_witness:
  "assert_iban (''DE89370400440532013000''[4 := CHR ''9'']) = Inl InvalidIban"
proof (rule iban_single_error [of "'' de89 3704 0044 0532 0130 00 ''"])
  show "assert_iban '' de89 3704 0044 0532 0130 00 '' = Inr ''DE89370400440532013000''"
    by code_simp
qed code_simp+

end
