(* ===== verification/CsvSafety.thy ===== *)
theory CsvSafety
  imports Prelude
begin

text \<open>
  \<open>core/csv_safety.py\<close>: the neutralisation of spreadsheet formulas that every CSV
  writer applies to free text. A cell value is \<open>None\<close> or its text.
\<close>

definition FORMULA_TRIGGERS :: "char list" where
  "FORMULA_TRIGGERS = [CHR ''='', CHR ''+'', CHR ''-'', CHR ''@'', CHR 0x09, CHR 0x0D]"

definition sanitize_cell :: "string option \<Rightarrow> string" where
  "sanitize_cell value =
     (let s = (case value of None \<Rightarrow> [] | Some t \<Rightarrow> t)
      in if s \<noteq> [] \<and> hd s \<in> set FORMULA_TRIGGERS then CHR 0x27 # s else s)"

definition live_formula :: "string \<Rightarrow> bool" where
  "live_formula s \<longleftrightarrow> (case s of [] \<Rightarrow> False | c # _ \<Rightarrow> c \<in> set FORMULA_TRIGGERS)"

lemma sanitize_inert: "\<not> live_formula (sanitize_cell v)"
  by (auto simp: sanitize_cell_def live_formula_def FORMULA_TRIGGERS_def Let_def split: list.splits)

lemma sanitize_id: "\<not> live_formula s \<Longrightarrow> sanitize_cell (Some s) = s"
  by (cases s) (auto simp: sanitize_cell_def live_formula_def)

lemma sanitize_quote: "live_formula s \<Longrightarrow> sanitize_cell (Some s) = CHR 0x27 # s"
  by (cases s) (auto simp: sanitize_cell_def live_formula_def)

text \<open>
  No exported free-text cell starts with a formula trigger, text that was not a
  formula is left exactly as it was, and a second writer's pass changes nothing.
\<close>

theorem sanitize_cell_safe:
  "\<not> live_formula (sanitize_cell v) \<and>
   sanitize_cell (Some (sanitize_cell v)) = sanitize_cell v \<and>
   sanitize_cell (Some s) = (if live_formula s then CHR 0x27 # s else s)"
  by (simp add: sanitize_inert sanitize_id sanitize_quote)

end
