(* ===== verification/Authz.thy ===== *)
theory Authz
  imports Prelude
begin

text \<open>
  \<open>core/authz.py\<close> and \<open>core/roles.py\<close>: the role/permission matrix, the resolution of
  the stored role, the choke point \<open>require\<close>, and the coarse rank ladder kept beside
  them. The stored role is the string in the membership row.
\<close>

section \<open>Vocabulary\<close>

datatype permission =
    INVOICE_READ | INVOICE_WRITE | INVOICE_DELETE | INVOICE_RESTORE | INVOICE_APPROVE
  | ARCHIVE_READ | EXPENSE_READ | EXPENSE_WRITE | EXPENSE_APPROVE
  | ISSUED_READ | ISSUED_WRITE | ISSUED_SEND | PAYMENT_READ | PAYMENT_WRITE
  | REPORT_READ | EXPORT_RUN | AUDIT_READ | MEMBER_READ | MEMBER_MANAGE | ROLE_ASSIGN
  | SETTINGS_MANAGE | BILLING_MANAGE | VAT_READ | VAT_WRITE | VAT_SUBMIT | TRANSPORT_READ

datatype role =
    OWNER | ADMINISTRATOR | FINANCE_MANAGER | ACCOUNTANT | APPROVER | EMPLOYEE | AUDITOR | READ_ONLY

definition ALL_PERMISSIONS :: "permission list" where
  "ALL_PERMISSIONS =
    [INVOICE_READ, INVOICE_WRITE, INVOICE_DELETE, INVOICE_RESTORE, INVOICE_APPROVE,
     ARCHIVE_READ, EXPENSE_READ, EXPENSE_WRITE, EXPENSE_APPROVE,
     ISSUED_READ, ISSUED_WRITE, ISSUED_SEND, PAYMENT_READ, PAYMENT_WRITE,
     REPORT_READ, EXPORT_RUN, AUDIT_READ, MEMBER_READ, MEMBER_MANAGE, ROLE_ASSIGN,
     SETTINGS_MANAGE, BILLING_MANAGE, VAT_READ, VAT_WRITE, VAT_SUBMIT, TRANSPORT_READ]"

fun ROLE_PERMISSIONS :: "role \<Rightarrow> permission list" where
  "ROLE_PERMISSIONS OWNER = ALL_PERMISSIONS"
| "ROLE_PERMISSIONS ADMINISTRATOR = filter (\<lambda>p. p \<noteq> BILLING_MANAGE) ALL_PERMISSIONS"
| "ROLE_PERMISSIONS FINANCE_MANAGER =
    [INVOICE_READ, INVOICE_WRITE, INVOICE_DELETE, INVOICE_APPROVE,
     EXPENSE_READ, EXPENSE_WRITE, EXPENSE_APPROVE, ISSUED_READ, ISSUED_WRITE, ISSUED_SEND,
     PAYMENT_READ, PAYMENT_WRITE, REPORT_READ, EXPORT_RUN, AUDIT_READ,
     VAT_READ, VAT_WRITE, VAT_SUBMIT, TRANSPORT_READ]"
| "ROLE_PERMISSIONS ACCOUNTANT =
    [INVOICE_READ, INVOICE_WRITE, EXPENSE_READ, EXPENSE_WRITE, ISSUED_READ, ISSUED_WRITE,
     PAYMENT_READ, PAYMENT_WRITE, REPORT_READ, EXPORT_RUN, VAT_READ, VAT_WRITE, TRANSPORT_READ]"
| "ROLE_PERMISSIONS APPROVER =
    [EXPENSE_READ, EXPENSE_APPROVE, INVOICE_READ, INVOICE_APPROVE, REPORT_READ]"
| "ROLE_PERMISSIONS EMPLOYEE = [EXPENSE_READ, EXPENSE_WRITE, INVOICE_READ]"
| "ROLE_PERMISSIONS AUDITOR =
    [INVOICE_READ, EXPENSE_READ, ISSUED_READ, PAYMENT_READ, REPORT_READ, AUDIT_READ,
     EXPORT_RUN, VAT_READ, TRANSPORT_READ]"
| "ROLE_PERMISSIONS READ_ONLY =
    [INVOICE_READ, EXPENSE_READ, ISSUED_READ, PAYMENT_READ, REPORT_READ, VAT_READ, TRANSPORT_READ]"

definition role_of_value :: "string \<Rightarrow> role option" where
  "role_of_value = map_of
    [(''organization_owner'', OWNER), (''administrator'', ADMINISTRATOR),
     (''finance_manager'', FINANCE_MANAGER), (''accountant'', ACCOUNTANT),
     (''approver'', APPROVER), (''employee'', EMPLOYEE), (''auditor'', AUDITOR),
     (''read_only'', READ_ONLY)]"

definition LEGACY_ROLE :: "string \<Rightarrow> role option" where
  "LEGACY_ROLE = map_of
    [(''owner'', OWNER), (''admin'', ADMINISTRATOR), (''user'', EMPLOYEE),
     (''user_free'', READ_ONLY)]"

record user =
  user_role :: "string option"
  is_platform_admin :: bool
  is_expense_approver :: bool

section \<open>Operations\<close>

definition business_role :: "user \<Rightarrow> role" where
  "business_role u =
     (case user_role u of
        None \<Rightarrow> READ_ONLY
      | Some val \<Rightarrow>
          (case role_of_value val of
             Some r \<Rightarrow> r
           | None \<Rightarrow> (case LEGACY_ROLE val of Some r \<Rightarrow> r | None \<Rightarrow> READ_ONLY)))"

definition permissions_for :: "user \<Rightarrow> permission list" where
  "permissions_for u =
     (if is_platform_admin u then ALL_PERMISSIONS
      else ROLE_PERMISSIONS (business_role u) @
           (if is_expense_approver u then [EXPENSE_APPROVE] else []))"

definition has_perm :: "user \<Rightarrow> permission \<Rightarrow> bool" where
  "has_perm u p \<longleftrightarrow> p \<in> set (permissions_for u)"

text \<open>The refusal is a 403 naming the missing permissions.\<close>

definition require :: "user \<Rightarrow> permission list \<Rightarrow> permission list + unit" where
  "require u ps =
     (let missing = filter (\<lambda>p. p \<notin> set (permissions_for u)) ps
      in if missing \<noteq> [] then Inl missing else Inr ())"

datatype user_role_value =
    UR_user_free | UR_user | UR_admin | UR_owner
  | UR_finance_manager | UR_accountant | UR_approver | UR_auditor

fun role_value :: "user_role_value \<Rightarrow> string" where
  "role_value UR_user_free = ''user_free''"
| "role_value UR_user = ''user''"
| "role_value UR_admin = ''admin''"
| "role_value UR_owner = ''owner''"
| "role_value UR_finance_manager = ''finance_manager''"
| "role_value UR_accountant = ''accountant''"
| "role_value UR_approver = ''approver''"
| "role_value UR_auditor = ''auditor''"

fun ROLE_RANK :: "user_role_value \<Rightarrow> nat" where
  "ROLE_RANK UR_user_free = 0"
| "ROLE_RANK UR_user = 1"
| "ROLE_RANK UR_admin = 2"
| "ROLE_RANK UR_owner = 3"
| "ROLE_RANK UR_finance_manager = 1"
| "ROLE_RANK UR_accountant = 1"
| "ROLE_RANK UR_approver = 1"
| "ROLE_RANK UR_auditor = 1"

definition ASSIGNABLE_ROLES :: "user_role_value list" where
  "ASSIGNABLE_ROLES = [UR_user_free, UR_user, UR_admin, UR_owner,
     UR_finance_manager, UR_accountant, UR_approver, UR_auditor]"

definition IDP_ASSIGNABLE_ROLES :: "user_role_value list" where
  "IDP_ASSIGNABLE_ROLES = filter (\<lambda>r. r \<noteq> UR_owner) ASSIGNABLE_ROLES"

definition rank :: "bool \<Rightarrow> user_role_value \<Rightarrow> nat" where
  "rank platform_admin r = (if platform_admin then ROLE_RANK UR_owner else ROLE_RANK r)"

definition is_admin_or_above :: "bool \<Rightarrow> user_role_value \<Rightarrow> bool" where
  "is_admin_or_above platform_admin r \<longleftrightarrow> ROLE_RANK UR_admin \<le> rank platform_admin r"

definition is_owner :: "bool \<Rightarrow> user_role_value \<Rightarrow> bool" where
  "is_owner platform_admin r \<longleftrightarrow> ROLE_RANK UR_owner \<le> rank platform_admin r"

section \<open>Lemmas\<close>

lemmas authz_defs = business_role_def permissions_for_def has_perm_def
  role_of_value_def LEGACY_ROLE_def ALL_PERMISSIONS_def

lemma all_permissions_complete: "p \<in> set ALL_PERMISSIONS"
  by (cases p) (simp_all add: ALL_PERMISSIONS_def)

lemma require_Inr [result_iff]: "require u ps = Inr () \<longleftrightarrow> (\<forall>p \<in> set ps. has_perm u p)"
  by (auto simp: require_def has_perm_def Let_def filter_empty_conv)

lemma has_perm_iff:
  "has_perm u p \<longleftrightarrow> is_platform_admin u \<or> p \<in> set (ROLE_PERMISSIONS (business_role u)) \<or>
     is_expense_approver u \<and> p = EXPENSE_APPROVE"
  by (auto simp: has_perm_def permissions_for_def all_permissions_complete)

lemma unknown_role:
  "role_of_value v = None \<Longrightarrow> LEGACY_ROLE v = None \<Longrightarrow> user_role u = Some v \<Longrightarrow> business_role u = READ_ONLY"
  by (simp add: business_role_def)

text \<open>The permission a write-like permission presupposes.\<close>

fun read_of :: "permission \<Rightarrow> permission" where
  "read_of INVOICE_WRITE = INVOICE_READ"
| "read_of INVOICE_DELETE = INVOICE_READ"
| "read_of INVOICE_RESTORE = INVOICE_READ"
| "read_of INVOICE_APPROVE = INVOICE_READ"
| "read_of EXPENSE_WRITE = EXPENSE_READ"
| "read_of EXPENSE_APPROVE = EXPENSE_READ"
| "read_of ISSUED_WRITE = ISSUED_READ"
| "read_of ISSUED_SEND = ISSUED_READ"
| "read_of PAYMENT_WRITE = PAYMENT_READ"
| "read_of VAT_WRITE = VAT_READ"
| "read_of VAT_SUBMIT = VAT_READ"
| "read_of MEMBER_MANAGE = MEMBER_READ"
| "read_of p = p"

lemma matrix_read_closed: "p \<in> set (ROLE_PERMISSIONS r) \<Longrightarrow> read_of p \<in> set (ROLE_PERMISSIONS r)"
  by (cases r) (auto simp: ALL_PERMISSIONS_def)

lemma matrix_expense_read: "EXPENSE_READ \<in> set (ROLE_PERMISSIONS r)"
  by (cases r) (auto simp: ALL_PERMISSIONS_def)

section \<open>Properties\<close>

text \<open>
  The choke point. \<open>require\<close> lets a user through exactly when every asked
  permission is granted, and the grant is deny-by-default: a user who is not the
  platform operator and whose stored role is not one of the known values is refused
  everything outside the READ_ONLY row (plus the expense-approver bridge); and a
  permission to change a resource never comes without the permission to read it.
\<close>

theorem require_deny_by_default:
  "(require u ps = Inr () \<longleftrightarrow> (\<forall>p \<in> set ps. has_perm u p)) \<and>
   (\<not> is_platform_admin u \<longrightarrow> user_role u = Some v \<longrightarrow> role_of_value v = None \<longrightarrow>
      LEGACY_ROLE v = None \<longrightarrow> has_perm u p \<longrightarrow>
      p \<in> set (ROLE_PERMISSIONS READ_ONLY) \<or> p = EXPENSE_APPROVE \<and> is_expense_approver u) \<and>
   (has_perm u p \<longrightarrow> has_perm u (read_of p))"
  using matrix_read_closed [of p "business_role u"] matrix_expense_read [of "business_role u"]
  by (auto simp: require_Inr has_perm_iff unknown_role)

theorem require_deny_by_default_witness:
  "require \<lparr>user_role = Some ''superuser'', is_platform_admin = False, is_expense_approver = True\<rparr>
     [EXPENSE_APPROVE, VAT_SUBMIT, INVOICE_READ] = Inl [VAT_SUBMIT]
   \<and> \<not> has_perm \<lparr>user_role = Some ''superuser'', is_platform_admin = False,
        is_expense_approver = True\<rparr> VAT_SUBMIT"
  using require_deny_by_default [of
      "\<lparr>user_role = Some ''superuser'', is_platform_admin = False, is_expense_approver = True\<rparr>"
      "[VAT_SUBMIT]" "''superuser''" VAT_SUBMIT]
  by (simp add: require_def authz_defs)

text \<open>
  The two authorization vocabularies agree. For every stored role value, the
  coarse ladder of \<open>core/roles.py\<close> calls a user admin-or-above exactly when the
  matrix grants SETTINGS_MANAGE, and owner exactly when it grants BILLING_MANAGE; and
  no role an external identity provider may assign holds BILLING_MANAGE.
\<close>

theorem ladder_agrees_with_matrix:
  "is_admin_or_above adm r =
     has_perm \<lparr>user_role = Some (role_value r), is_platform_admin = adm, is_expense_approver = e\<rparr>
       SETTINGS_MANAGE \<and>
   is_owner adm r =
     has_perm \<lparr>user_role = Some (role_value r), is_platform_admin = adm, is_expense_approver = e\<rparr>
       BILLING_MANAGE \<and>
   (r \<in> set IDP_ASSIGNABLE_ROLES) =
     (\<not> has_perm \<lparr>user_role = Some (role_value r), is_platform_admin = False, is_expense_approver = e\<rparr>
       BILLING_MANAGE)"
  by (cases r; cases adm)
     (simp_all add: is_admin_or_above_def is_owner_def rank_def authz_defs
        IDP_ASSIGNABLE_ROLES_def ASSIGNABLE_ROLES_def)

end
