(* ===== verification/Vat.thy ===== *)
theory Vat
  imports Money "HOL-Library.Multiset"
begin

text \<open>
  \<open>services/vat.py\<close>: the VAT computation of an issued invoice. Lines are grouped by
  effective rate into buckets kept in insertion order (the dict of the source); the
  breakdown is those buckets sorted by rate. \<open>vat_compute_foots\<close> shows that every
  figure printed on the invoice adds up to the cent.
\<close>

section \<open>Data\<close>

definition ZERO_VAT_SCHEMES :: "string list" where
  "ZERO_VAT_SCHEMES = [''reverse_charge'', ''intra_eu'', ''exempt'']"

text \<open>A raw line: a missing key is \<open>None\<close>.\<close>

record raw_line =
  rl_description :: "string option"
  rl_quantity :: "decimal option"
  rl_unit :: "string option"
  rl_unit_price :: "decimal option"
  rl_discount :: "decimal option"
  rl_vat_rate :: "decimal option"

record norm_line =
  nl_description :: string
  nl_quantity :: decimal
  nl_unit :: string
  nl_unit_price :: decimal
  nl_discount :: decimal
  nl_vat_rate :: decimal
  nl_net :: decimal

record rate_bucket =
  rb_rate :: decimal
  rb_base :: decimal
  rb_vat :: decimal

record vat_result =
  vr_lines :: "norm_line list"
  vr_breakdown :: "rate_bucket list"
  vr_subtotal :: decimal
  vr_tax_total :: decimal
  vr_total :: decimal

section \<open>The computation\<close>

definition norm_of :: "bool \<Rightarrow> raw_line \<Rightarrow> norm_line" where
  "norm_of zero li =
     (let qty = (case rl_quantity li of None \<Rightarrow> 1 | Some v \<Rightarrow> v);
          unit_price = or_zero (rl_unit_price li);
          discount = min (max (or_zero (rl_discount li)) 0) 100;
          net = q2 (qty * unit_price * (100 - discount) / 100);
          rate = (if zero then 0 else or_zero (rl_vat_rate li))
      in \<lparr>nl_description = take 500 (py_strip (case rl_description li of None \<Rightarrow> [] | Some d \<Rightarrow> d)),
          nl_quantity = qty,
          nl_unit = take 8 (case rl_unit li of None \<Rightarrow> ''C62'' | Some u \<Rightarrow> u),
          nl_unit_price = unit_price, nl_discount = discount, nl_vat_rate = rate, nl_net = net\<rparr>)"

text \<open>\<open>buckets.setdefault(rate, \<dots>)\<close> followed by \<open>b.base += net\<close>.\<close>

fun add_bucket :: "decimal \<Rightarrow> decimal \<Rightarrow> rate_bucket list \<Rightarrow> rate_bucket list" where
  "add_bucket rate net [] = [\<lparr>rb_rate = rate, rb_base = 0 + net, rb_vat = 0\<rparr>]"
| "add_bucket rate net (b # bs) =
     (if rb_rate b = rate then b\<lparr>rb_base := rb_base b + net\<rparr> # bs
      else b # add_bucket rate net bs)"

definition close_bucket :: "rate_bucket \<Rightarrow> rate_bucket" where
  "close_bucket b =
     (let base = q2 (rb_base b)
      in b\<lparr>rb_base := base, rb_vat := q2 (base * rb_rate b / 100)\<rparr>)"

definition buckets_of :: "norm_line list \<Rightarrow> rate_bucket list" where
  "buckets_of ls = foldl (\<lambda>bs l. add_bucket (nl_vat_rate l) (nl_net l) bs) [] ls"

definition vat_compute :: "raw_line list \<Rightarrow> string \<Rightarrow> vat_result" where
  "vat_compute raw_lines scheme =
     (let zero = scheme \<in> set ZERO_VAT_SCHEMES;
          norm = map (norm_of zero) raw_lines;
          buckets = map close_bucket (buckets_of norm);
          tax_total = q2 (sum_list (map rb_vat buckets));
          subtotal = q2 (sum_list (map nl_net norm));
          breakdown = sort_key rb_rate buckets
      in \<lparr>vr_lines = norm, vr_breakdown = breakdown, vr_subtotal = subtotal,
          vr_tax_total = tax_total, vr_total = q2 (subtotal + tax_total)\<rparr>)"

section \<open>Lines\<close>

lemma norm_net_grid [simp]: "on_cents (nl_net (norm_of z li))"
  by (simp add: norm_of_def Let_def)

lemma norm_rate_zero [simp]: "nl_vat_rate (norm_of True li) = 0"
  by (simp add: norm_of_def Let_def)

lemma norm_discount_bounds: "0 \<le> nl_discount (norm_of z li)" "nl_discount (norm_of z li) \<le> 100"
  by (simp_all add: norm_of_def Let_def)

section \<open>Buckets\<close>

lemma add_bucket_sum: "sum_list (map rb_base (add_bucket r n bs)) = sum_list (map rb_base bs) + n"
  by (induction bs) auto

lemma add_bucket_rates:
  "set (map rb_rate (add_bucket r n bs)) = insert r (set (map rb_rate bs))"
  by (induction bs) auto

lemma add_bucket_distinct: "distinct (map rb_rate bs) \<Longrightarrow> distinct (map rb_rate (add_bucket r n bs))"
proof (induction bs)
  case (Cons b bs)
  then show ?case using add_bucket_rates [of r n bs] by auto
qed simp

lemma add_bucket_grid:
  "on_cents n \<Longrightarrow> list_all (\<lambda>b. on_cents (rb_base b)) bs \<Longrightarrow>
   list_all (\<lambda>b. on_cents (rb_base b)) (add_bucket r n bs)"
  by (induction bs) (auto intro: grid_add)

definition base_at :: "decimal \<Rightarrow> rate_bucket list \<Rightarrow> decimal" where
  "base_at r bs = sum_list (map rb_base (filter (\<lambda>b. rb_rate b = r) bs))"

lemma add_bucket_base_at:
  "distinct (map rb_rate bs) \<Longrightarrow> base_at r (add_bucket r' n bs) = base_at r bs + (if r' = r then n else 0)"
  by (induction bs) (auto simp: base_at_def)

text \<open>Facts about the whole fold are proved with the last line peeled off.\<close>

lemma buckets_snoc: "buckets_of (ls @ [l]) = add_bucket (nl_vat_rate l) (nl_net l) (buckets_of ls)"
  by (simp add: buckets_of_def)

lemma buckets_Nil [simp]: "buckets_of [] = []"
  by (simp add: buckets_of_def)

lemma buckets_distinct: "distinct (map rb_rate (buckets_of ls))"
  by (induction ls rule: rev_induct) (simp_all add: buckets_snoc add_bucket_distinct)

lemma buckets_rates: "rb_rate ` set (buckets_of ls) = nl_vat_rate ` set ls"
proof (induction ls rule: rev_induct)
  case (snoc l ls)
  then show ?case using add_bucket_rates [of "nl_vat_rate l" "nl_net l" "buckets_of ls"]
    by (simp add: buckets_snoc)
qed simp

lemma buckets_base_at:
  "base_at r (buckets_of ls) = sum_list (map nl_net (filter (\<lambda>l. nl_vat_rate l = r) ls))"
  by (induction ls rule: rev_induct)
     (simp_all add: buckets_snoc add_bucket_base_at buckets_distinct, simp add: base_at_def)

lemma buckets_sum: "sum_list (map rb_base (buckets_of ls)) = sum_list (map nl_net ls)"
  by (induction ls rule: rev_induct) (simp_all add: buckets_snoc add_bucket_sum)

lemma buckets_grid:
  "list_all (\<lambda>l. on_cents (nl_net l)) ls \<Longrightarrow> list_all (\<lambda>b. on_cents (rb_base b)) (buckets_of ls)"
  by (induction ls rule: rev_induct) (simp_all add: buckets_snoc add_bucket_grid)

lemma close_bucket_simps [simp]:
  "rb_rate (close_bucket b) = rb_rate b"
  "on_cents (rb_vat (close_bucket b))"
  "on_cents (rb_base b) \<Longrightarrow> rb_base (close_bucket b) = rb_base b"
  by (simp_all add: close_bucket_def Let_def cents.rnd_fix)

lemma close_bucket_vat:
  "rb_vat (close_bucket b) = q2 (rb_base (close_bucket b) * rb_rate (close_bucket b) / 100)"
  by (simp add: close_bucket_def Let_def)

text \<open>A bucket of the closed breakdown carries exactly the net of its rate's lines.\<close>

lemma breakdown_base:
  assumes grid: "list_all (\<lambda>l. on_cents (nl_net l)) ls"
    and b: "b \<in> set (map close_bucket (buckets_of ls))"
  shows "rb_base b = sum_list (map nl_net (filter (\<lambda>l. nl_vat_rate l = rb_rate b) ls))"
proof -
  obtain c where c: "c \<in> set (buckets_of ls)" "b = close_bucket c" using b by auto
  have "filter (\<lambda>x. rb_rate x = rb_rate c) (buckets_of ls) = [c]"
    using buckets_distinct c(1) by (rule filter_key_unique)
  then have "rb_base c = base_at (rb_rate c) (buckets_of ls)" by (simp add: base_at_def)
  moreover have "on_cents (rb_base c)"
    using c(1) buckets_grid [OF grid] by (simp add: list_all_iff)
  ultimately show ?thesis by (simp add: c(2) buckets_base_at)
qed

section \<open>The result, with the final roundings removed\<close>

lemma vat_compute_shape:
  fixes raw scheme
  defines "ls \<equiv> map (norm_of (scheme \<in> set ZERO_VAT_SCHEMES)) raw"
  defines "bs \<equiv> map close_bucket (buckets_of ls)"
  shows "vat_compute raw scheme = \<lparr>vr_lines = ls, vr_breakdown = sort_key rb_rate bs,
      vr_subtotal = sum_list (map nl_net ls), vr_tax_total = sum_list (map rb_vat bs),
      vr_total = sum_list (map nl_net ls) + sum_list (map rb_vat bs)\<rparr>"
proof -
  have grid: "on_cents (nl_net l)" if "l \<in> set ls" for l using that by (auto simp: ls_def)
  have sub: "q2 (sum_list (map nl_net ls)) = sum_list (map nl_net ls)"
    by (rule cents.rnd_sum_list) (rule grid)
  have tax: "q2 (sum_list (map rb_vat bs)) = sum_list (map rb_vat bs)"
    by (rule cents.rnd_sum_list) (auto simp: bs_def)
  have "on_cents (sum_list (map nl_net ls))" "on_cents (sum_list (map rb_vat bs))"
    using sub tax cents.rnd_grid by metis+
  then have tot: "q2 (sum_list (map nl_net ls) + sum_list (map rb_vat bs))
      = sum_list (map nl_net ls) + sum_list (map rb_vat bs)"
    by (intro cents.rnd_fix grid_add)
  show ?thesis
    unfolding vat_compute_def Let_def
    by (simp only: ls_def [symmetric] bs_def [symmetric] sub tax tot)
qed

lemma norm_lines_grid: "list_all (\<lambda>l. on_cents (nl_net l)) (map (norm_of z) raw)"
  by (simp add: list_all_iff)

lemma closed_bases: "map rb_base (map close_bucket (buckets_of (map (norm_of z) raw)))
    = map rb_base (buckets_of (map (norm_of z) raw))"
  using buckets_grid [OF norm_lines_grid [of z raw]] by (auto simp: list_all_iff)

lemma breakdown_sorted: "sorted_wrt (<) (map rb_rate (sort_key rb_rate (map close_bucket (buckets_of ls))))"
proof -
  let ?bs = "map close_bucket (buckets_of ls)"
  have "map rb_rate ?bs = map rb_rate (buckets_of ls)" by simp
  then have "distinct (map rb_rate (sort_key rb_rate ?bs))"
    by (metis buckets_distinct mset_eq_imp_distinct_iff mset_map mset_sort)
  then show ?thesis by (simp add: strict_sorted_iff)
qed

section \<open>Properties\<close>

text \<open>
  C6: an issued invoice foots. The subtotal is the sum of the printed line nets and of
  the printed bases; the tax total is the sum of the printed VAT amounts; the total is
  subtotal plus tax, with no rounding lost; the breakdown lists each rate used once,
  in increasing order, each base being the net of that rate's lines and each VAT
  amount that base at that rate, rounded once.
\<close>

theorem vat_compute_foots:
  assumes r: "r = vat_compute raw scheme"
  shows "vr_subtotal r = sum_list (map nl_net (vr_lines r)) \<and>
    vr_subtotal r = sum_list (map rb_base (vr_breakdown r)) \<and>
    vr_tax_total r = sum_list (map rb_vat (vr_breakdown r)) \<and>
    vr_total r = vr_subtotal r + vr_tax_total r \<and>
    sorted_wrt (<) (map rb_rate (vr_breakdown r)) \<and>
    rb_rate ` set (vr_breakdown r) = nl_vat_rate ` set (vr_lines r) \<and>
    (\<forall>b \<in> set (vr_breakdown r).
       rb_base b = sum_list (map nl_net (filter (\<lambda>l. nl_vat_rate l = rb_rate b) (vr_lines r))) \<and>
       rb_vat b = q2 (rb_base b * rb_rate b / 100))"
proof -
  define ls where "ls = map (norm_of (scheme \<in> set ZERO_VAT_SCHEMES)) raw"
  let ?bs = "map close_bucket (buckets_of ls)"
  have bases: "map rb_base ?bs = map rb_base (buckets_of ls)"
    unfolding ls_def by (rule closed_bases)
  have rates: "rb_rate ` set ?bs = nl_vat_rate ` set ls"
    by (simp add: image_image buckets_rates)
  have each: "rb_base b = sum_list (map nl_net (filter (\<lambda>l. nl_vat_rate l = rb_rate b) ls)) \<and>
      rb_vat b = q2 (rb_base b * rb_rate b / 100)" if "b \<in> set ?bs" for b
    using that breakdown_base [of ls b] norm_lines_grid unfolding ls_def
    by (auto simp: close_bucket_vat)
  have sum: "sum_list (map rb_base (sort_key rb_rate ?bs)) = sum_list (map nl_net ls)"
    by (simp only: sum_list_sort_key bases buckets_sum)
  show ?thesis
    unfolding r vat_compute_shape ls_def [symmetric]
    using breakdown_sorted [of ls] rates each sum
    by (simp only: vat_result.simps sum_list_sort_key set_sort simp_thms) blast
qed

theorem vat_compute_foots_witness:
  "\<exists>r. r = vat_compute
       [\<lparr>rl_description = None, rl_quantity = Some 3, rl_unit = None, rl_unit_price = Some (19 / 2),
         rl_discount = Some 10, rl_vat_rate = Some 21\<rparr>,
        \<lparr>rl_description = None, rl_quantity = None, rl_unit = None, rl_unit_price = Some 5,
         rl_discount = None, rl_vat_rate = Some 12\<rparr>] ''standard'' \<and>
     length (vr_lines r) = 2 \<and> nl_vat_rate ` set (vr_lines r) = {12, 21} \<and>
     rb_rate ` set (vr_breakdown r) = {12, 21} \<and>
     vr_total r = vr_subtotal r + vr_tax_total r"
proof -
  let ?raw = "[\<lparr>rl_description = None, rl_quantity = Some 3, rl_unit = None, rl_unit_price = Some (19 / 2),
         rl_discount = Some 10, rl_vat_rate = Some 21\<rparr>,
        \<lparr>rl_description = None, rl_quantity = None, rl_unit = None, rl_unit_price = Some 5,
         rl_discount = None, rl_vat_rate = Some (12 :: decimal)\<rparr>]"
  have lines: "length (vr_lines (vat_compute ?raw ''standard'')) = 2"
    "nl_vat_rate ` set (vr_lines (vat_compute ?raw ''standard'')) = {12, 21}"
    by (auto simp: vat_compute_shape norm_of_def Let_def ZERO_VAT_SCHEMES_def or_zero_def)
  show ?thesis
    using vat_compute_foots [OF refl, of ?raw "''standard''"] lines by auto
qed

text \<open>
  Under a zero-VAT scheme (reverse charge, intra-EU, exempt) no tax is charged
  whatever rate was entered, and the total is the subtotal; under any scheme a line
  discount, even one outside 0..100, never makes the net of a line with
  non-negative quantity and price negative or more than the undiscounted amount.
\<close>

theorem vat_zero_scheme:
  "(scheme \<in> set ZERO_VAT_SCHEMES \<longrightarrow>
      vr_tax_total (vat_compute raw scheme) = 0 \<and>
      vr_total (vat_compute raw scheme) = vr_subtotal (vat_compute raw scheme)) \<and>
   (0 \<le> nl_quantity (norm_of z li) * nl_unit_price (norm_of z li) \<longrightarrow>
      0 \<le> nl_net (norm_of z li) \<and>
      nl_net (norm_of z li) \<le> q2 (nl_quantity (norm_of z li) * nl_unit_price (norm_of z li)))"
proof (intro conjI impI)
  assume z: "scheme \<in> set ZERO_VAT_SCHEMES"
  let ?bs = "buckets_of (map (norm_of True) raw)"
  have "rb_rate b = 0" if "b \<in> set ?bs" for b
    using that buckets_rates [of "map (norm_of True) raw"] by auto
  then have tax: "sum_list (map rb_vat (map close_bucket ?bs)) = 0"
    by (intro sum_list_all_zero) (auto simp: close_bucket_vat)
  show "vr_tax_total (vat_compute raw scheme) = 0"
    and "vr_total (vat_compute raw scheme) = vr_subtotal (vat_compute raw scheme)"
    using z tax by (simp_all only: vat_compute_shape vat_result.simps if_True add_0_right)
next
  assume nn: "0 \<le> nl_quantity (norm_of z li) * nl_unit_price (norm_of z li)"
  let ?x = "nl_quantity (norm_of z li) * nl_unit_price (norm_of z li)"
  let ?d = "nl_discount (norm_of z li)"
  have net: "nl_net (norm_of z li) = q2 (?x * (100 - ?d) / 100)"
    by (simp add: norm_of_def Let_def)
  have d: "0 \<le> ?d" "?d \<le> 100" by (rule norm_discount_bounds)+
  show "0 \<le> nl_net (norm_of z li)"
    unfolding net using nn d by (intro cents.rnd_nonneg) simp
  have "?x * (100 - ?d) \<le> ?x * 100" using nn d by (intro mult_left_mono) simp_all
  then show "nl_net (norm_of z li) \<le> q2 ?x"
    unfolding net by (intro cents.rnd_mono) simp
qed

theorem vat_zero_scheme_witness:
  "vr_tax_total (vat_compute [\<lparr>rl_description = None, rl_quantity = Some 3, rl_unit = None,
     rl_unit_price = Some (19 / 2), rl_discount = Some 250, rl_vat_rate = Some 21\<rparr>] ''intra_eu'') = 0"
  using vat_zero_scheme [of "''intra_eu''"] by (simp add: ZERO_VAT_SCHEMES_def)

end
