(* ===== verification/IssuedStatus.thy ===== *)
theory IssuedStatus
  imports Money
begin

text \<open>
  \<open>services/issued_status.py\<close> and \<open>services/issued_lifecycle.py\<close>: the issued invoice
  as the receivables code reads it, its stored lifecycle, the status derived from
  amounts and dates (for Python display and as the SQL CASE used to filter), the
  outstanding balance and the late-payment interest.
\<close>

section \<open>The issued invoice\<close>

datatype lifecycle_state = LDraft | LApproved | LIssued | LDisputed | LWrittenOff | LCancelled

datatype doc_type = DocInvoice | DocCreditNote

record issued_invoice =
  iv_id :: ident
  iv_doc_type :: doc_type
  iv_kind :: string
  iv_partner :: "ident option"
  iv_number :: "string option"
  iv_currency :: string
  iv_lifecycle :: "lifecycle_state option"
  iv_issue_date :: date
  iv_due_date :: "date option"
  iv_total :: decimal
  iv_credited_total :: "decimal option"
  iv_amount_paid :: "decimal option"
  iv_paid_date :: "date option"
  iv_sent_at :: "instant option"
  iv_viewed_at :: "instant option"
  iv_voided_at :: "instant option"
  iv_penalty_rate :: "decimal option"
  iv_interest_billed_through :: "date option"

datatype ar_status =
    AR_PAID | AR_PARTIAL | AR_OPEN | AR_OVERDUE | AR_CREDITED | AR_CREDIT_NOTE | AR_VOID
  | AR_DRAFT | AR_APPROVED | AR_SENT | AR_VIEWED | AR_DISPUTED | AR_WRITTEN_OFF

definition lifecycle_of :: "issued_invoice \<Rightarrow> lifecycle_state" where
  "lifecycle_of iv = (case iv_lifecycle iv of None \<Rightarrow> LIssued | Some l \<Rightarrow> l)"

definition paid_of :: "issued_invoice \<Rightarrow> decimal" where
  "paid_of iv = or_zero (iv_amount_paid iv)"

definition credited_of :: "issued_invoice \<Rightarrow> decimal" where
  "credited_of iv = or_zero (iv_credited_total iv)"

text \<open>A plain issued invoice over 100.00 EUR, due on day 10: the input of the witnesses.\<close>

definition sample_invoice :: issued_invoice where
  "sample_invoice = \<lparr>iv_id = ''inv-1'', iv_doc_type = DocInvoice, iv_kind = ''standard'',
     iv_partner = Some ''p-1'', iv_number = Some ''INV-1'', iv_currency = ''EUR'',
     iv_lifecycle = Some LIssued, iv_issue_date = 5, iv_due_date = Some 10, iv_total = 100,
     iv_credited_total = None, iv_amount_paid = Some 0, iv_paid_date = None, iv_sent_at = None,
     iv_viewed_at = None, iv_voided_at = None, iv_penalty_rate = Some 12,
     iv_interest_billed_through = None\<rparr>"

section \<open>The stored lifecycle\<close>

datatype issued_action =
    A_approve | A_issue | A_dispute | A_undispute | A_write_off | A_cancel_draft | A_unknown string

datatype transition_error = UnknownAction | IllegalTransition

fun issued_transitions :: "issued_action \<Rightarrow> (lifecycle_state list \<times> lifecycle_state) option" where
  "issued_transitions A_approve = Some ([LDraft], LApproved)"
| "issued_transitions A_issue = Some ([LDraft, LApproved], LIssued)"
| "issued_transitions A_dispute = Some ([LIssued], LDisputed)"
| "issued_transitions A_undispute = Some ([LDisputed], LIssued)"
| "issued_transitions A_write_off = Some ([LIssued, LDisputed], LWrittenOff)"
| "issued_transitions A_cancel_draft = Some ([LDraft, LApproved], LCancelled)"
| "issued_transitions (A_unknown _) = None"

definition issued_target_for :: "issued_action \<Rightarrow> lifecycle_state \<Rightarrow> transition_error + lifecycle_state" where
  "issued_target_for action current =
     (case issued_transitions action of
        None \<Rightarrow> Inl UnknownAction
      | Some (sources, target) \<Rightarrow>
          if current \<notin> set sources then Inl IllegalTransition else Inr target)"

definition issued_is_editable :: "lifecycle_state \<Rightarrow> bool" where
  "issued_is_editable l \<longleftrightarrow> l \<in> {LDraft}"

interpretation issued_lc: lifecycle issued_target_for "\<lambda>s. s \<in> {LWrittenOff, LCancelled}"
proof unfold_locales
  fix s t a
  assume "s \<in> {LWrittenOff, LCancelled}" and "issued_target_for a s = Inr t"
  then show False by (cases a) (auto simp: issued_target_for_def)
qed

section \<open>Derived amounts\<close>

definition is_credit_note :: "issued_invoice \<Rightarrow> bool" where
  "is_credit_note iv \<longleftrightarrow> iv_doc_type iv = DocCreditNote"

definition effective_total :: "issued_invoice \<Rightarrow> decimal" where
  "effective_total iv =
     (if is_credit_note iv then q2 (iv_total iv) else q2 (iv_total iv - credited_of iv))"

definition outstanding_of :: "issued_invoice \<Rightarrow> decimal" where
  "outstanding_of iv =
     (if is_credit_note iv then q2 0
      else if lifecycle_of iv \<in> {LWrittenOff, LCancelled, LDraft, LApproved} then q2 0
      else q2 (max 0 (effective_total iv - paid_of iv)))"

section \<open>Derived status\<close>

text \<open>
  The generator \<open>_status_rules\<close> is the list of its (condition, status) pairs in the
  order it yields them; the readers take the first that matches. The SQL branch
  rounds \<open>total - credited\<close> without looking at the document type, because the
  credit-note row above it has already been taken.
\<close>

definition status_rules_with :: "decimal \<Rightarrow> issued_invoice \<Rightarrow> date \<Rightarrow> bool \<Rightarrow> (bool \<times> ar_status) list" where
  "status_rules_with eff iv today delivery =
    [(lifecycle_of iv = LDraft, AR_DRAFT),
     (lifecycle_of iv = LApproved, AR_APPROVED),
     (lifecycle_of iv = LCancelled \<or> iv_voided_at iv \<noteq> None, AR_VOID),
     (lifecycle_of iv = LWrittenOff, AR_WRITTEN_OFF),
     (lifecycle_of iv = LDisputed, AR_DISPUTED),
     (is_credit_note iv, AR_CREDIT_NOTE),
     (0 < credited_of iv \<and> eff \<le> 0 \<and> paid_of iv \<le> 0, AR_CREDITED),
     ((0 < eff \<and> eff \<le> paid_of iv) \<or> (eff \<le> 0 \<and> 0 < paid_of iv), AR_PAID),
     ((case iv_due_date iv of None \<Rightarrow> False | Some d \<Rightarrow> d < today), AR_OVERDUE),
     (0 < paid_of iv, AR_PARTIAL)] @
    (if delivery then [(iv_viewed_at iv \<noteq> None, AR_VIEWED), (iv_sent_at iv \<noteq> None, AR_SENT)]
     else [])"

definition status_rules :: "issued_invoice \<Rightarrow> date \<Rightarrow> bool \<Rightarrow> (bool \<times> ar_status) list" where
  "status_rules iv = status_rules_with (effective_total iv) iv"

definition sql_status_rules :: "issued_invoice \<Rightarrow> date \<Rightarrow> bool \<Rightarrow> (bool \<times> ar_status) list" where
  "sql_status_rules iv = status_rules_with (q2 (iv_total iv - credited_of iv)) iv"

fun first_match :: "(bool \<times> 'a) list \<Rightarrow> 'a \<Rightarrow> 'a" where
  "first_match [] d = d"
| "first_match ((b, x) # rs) d = (if b then x else first_match rs d)"

definition ar_status_of :: "issued_invoice \<Rightarrow> date \<Rightarrow> ar_status" where
  "ar_status_of iv today = first_match (status_rules iv today False) AR_OPEN"

definition status_of :: "issued_invoice \<Rightarrow> date \<Rightarrow> ar_status" where
  "status_of iv today = first_match (status_rules iv today True) AR_OPEN"

definition sql_status :: "issued_invoice \<Rightarrow> date \<Rightarrow> bool \<Rightarrow> ar_status" where
  "sql_status iv today delivery = first_match (sql_status_rules iv today delivery) AR_OPEN"

section \<open>Lateness and interest\<close>

definition days_overdue_of :: "issued_invoice \<Rightarrow> date \<Rightarrow> int" where
  "days_overdue_of iv today =
     (case iv_due_date iv of
        None \<Rightarrow> 0
      | Some d \<Rightarrow> if today \<le> d then 0 else today - d)"

definition accrual :: "decimal \<Rightarrow> decimal \<Rightarrow> int \<Rightarrow> decimal" where
  "accrual outstanding rate days = outstanding * rate / 100 * of_int days / 365"

definition penalty_of :: "issued_invoice \<Rightarrow> date \<Rightarrow> decimal" where
  "penalty_of iv today =
     (case iv_penalty_rate iv of
        None \<Rightarrow> 0
      | Some rate \<Rightarrow>
          if rate \<le> 0 then 0
          else let outstanding = outstanding_of iv; days = days_overdue_of iv today
               in if outstanding \<le> 0 \<or> days \<le> 0 then 0 else q2 (accrual outstanding rate days))"

definition unbilled_days_of :: "issued_invoice \<Rightarrow> date \<Rightarrow> int" where
  "unbilled_days_of iv today =
     (case iv_due_date iv of
        None \<Rightarrow> 0
      | Some d \<Rightarrow>
          let start = (case iv_interest_billed_through iv of
                         None \<Rightarrow> d
                       | Some b \<Rightarrow> if d < b then b else d)
          in if today \<le> start then 0 else today - start)"

definition billable_penalty_of :: "issued_invoice \<Rightarrow> date \<Rightarrow> decimal" where
  "billable_penalty_of iv today =
     (case iv_penalty_rate iv of
        None \<Rightarrow> 0
      | Some rate \<Rightarrow>
          if rate \<le> 0 then 0
          else let outstanding = outstanding_of iv; days = unbilled_days_of iv today
               in if outstanding \<le> 0 \<or> days \<le> 0 then 0 else q2 (accrual outstanding rate days))"

section \<open>Lemmas\<close>

lemmas sample_defs = sample_invoice_def lifecycle_of_def is_credit_note_def credited_of_def paid_of_def

lemma sample_fields [simp]:
  "iv_id sample_invoice = ''inv-1''" "iv_currency sample_invoice = ''EUR''" "paid_of sample_invoice = 0"
  "credited_of sample_invoice = 0" "lifecycle_of sample_invoice = LIssued"
  "iv_voided_at sample_invoice = None" "\<not> is_credit_note sample_invoice"
  "iv_due_date sample_invoice = Some 10" "iv_penalty_rate sample_invoice = Some 12"
  "iv_interest_billed_through sample_invoice = None" "iv_total sample_invoice = 100"
  by (simp_all add: sample_defs)

lemma sample_outstanding [simp]: "outstanding_of sample_invoice = 100"
  by (simp add: sample_defs outstanding_of_def effective_total_def cents.rnd_fix)

lemmas status_defs = status_of_def ar_status_of_def status_rules_def sql_status_def
  sql_status_rules_def status_rules_with_def

lemma effective_grid [simp]: "on_cents (effective_total iv)"
  by (simp add: effective_total_def)

lemma outstanding_grid [simp]: "on_cents (outstanding_of iv)"
  by (auto simp: outstanding_of_def)

lemma outstanding_nonneg [simp]: "0 \<le> outstanding_of iv"
  by (auto simp: outstanding_of_def intro: cents.rnd_nonneg)

lemma outstanding_live:
  "\<not> is_credit_note iv \<Longrightarrow> lifecycle_of iv \<in> {LIssued, LDisputed} \<Longrightarrow> on_cents (paid_of iv) \<Longrightarrow>
   outstanding_of iv = max 0 (effective_total iv - paid_of iv)"
  by (auto simp: outstanding_of_def intro!: cents.rnd_fix grid_max grid_diff)

lemma outstanding_pos:
  assumes "0 < outstanding_of iv" and "on_cents (paid_of iv)"
  shows "\<not> is_credit_note iv" "lifecycle_of iv \<in> {LIssued, LDisputed}"
    "outstanding_of iv = effective_total iv - paid_of iv"
proof -
  show nc: "\<not> is_credit_note iv"
    using assms(1) by (auto simp: outstanding_of_def)
  show live: "lifecycle_of iv \<in> {LIssued, LDisputed}"
    using assms(1) by (cases "lifecycle_of iv") (auto simp: outstanding_of_def split: if_splits)
  show "outstanding_of iv = effective_total iv - paid_of iv"
    using outstanding_live [OF nc live assms(2)] assms(1) by (auto simp: max_def split: if_splits)
qed

lemma effective_sql: "\<not> is_credit_note iv \<Longrightarrow> effective_total iv = q2 (iv_total iv - credited_of iv)"
  by (simp add: effective_total_def)

lemma unbilled_le: "0 \<le> unbilled_days_of iv today" "unbilled_days_of iv today \<le> days_overdue_of iv today"
  by (auto simp: unbilled_days_of_def days_overdue_of_def Let_def split: option.splits)

lemma penalty_never_billed:
  "iv_interest_billed_through iv = None \<Longrightarrow> billable_penalty_of iv today = penalty_of iv today"
  by (auto simp: billable_penalty_of_def penalty_of_def unbilled_days_of_def days_overdue_of_def
      Let_def split: option.splits)

section \<open>Properties\<close>


text \<open>
  The status tells the truth about the balance. A live invoice of positive total
  whose cached amounts are cents and not negative is PAID or CREDITED exactly when
  nothing is outstanding, OVERDUE exactly when something is outstanding past the due
  date, and its balance and what was paid and credited make up the total.
\<close>

theorem status_reflects_balance:
  assumes live: "lifecycle_of iv = LIssued" "iv_voided_at iv = None" "\<not> is_credit_note iv"
    and grid: "on_cents (iv_total iv)" "on_cents (credited_of iv)" "on_cents (paid_of iv)"
    and pos: "0 < iv_total iv" "0 \<le> paid_of iv" "0 \<le> credited_of iv"
  shows "(status_of iv today \<in> {AR_PAID, AR_CREDITED} \<longleftrightarrow> outstanding_of iv = 0) \<and>
    (status_of iv today = AR_OVERDUE \<longleftrightarrow>
       0 < outstanding_of iv \<and> 0 < days_overdue_of iv today) \<and>
    (0 < outstanding_of iv \<longrightarrow>
       outstanding_of iv + paid_of iv + credited_of iv = iv_total iv)"
proof -
  have eff: "effective_total iv = iv_total iv - credited_of iv"
    using live(3) grid by (simp add: effective_total_def cents.rnd_fix grid_diff)
  have out: "outstanding_of iv = max 0 (iv_total iv - credited_of iv - paid_of iv)"
    using outstanding_live [OF live(3) _ grid(3)] live(1) eff by simp
  show ?thesis
    using live pos unfolding status_defs eff out
    by (auto simp: max_def days_overdue_of_def split: option.splits)
qed

theorem status_reflects_balance_witness:
  "status_of (sample_invoice\<lparr>iv_amount_paid := Some 20, iv_credited_total := Some 40\<rparr>) 12 = AR_OVERDUE"
  (is "status_of ?i 12 = _")
proof -
  have out: "outstanding_of ?i = 40"
    by (simp add: sample_defs outstanding_of_def effective_total_def cents.rnd_fix)
  show ?thesis
    using status_reflects_balance [of ?i 12] out by (simp add: sample_defs days_overdue_of_def)
qed

end
