(* ===== verification/Receivables.thy ===== *)
theory Receivables
  imports IssuedStatus Ledger
begin

text \<open>
  The receivables cash book: \<open>services/payments.py\<close> (the ledger behind
  \<open>amount_paid\<close>), \<open>services/receipts.py\<close> (incoming receipts allocated to invoices),
  \<open>services/payment_commands.py\<close> and the command handler of
  \<open>api/routes/issued.py\<close> (idempotent, append-only cash). The state is one tenant's
  rows; generated ids, command digests and the current date are arguments.
\<close>

section \<open>State\<close>

record payment =
  pm_id :: ident
  pm_invoice :: ident
  pm_amount :: decimal
  pm_paid_on :: date
  pm_method :: string
  pm_reference :: "string option"
  pm_note :: "string option"
  pm_receipt :: "ident option"
  pm_command_key :: "string option"
  pm_command_hash :: "string option"
  pm_reversal_of :: "ident option"

record receipt =
  rc_id :: ident
  rc_amount :: decimal
  rc_received_on :: date
  rc_method :: string
  rc_reference :: "string option"
  rc_note :: "string option"

text \<open>Payments are in insertion (\<open>created_at\<close>) order.\<close>

record books =
  bk_invoices :: "issued_invoice list"
  bk_payments :: "payment list"
  bk_receipts :: "receipt list"

datatype cash_error =
    CashNotFound                                  \<comment> \<open>404\<close>
  | CommandPayloadConflict | PaymentCurrencyMismatch | PaymentBalanceChanged
  | PaymentOverpay | PaymentNotFound | PaymentReceiptLinked | PaymentNotReversible
  | PaymentAlreadyReversed | PaymentHistoryReview | PaymentNotReceivable
  | CreditNoteNotReceivable | PaymentReversalRequired
  | AllocationNotPositive | AllocationExceedsReceipt | AllocationExceedsInvoice
  | AllocationNotFound | AllocationNotPositiveEntry | AllocationAlreadyReversed
  | AmountExceedsEffective | CashAssertion         \<comment> \<open>the handlers' assertions\<close>

definition get_invoice :: "ident \<Rightarrow> books \<Rightarrow> issued_invoice option" where
  "get_invoice i bk = find (\<lambda>iv. iv_id iv = i) (bk_invoices bk)"

definition get_receipt :: "ident \<Rightarrow> books \<Rightarrow> receipt option" where
  "get_receipt r bk = find (\<lambda>x. rc_id x = r) (bk_receipts bk)"

definition put_invoice :: "issued_invoice \<Rightarrow> books \<Rightarrow> books" where
  "put_invoice iv bk =
     bk\<lparr>bk_invoices := map (\<lambda>x. if iv_id x = iv_id iv then iv else x) (bk_invoices bk)\<rparr>"

definition add_payment :: "payment option \<Rightarrow> books \<Rightarrow> books" where
  "add_payment e bk =
     (case e of None \<Rightarrow> bk | Some p \<Rightarrow> bk\<lparr>bk_payments := bk_payments bk @ [p]\<rparr>)"

section \<open>The ledger: payments.py\<close>

definition list_for :: "ident \<Rightarrow> books \<Rightarrow> payment list" where
  "list_for invoice_id bk =
     sort_key pm_paid_on (filter (\<lambda>p. pm_invoice p = invoice_id) (bk_payments bk))"

definition derive_paid_date :: "decimal \<Rightarrow> decimal \<Rightarrow> date option \<Rightarrow> date \<Rightarrow> date option" where
  "derive_paid_date new_total effective when today =
     (if effective \<le> new_total \<and> 0 < effective
      then Some (case when of None \<Rightarrow> today | Some d \<Rightarrow> d)
      else if 0 < new_total then when else None)"

definition set_cumulative ::
  "ident \<Rightarrow> issued_invoice \<Rightarrow> decimal \<Rightarrow> decimal \<Rightarrow> date option \<Rightarrow> string \<Rightarrow> string option \<Rightarrow>
   string option \<Rightarrow> date \<Rightarrow> issued_invoice \<times> payment option" where
  "set_cumulative pid iv new_total effective paid_date method reference note today =
     (let old = paid_of iv;
          nt = q2 new_total;
          delta = q2 (nt - old);
          entry = (if delta \<noteq> 0
                   then Some \<lparr>pm_id = pid, pm_invoice = iv_id iv, pm_amount = delta,
                     pm_paid_on = (case paid_date of None \<Rightarrow> today | Some d \<Rightarrow> d),
                     pm_method = method, pm_reference = reference, pm_note = note,
                     pm_receipt = None, pm_command_key = None, pm_command_hash = None,
                     pm_reversal_of = None\<rparr>
                   else None)
      in (iv\<lparr>iv_amount_paid := Some nt,
             iv_paid_date := derive_paid_date nt effective paid_date today\<rparr>, entry))"

definition add_receipt_allocation ::
  "ident \<Rightarrow> issued_invoice \<Rightarrow> decimal \<Rightarrow> decimal \<Rightarrow> ident \<Rightarrow> date \<Rightarrow> string \<Rightarrow> string option \<Rightarrow> date \<Rightarrow>
   issued_invoice \<times> payment" where
  "add_receipt_allocation pid iv amount effective receipt_id paid_on method reference today =
     (let amt = q2 amount;
          paid = q2 (paid_of iv + amt)
      in (iv\<lparr>iv_amount_paid := Some paid,
             iv_paid_date := derive_paid_date paid effective (Some paid_on) today\<rparr>,
          \<lparr>pm_id = pid, pm_invoice = iv_id iv, pm_amount = amt, pm_paid_on = paid_on,
           pm_method = method, pm_reference = reference, pm_note = None,
           pm_receipt = Some receipt_id, pm_command_key = None, pm_command_hash = None,
           pm_reversal_of = None\<rparr>))"

definition reverse_allocation ::
  "ident \<Rightarrow> issued_invoice \<Rightarrow> payment \<Rightarrow> decimal \<Rightarrow> date option \<Rightarrow> date \<Rightarrow> issued_invoice \<times> payment" where
  "reverse_allocation pid iv entry effective when today =
     (let delta = q2 (- pm_amount entry);
          paid = q2 (paid_of iv + delta)
      in (iv\<lparr>iv_amount_paid := Some paid,
             iv_paid_date := derive_paid_date paid effective (iv_paid_date iv) today\<rparr>,
          \<lparr>pm_id = pid, pm_invoice = iv_id iv, pm_amount = delta,
           pm_paid_on = (case when of None \<Rightarrow> today | Some d \<Rightarrow> d),
           pm_method = pm_method entry, pm_reference = pm_reference entry,
           pm_note = Some (''reversal:'' @ pm_id entry), pm_receipt = pm_receipt entry,
           pm_command_key = None, pm_command_hash = None, pm_reversal_of = None\<rparr>))"

text \<open>\<open>backfill_ledger\<close>: ids of the new entries are drawn from \<open>gen\<close>.\<close>

fun backfill_from :: "(ident \<Rightarrow> ident) \<Rightarrow> issued_invoice list \<Rightarrow> books \<Rightarrow> nat \<Rightarrow> books \<times> nat" where
  "backfill_from gen [] bk made = (bk, made)"
| "backfill_from gen (iv # ivs) bk made =
     (if paid_of iv = 0 \<or> (\<exists>p \<in> set (bk_payments bk). pm_invoice p = iv_id iv)
      then backfill_from gen ivs bk made
      else backfill_from gen ivs
        (add_payment (Some \<lparr>pm_id = gen (iv_id iv), pm_invoice = iv_id iv, pm_amount = q2 (paid_of iv),
           pm_paid_on = (case iv_paid_date iv of None \<Rightarrow> iv_issue_date iv | Some d \<Rightarrow> d),
           pm_method = ''migrated'', pm_reference = None, pm_note = None, pm_receipt = None,
           pm_command_key = None, pm_command_hash = None, pm_reversal_of = None\<rparr>) bk)
        (Suc made))"

definition backfill_ledger :: "(ident \<Rightarrow> ident) \<Rightarrow> books \<Rightarrow> books \<times> nat" where
  "backfill_ledger gen bk = backfill_from gen (bk_invoices bk) bk 0"

section \<open>Receipts: receipts.py\<close>

definition create_receipt ::
  "ident \<Rightarrow> decimal \<Rightarrow> date \<Rightarrow> string \<Rightarrow> string option \<Rightarrow> string option \<Rightarrow> books \<Rightarrow> books \<times> receipt" where
  "create_receipt rid amount received_on method reference note bk =
     (let r = \<lparr>rc_id = rid, rc_amount = q2 amount, rc_received_on = received_on,
               rc_method = method, rc_reference = reference, rc_note = note\<rparr>
      in (bk\<lparr>bk_receipts := bk_receipts bk @ [r]\<rparr>, r))"

definition allocations :: "ident \<Rightarrow> books \<Rightarrow> payment list" where
  "allocations r bk = filter (\<lambda>p. pm_receipt p = Some r) (bk_payments bk)"

definition allocated_total :: "ident \<Rightarrow> books \<Rightarrow> decimal" where
  "allocated_total r bk = q2 (sum_list (map pm_amount (allocations r bk)))"

definition unallocated :: "receipt \<Rightarrow> books \<Rightarrow> decimal" where
  "unallocated rc bk = q2 (rc_amount rc - allocated_total (rc_id rc) bk)"

definition allocate ::
  "ident \<Rightarrow> receipt \<Rightarrow> issued_invoice \<Rightarrow> decimal \<Rightarrow> date \<Rightarrow> books \<Rightarrow> cash_error + books \<times> payment" where
  "allocate pid rc iv amount today bk =
     (let amt = q2 amount in
      if amt \<le> 0 then Inl AllocationNotPositive
      else if is_credit_note iv then Inl CreditNoteNotReceivable
      else if unallocated rc bk < amt then Inl AllocationExceedsReceipt
      else if outstanding_of iv < amt then Inl AllocationExceedsInvoice
      else let (iv', entry) = add_receipt_allocation pid iv amt (effective_total iv) (rc_id rc)
                 (rc_received_on rc) (rc_method rc) (rc_reference rc) today
           in Inr (add_payment (Some entry) (put_invoice iv' bk), entry))"

definition deallocate ::
  "ident \<Rightarrow> receipt \<Rightarrow> ident \<Rightarrow> date \<Rightarrow> books \<Rightarrow> cash_error + books \<times> payment" where
  "deallocate pid rc payment_id today bk =
     (case find (\<lambda>p. pm_id p = payment_id \<and> pm_receipt p = Some (rc_id rc)) (bk_payments bk) of
        None \<Rightarrow> Inl AllocationNotFound
      | Some entry \<Rightarrow>
          if pm_amount entry \<le> 0 then Inl AllocationNotPositiveEntry
          else if \<exists>p \<in> set (bk_payments bk). pm_note p = Some (''reversal:'' @ payment_id)
          then Inl AllocationAlreadyReversed
          else (case get_invoice (pm_invoice entry) bk of
                  None \<Rightarrow> Inl CashNotFound
                | Some iv \<Rightarrow>
                    let (iv', rev) = reverse_allocation pid iv entry (effective_total iv) None today
                    in Inr (add_payment (Some rev) (put_invoice iv' bk), rev)))"

section \<open>Cash commands: payment\_commands.py and the route\<close>

record cash_payment =
  cp_amount :: decimal
  cp_expected_outstanding :: decimal
  cp_currency :: string
  cp_paid_on :: "date option"
  cp_method :: string
  cp_reference :: "string option"

record payment_reversal =
  rv_expected_outstanding :: decimal
  rv_currency :: string
  rv_reason :: string
  rv_paid_on :: "date option"

datatype cash_body = Append cash_payment | Reverse ident payment_reversal

definition command_lookup :: "string \<Rightarrow> string option \<Rightarrow> books \<Rightarrow> cash_error + payment option" where
  "command_lookup key expected bk =
     (case find (\<lambda>p. pm_command_key p = Some key) (bk_payments bk) of
        None \<Rightarrow> Inr None
      | Some row \<Rightarrow>
          if expected \<noteq> None \<and> pm_command_hash row \<noteq> expected then Inl CommandPayloadConflict
          else Inr (Some row))"

definition check_balance :: "issued_invoice \<Rightarrow> string \<Rightarrow> decimal \<Rightarrow> cash_error + unit" where
  "check_balance iv currency expected =
     (if iv_currency iv \<noteq> currency then Inl PaymentCurrencyMismatch
      else if outstanding_of iv \<noteq> expected then Inl PaymentBalanceChanged
      else Inr ())"

definition append_cash ::
  "ident \<Rightarrow> issued_invoice \<Rightarrow> cash_payment \<Rightarrow> string \<Rightarrow> string \<Rightarrow> date \<Rightarrow> books \<Rightarrow> cash_error + books \<times> payment" where
  "append_cash pid iv body key digest today bk =
     (case check_balance iv (cp_currency body) (cp_expected_outstanding body) of
        Inl e \<Rightarrow> Inl e
      | Inr _ \<Rightarrow>
          if outstanding_of iv < cp_amount body then Inl PaymentOverpay
          else (case set_cumulative pid iv (paid_of iv + cp_amount body) (effective_total iv)
                       (cp_paid_on body) (cp_method body) (cp_reference body) None today of
                  (iv', None) \<Rightarrow> Inl CashAssertion
                | (iv', Some e) \<Rightarrow>
                    let entry = e\<lparr>pm_command_key := Some key, pm_command_hash := Some digest\<rparr>
                    in Inr (add_payment (Some entry) (put_invoice iv' bk), entry)))"

definition reverse_cash ::
  "ident \<Rightarrow> issued_invoice \<Rightarrow> ident \<Rightarrow> payment_reversal \<Rightarrow> string \<Rightarrow> string \<Rightarrow> date \<Rightarrow> books \<Rightarrow>
   cash_error + books \<times> payment" where
  "reverse_cash pid iv payment_id body key digest today bk =
     (case check_balance iv (rv_currency body) (rv_expected_outstanding body) of
        Inl e \<Rightarrow> Inl e
      | Inr _ \<Rightarrow>
        (case find (\<lambda>p. pm_invoice p = iv_id iv \<and> pm_id p = payment_id) (bk_payments bk) of
           None \<Rightarrow> Inl PaymentNotFound
         | Some original \<Rightarrow>
             if pm_receipt original \<noteq> None then Inl PaymentReceiptLinked
             else if pm_amount original \<le> 0 \<or> pm_reversal_of original \<noteq> None
             then Inl PaymentNotReversible
             else if \<exists>p \<in> set (bk_payments bk). pm_reversal_of p = Some (pm_id original)
             then Inl PaymentAlreadyReversed
             else if \<exists>p \<in> set (bk_payments bk). pm_invoice p = iv_id iv \<and> pm_amount p < 0 \<and>
                       pm_reversal_of p = None \<and> pm_receipt p = None
             then Inl PaymentHistoryReview
             else if paid_of iv < pm_amount original then Inl PaymentHistoryReview
             else (case set_cumulative pid iv (paid_of iv - pm_amount original) (effective_total iv)
                          (iv_paid_date iv) (pm_method original) (pm_reference original)
                          (Some (rv_reason body)) today of
                     (iv', None) \<Rightarrow> Inl CashAssertion
                   | (iv', Some e) \<Rightarrow>
                       let entry = e\<lparr>pm_paid_on := (case rv_paid_on body of None \<Rightarrow> today | Some d \<Rightarrow> d),
                             pm_reversal_of := Some (pm_id original),
                             pm_command_key := Some key, pm_command_hash := Some digest\<rparr>
                       in Inr (add_payment (Some entry) (put_invoice iv' bk), entry))))"

definition require_cash_receivable :: "issued_invoice \<Rightarrow> cash_error + unit" where
  "require_cash_receivable iv =
     (if iv_voided_at iv \<noteq> None then Inl PaymentNotReceivable
      else if lifecycle_of iv \<in> {LDraft, LApproved} then Inl PaymentNotReceivable
      else if lifecycle_of iv \<in> {LCancelled, LWrittenOff} then Inl PaymentNotReceivable
      else Inr ())"

text \<open>
  The command handler: a repeated command returns the entry it wrote the first time.
\<close>

definition cash_command ::
  "ident \<Rightarrow> ident \<Rightarrow> cash_body \<Rightarrow> string \<Rightarrow> string \<Rightarrow> date \<Rightarrow> books \<Rightarrow> cash_error + books \<times> payment" where
  "cash_command pid invoice_id body key digest today bk =
     (case get_invoice invoice_id bk of
        None \<Rightarrow> Inl CashNotFound
      | Some iv \<Rightarrow>
        (case command_lookup key (Some digest) bk of
           Inl e \<Rightarrow> Inl e
         | Inr (Some previous) \<Rightarrow> Inr (bk, previous)
         | Inr None \<Rightarrow>
             (case require_cash_receivable iv of
                Inl e \<Rightarrow> Inl e
              | Inr _ \<Rightarrow>
                  if is_credit_note iv then Inl CreditNoteNotReceivable
                  else (case body of
                          Append b \<Rightarrow> append_cash pid iv b key digest today bk
                        | Reverse p b \<Rightarrow> reverse_cash pid iv p b key digest today bk))))"

text \<open>
  The legacy cumulative endpoint (\<open>record_payment\<close>): increases only; the result is the
  new books, unchanged when the command or the total was already recorded.
\<close>

definition record_payment ::
  "ident \<Rightarrow> ident \<Rightarrow> decimal \<Rightarrow> date option \<Rightarrow> string \<Rightarrow> date \<Rightarrow> books \<Rightarrow> cash_error + books" where
  "record_payment pid invoice_id amount paid_date digest today bk =
     (case get_invoice invoice_id bk of
        None \<Rightarrow> Inl CashNotFound
      | Some iv \<Rightarrow>
        let key = ''legacy:'' @ digest in
        (case command_lookup key (Some digest) bk of
           Inl e \<Rightarrow> Inl e
         | Inr (Some _) \<Rightarrow> Inr bk
         | Inr None \<Rightarrow>
             (case require_cash_receivable iv of
                Inl e \<Rightarrow> Inl e
              | Inr _ \<Rightarrow>
                  if is_credit_note iv then Inl CreditNoteNotReceivable
                  else if effective_total iv < amount then Inl AmountExceedsEffective
                  else if amount < paid_of iv then Inl PaymentReversalRequired
                  else if amount = paid_of iv then Inr bk
                  else (case set_cumulative pid iv amount (effective_total iv) paid_date
                               ''bank_transfer'' None None today of
                          (iv', None) \<Rightarrow> Inl CashAssertion
                        | (iv', Some e) \<Rightarrow>
                            let entry = e\<lparr>pm_command_key := Some key, pm_command_hash := Some digest\<rparr>
                            in Inr (add_payment (Some entry) (put_invoice iv' bk))))))"

text \<open>\<open>void_invoice\<close>: cancels an unpaid issued invoice by stamping \<open>voided_at\<close>.\<close>

datatype void_error = AlreadyVoided | NotIssued | VoidCreditNote | VoidHasPayments | VoidHasCredits

definition void_invoice :: "instant \<Rightarrow> issued_invoice \<Rightarrow> void_error + issued_invoice" where
  "void_invoice now iv =
     (if iv_voided_at iv \<noteq> None then Inl AlreadyVoided
      else if lifecycle_of iv \<noteq> LIssued then Inl NotIssued
      else if is_credit_note iv then Inl VoidCreditNote
      else if 0 < paid_of iv then Inl VoidHasPayments
      else if 0 < credited_of iv then Inl VoidHasCredits
      else Inr (iv\<lparr>iv_voided_at := Some now\<rparr>))"

section \<open>The contract of \<open>set_cumulative\<close>\<close>

interpretation ar: cumulative_ledger paid_of
  "\<lambda>t iv. map_prod id (map_option pm_amount)
     (set_cumulative pid iv t effective paid_date mth rf nt today)"
  for pid effective paid_date mth rf nt today
  by unfold_locales (simp_all add: set_cumulative_def Let_def paid_of_def)

lemma set_cumulative_fields:
  "set_cumulative pid iv t eff pd m r n today = (iv', e) \<Longrightarrow>
     iv_id iv' = iv_id iv \<and> paid_of iv' = q2 t \<and>
     (case e of None \<Rightarrow> q2 (q2 t - paid_of iv) = 0
      | Some p \<Rightarrow> pm_id p = pid \<and> pm_invoice p = iv_id iv \<and> pm_amount p = q2 (q2 t - paid_of iv) \<and>
          pm_note p = n \<and> pm_receipt p = None \<and> pm_reversal_of p = None)"
  by (auto simp: set_cumulative_def Let_def paid_of_def)

end
