(* ===== verification/CashBook.thy ===== *)
theory CashBook
  imports Receivables
begin

text \<open>
  The receivables cash book as a transition system over the operations of
  \<open>Receivables\<close>, its invariant, and the properties of cash that follow: the cache is
  the ledger, nothing is overdrawn, a command takes effect once, an allocation can be
  undone exactly.
\<close>

section \<open>The invariant\<close>

definition total_of :: "(ident \<Rightarrow> ident option \<Rightarrow> bool) \<Rightarrow> payment list \<Rightarrow> decimal" where
  "total_of k ps = sum_list (map pm_amount (filter (\<lambda>p. k (pm_invoice p) (pm_receipt p)) ps))"

text \<open>
  A direct payment is reversed by the entry that links to it, an allocation by the
  entry whose note names it.
\<close>

definition reversed_in :: "payment list \<Rightarrow> payment \<Rightarrow> bool" where
  "reversed_in ps p \<longleftrightarrow>
     (case pm_receipt p of
        None \<Rightarrow> \<exists>n \<in> set ps. pm_reversal_of n = Some (pm_id p)
      | Some _ \<Rightarrow> \<exists>n \<in> set ps. pm_note n = Some (''reversal:'' @ pm_id p))"

definition standing :: "payment list \<Rightarrow> payment \<Rightarrow> bool" where
  "standing ps p \<longleftrightarrow> 0 < pm_amount p \<and> \<not> reversed_in ps p"

definition unreversed :: "(ident \<Rightarrow> ident option \<Rightarrow> bool) \<Rightarrow> payment list \<Rightarrow> decimal" where
  "unreversed k ps =
     sum_list (map pm_amount (filter (\<lambda>p. k (pm_invoice p) (pm_receipt p) \<and> standing ps p) ps))"

definition net_ok :: "payment list \<Rightarrow> bool" where
  "net_ok ps \<longleftrightarrow> (\<forall>k. unreversed k ps \<le> total_of k ps)"

definition cache_ok :: "books \<Rightarrow> bool" where
  "cache_ok bk \<longleftrightarrow> (\<forall>iv \<in> set (bk_invoices bk).
     on_cents (paid_of iv) \<and> paid_of iv = total_of (\<lambda>i r. i = iv_id iv) (bk_payments bk))"

definition receipts_ok :: "books \<Rightarrow> bool" where
  "receipts_ok bk \<longleftrightarrow> (\<forall>rc \<in> set (bk_receipts bk).
     on_cents (rc_amount rc) \<and>
     total_of (\<lambda>i r. r = Some (rc_id rc)) (bk_payments bk) \<le> rc_amount rc)"

definition books_ok :: "books \<Rightarrow> bool" where
  "books_ok bk \<longleftrightarrow>
     distinct (map iv_id (bk_invoices bk)) \<and> distinct (map pm_id (bk_payments bk)) \<and>
     distinct (map rc_id (bk_receipts bk)) \<and>
     (\<forall>p \<in> set (bk_payments bk). on_cents (pm_amount p)) \<and>
     cache_ok bk \<and> receipts_ok bk \<and> net_ok (bk_payments bk)"

definition fresh_id :: "ident \<Rightarrow> books \<Rightarrow> bool" where
  "fresh_id pid bk \<longleftrightarrow> (\<forall>p \<in> set (bk_payments bk).
     pm_id p \<noteq> pid \<and> pm_reversal_of p \<noteq> Some pid \<and> pm_note p \<noteq> Some (''reversal:'' @ pid))"

definition fresh_receipt :: "ident \<Rightarrow> books \<Rightarrow> bool" where
  "fresh_receipt rid bk \<longleftrightarrow> rid \<notin> rc_id ` set (bk_receipts bk) \<and>
     Some rid \<notin> pm_receipt ` set (bk_payments bk)"

text \<open>What the request schemas guarantee of a command body.\<close>

fun body_ok :: "cash_body \<Rightarrow> bool" where
  "body_ok (Append b) \<longleftrightarrow> 0 < cp_amount b"
| "body_ok (Reverse p b) \<longleftrightarrow> True"

section \<open>The steps\<close>

inductive cash_step :: "books \<Rightarrow> books \<Rightarrow> bool" where
  command: "fresh_id pid bk \<Longrightarrow> body_ok body \<Longrightarrow>
     cash_command pid i body key digest today bk = Inr (bk', p) \<Longrightarrow> cash_step bk bk'"
| legacy: "fresh_id pid bk \<Longrightarrow>
     record_payment pid i amount paid_date digest today bk = Inr bk' \<Longrightarrow> cash_step bk bk'"
| receive: "fresh_receipt rid bk \<Longrightarrow> 0 \<le> amount \<Longrightarrow>
     create_receipt rid amount on mth ref nt bk = (bk', rc) \<Longrightarrow> cash_step bk bk'"
| assign: "fresh_id pid bk \<Longrightarrow> get_receipt r bk = Some rc \<Longrightarrow> get_invoice i bk = Some iv \<Longrightarrow>
     allocate pid rc iv amount today bk = Inr (bk', p) \<Longrightarrow> cash_step bk bk'"
| unassign: "fresh_id pid bk \<Longrightarrow> get_receipt r bk = Some rc \<Longrightarrow>
     deallocate pid rc payment today bk = Inr (bk', p) \<Longrightarrow> cash_step bk bk'"
| new_invoice: "iv_id iv \<notin> iv_id ` set (bk_invoices bk) \<Longrightarrow>
     iv_id iv \<notin> pm_invoice ` set (bk_payments bk) \<Longrightarrow> paid_of iv = 0 \<Longrightarrow>
     cash_step bk (bk\<lparr>bk_invoices := bk_invoices bk @ [iv]\<rparr>)"
| amend: "get_invoice (iv_id iv') bk = Some iv \<Longrightarrow> paid_of iv' = paid_of iv \<Longrightarrow>
     cash_step bk (put_invoice iv' bk)"

inductive cash_reachable :: "books \<Rightarrow> bool" where
  empty: "cash_reachable \<lparr>bk_invoices = [], bk_payments = [], bk_receipts = []\<rparr>"
| step: "cash_reachable bk \<Longrightarrow> cash_step bk bk' \<Longrightarrow> cash_reachable bk'"

section \<open>Rows\<close>

lemma get_invoice_Some: "get_invoice i bk = Some iv \<Longrightarrow> iv \<in> set (bk_invoices bk) \<and> iv_id iv = i"
  by (auto simp: get_invoice_def find_Some_iff)

lemma get_receipt_Some: "get_receipt r bk = Some rc \<Longrightarrow> rc \<in> set (bk_receipts bk) \<and> rc_id rc = r"
  by (auto simp: get_receipt_def find_Some_iff)

lemma find_in_set: "find P xs = Some x \<Longrightarrow> x \<in> set xs \<and> P x"
  by (auto simp: find_Some_iff)

lemma find_app: "find P xs = None \<Longrightarrow> find P (xs @ ys) = find P ys"
  by (induction xs) (auto split: if_splits)

lemma put_invoice_simps [simp]:
  "bk_payments (put_invoice iv bk) = bk_payments bk"
  "bk_receipts (put_invoice iv bk) = bk_receipts bk"
  "map iv_id (bk_invoices (put_invoice iv bk)) = map iv_id (bk_invoices bk)"
  by (auto simp: put_invoice_def)

lemma add_payment_simps [simp]:
  "bk_invoices (add_payment e bk) = bk_invoices bk"
  "bk_receipts (add_payment e bk) = bk_receipts bk"
  "bk_payments (add_payment (Some p) bk) = bk_payments bk @ [p]"
  by (auto simp: add_payment_def split: option.splits)

lemma put_invoice_set:
  "x \<in> set (bk_invoices (put_invoice iv bk)) \<Longrightarrow>
     x = iv \<and> iv_id iv \<in> iv_id ` set (bk_invoices bk) \<or> x \<in> set (bk_invoices bk) \<and> iv_id x \<noteq> iv_id iv"
proof -
  assume "x \<in> set (bk_invoices (put_invoice iv bk))"
  then obtain y where "y \<in> set (bk_invoices bk)" "x = (if iv_id y = iv_id iv then iv else y)"
    by (auto simp: put_invoice_def)
  then show ?thesis by (metis image_eqI)
qed

lemma total_of_snoc [simp]:
  "total_of k (ps @ [p]) = total_of k ps + (if k (pm_invoice p) (pm_receipt p) then pm_amount p else 0)"
  by (simp add: total_of_def)

lemma allocated_total_eq:
  "\<forall>p \<in> set (bk_payments bk). on_cents (pm_amount p) \<Longrightarrow>
   allocated_total r bk = total_of (\<lambda>i x. x = Some r) (bk_payments bk)"
  unfolding allocated_total_def allocations_def total_of_def by (rule cents.rnd_sum_list) auto

lemma total_grid:
  "\<forall>p \<in> set ps. on_cents (pm_amount p) \<Longrightarrow> on_cents (total_of k ps)"
  unfolding total_of_def by (rule cents.sum_list_grid) auto

section \<open>The net of reversals\<close>

lemma sum_filter_mono:
  assumes "\<And>p. p \<in> set ps \<Longrightarrow> P' p \<Longrightarrow> P p" and "\<And>p. p \<in> set ps \<Longrightarrow> P p \<Longrightarrow> (0 :: decimal) \<le> f p"
  shows "sum_list (map f (filter P' ps)) \<le> sum_list (map f (filter P ps))"
  using assms
proof (induction ps)
  case (Cons x ps)
  then have ih: "sum_list (map f (filter P' ps)) \<le> sum_list (map f (filter P ps))" by simp
  with Cons.prems(1) [of x] Cons.prems(2) [of x] show ?case by (auto intro: add_increasing)
qed simp

lemma sum_filter_drop:
  assumes "\<And>p. p \<in> set ps \<Longrightarrow> P' p \<Longrightarrow> P p" and "\<And>p. p \<in> set ps \<Longrightarrow> P p \<Longrightarrow> (0 :: decimal) \<le> f p"
    and "x \<in> set ps" "P x" "\<not> P' x"
  shows "sum_list (map f (filter P' ps)) + f x \<le> sum_list (map f (filter P ps))"
  using assms
proof (induction ps)
  case (Cons y ps)
  show ?case
  proof (cases "y = x")
    case True
    have "sum_list (map f (filter P' ps)) \<le> sum_list (map f (filter P ps))"
      using Cons.prems by (intro sum_filter_mono) auto
    with True Cons.prems show ?thesis by simp
  next
    case False
    with Cons.prems have "sum_list (map f (filter P' ps)) + f x \<le> sum_list (map f (filter P ps))"
      by (intro Cons.IH) auto
    with Cons.prems(1) [of y] Cons.prems(2) [of y] show ?thesis by (auto simp: algebra_simps intro: add_increasing)
  qed
qed simp

lemma unreversed_nonneg: "0 \<le> unreversed k ps"
  unfolding unreversed_def by (rule sum_list_nonneg) (auto simp: standing_def)

lemma net_nonneg: "net_ok ps \<Longrightarrow> 0 \<le> total_of k ps"
  unfolding net_ok_def by (rule order_trans [OF unreversed_nonneg]) blast

lemma reversed_mono: "reversed_in ps p \<Longrightarrow> reversed_in (ps @ [n]) p"
  by (auto simp: reversed_in_def split: option.splits)

lemma unreversed_snoc_le:
  "unreversed k (ps @ [n]) \<le> unreversed k ps +
     (if k (pm_invoice n) (pm_receipt n) \<and> 0 < pm_amount n then pm_amount n else 0)"
proof -
  have "sum_list (map pm_amount (filter (\<lambda>p. k (pm_invoice p) (pm_receipt p) \<and> standing (ps @ [n]) p) ps))
      \<le> unreversed k ps"
    unfolding unreversed_def
    by (rule sum_filter_mono) (auto simp: standing_def dest: reversed_mono)
  then show ?thesis by (auto simp: unreversed_def standing_def)
qed

lemma net_add_positive: "net_ok ps \<Longrightarrow> 0 < pm_amount n \<Longrightarrow> net_ok (ps @ [n])"
proof -
  assume ok: "net_ok ps" and pos: "0 < pm_amount n"
  have "unreversed k (ps @ [n]) \<le> total_of k (ps @ [n])" for k
    using unreversed_snoc_le [of k ps n] ok pos by (auto simp: net_ok_def dest: spec [of _ k])
  then show ?thesis by (simp add: net_ok_def)
qed

lemma net_add_reversal:
  assumes ok: "net_ok ps" and o: "p \<in> set ps" "standing ps p"
    and n: "pm_invoice n = pm_invoice p" "pm_receipt n = pm_receipt p" "pm_amount n = - pm_amount p"
    and rev: "reversed_in (ps @ [n]) p"
  shows "net_ok (ps @ [n])"
proof -
  have "unreversed k (ps @ [n]) \<le> total_of k (ps @ [n])" for k
  proof (cases "k (pm_invoice p) (pm_receipt p)")
    case True
    let ?P = "\<lambda>x. k (pm_invoice x) (pm_receipt x) \<and> standing ps x"
    let ?P' = "\<lambda>x. k (pm_invoice x) (pm_receipt x) \<and> standing (ps @ [n]) x"
    have "sum_list (map pm_amount (filter ?P' ps)) + pm_amount p \<le> sum_list (map pm_amount (filter ?P ps))"
      using o rev True by (intro sum_filter_drop) (auto simp: standing_def dest: reversed_mono)
    moreover have "\<not> standing (ps @ [n]) n"
      using n(3) o(2) by (simp add: standing_def)
    moreover have "unreversed k ps \<le> total_of k ps" using ok by (simp add: net_ok_def)
    ultimately show ?thesis
      using n True by (simp add: unreversed_def)
  next
    case False
    then show ?thesis
      using unreversed_snoc_le [of k ps n] ok n by (auto simp: net_ok_def dest: spec [of _ k])
  qed
  then show ?thesis by (simp add: net_ok_def)
qed

section \<open>Posting an entry\<close>

lemma paid_grid: "books_ok bk \<Longrightarrow> iv \<in> set (bk_invoices bk) \<Longrightarrow> on_cents (paid_of iv)"
  unfolding books_ok_def cache_ok_def by blast

lemma paid_total:
  "books_ok bk \<Longrightarrow> iv \<in> set (bk_invoices bk) \<Longrightarrow>
   total_of (\<lambda>i r. i = iv_id iv) (bk_payments bk) = paid_of iv"
  unfolding books_ok_def cache_ok_def by simp

text \<open>
  The one lemma every cash operation goes through: an invoice of the books gets its
  cache moved by the amount of the entry appended for it.
\<close>

lemma post_ok:
  assumes ok: "books_ok bk"
    and iv: "iv \<in> set (bk_invoices bk)" "iv_id iv' = iv_id iv"
    and e: "pm_invoice e = iv_id iv" "on_cents (pm_amount e)" "paid_of iv' = paid_of iv + pm_amount e"
    and fresh: "pm_id e \<notin> pm_id ` set (bk_payments bk)"
    and net: "net_ok (bk_payments bk @ [e])"
    and cap: "\<And>rc. rc \<in> set (bk_receipts bk) \<Longrightarrow> pm_receipt e = Some (rc_id rc) \<Longrightarrow>
        total_of (\<lambda>i r. r = Some (rc_id rc)) (bk_payments bk) + pm_amount e \<le> rc_amount rc"
  shows "books_ok (add_payment (Some e) (put_invoice iv' bk))"
proof -
  let ?bk = "add_payment (Some e) (put_invoice iv' bk)"
  have "cache_ok ?bk"
    unfolding cache_ok_def
  proof
    fix x
    assume "x \<in> set (bk_invoices ?bk)"
    then consider "x = iv'" | "x \<in> set (bk_invoices bk)" "iv_id x \<noteq> iv_id iv"
      using put_invoice_set [of x iv' bk] iv by auto
    then show "on_cents (paid_of x) \<and> paid_of x = total_of (\<lambda>i r. i = iv_id x) (bk_payments ?bk)"
    proof cases
      case 1
      with iv e paid_grid [OF ok iv(1)] paid_total [OF ok iv(1)] show ?thesis
        by (simp add: grid_add)
    next
      case 2
      with e paid_grid [OF ok 2(1)] paid_total [OF ok 2(1)] show ?thesis by simp
    qed
  qed
  moreover have "receipts_ok ?bk"
    using ok cap by (auto simp: books_ok_def receipts_ok_def)
  ultimately show ?thesis
    using ok e fresh net by (simp add: books_ok_def)
qed

lemma standing_direct:
  "pm_receipt p = None \<Longrightarrow> 0 < pm_amount p \<Longrightarrow> \<forall>n \<in> set ps. pm_reversal_of n \<noteq> Some (pm_id p) \<Longrightarrow> standing ps p"
  by (auto simp: standing_def reversed_in_def)

lemma standing_allocation:
  "pm_receipt p = Some r \<Longrightarrow> 0 < pm_amount p \<Longrightarrow>
   \<forall>n \<in> set ps. pm_note n \<noteq> Some (''reversal:'' @ pm_id p) \<Longrightarrow> standing ps p"
  by (auto simp: standing_def reversed_in_def)

lemma fresh_id_notin: "fresh_id pid bk \<Longrightarrow> pid \<notin> pm_id ` set (bk_payments bk)"
  by (auto simp: fresh_id_def)

section \<open>Every operation keeps the invariant\<close>

lemma direct_post:
  assumes ok: "books_ok bk" and iv: "iv \<in> set (bk_invoices bk)" and fresh: "fresh_id pid bk"
    and set: "set_cumulative pid iv t eff pd m r n today = (iv', Some e)"
    and up: "paid_of iv \<le> t"
  shows "books_ok (add_payment (Some (e\<lparr>pm_command_key := ck, pm_command_hash := ch\<rparr>)) (put_invoice iv' bk))"
proof -
  have g: "on_cents (paid_of iv)" by (rule paid_grid [OF ok iv])
  have f: "iv_id iv' = iv_id iv" "paid_of iv' = q2 t" "pm_id e = pid" "pm_invoice e = iv_id iv"
    "pm_amount e = q2 t - paid_of iv" "pm_receipt e = None"
    using set_cumulative_fields [OF set] g by (auto simp: cents.rnd_fix grid_diff)
  have "q2 t - paid_of iv \<noteq> 0"
    using set g by (auto simp: set_cumulative_def Let_def cents.rnd_fix grid_diff split: if_splits)
  moreover have "paid_of iv \<le> q2 t" using cents.rnd_mono [OF up] g by (simp add: cents.rnd_fix)
  ultimately have "0 < pm_amount e" using f by simp
  then show ?thesis
    using ok iv f fresh_id_notin [OF fresh] g
    by (intro post_ok [of bk iv] net_add_positive) (auto simp: books_ok_def grid_diff)
qed

lemma check_balance_Inr [result_iff]:
  "check_balance iv c x = Inr u \<longleftrightarrow> iv_currency iv = c \<and> outstanding_of iv = x"
  by (auto simp: check_balance_def)

lemma append_cash_ok:
  assumes ok: "books_ok bk" and iv: "iv \<in> set (bk_invoices bk)" and fresh: "fresh_id pid bk"
    and b: "0 < cp_amount b"
    and ap: "append_cash pid iv b key digest today bk = Inr (bk', p)"
  shows "books_ok bk'"
proof -
  obtain iv' e where set: "set_cumulative pid iv (paid_of iv + cp_amount b) (effective_total iv)
        (cp_paid_on b) (cp_method b) (cp_reference b) None today = (iv', Some e)"
    and bk': "bk' = add_payment (Some (e\<lparr>pm_command_key := Some key, pm_command_hash := Some digest\<rparr>))
        (put_invoice iv' bk)"
    using ap by (auto simp: append_cash_def Let_def split: sum.splits prod.splits option.splits if_splits)
  show ?thesis
    unfolding bk' using b by (intro direct_post [OF ok iv fresh set]) simp
qed

lemma reverse_cash_ok:
  assumes ok: "books_ok bk" and iv: "iv \<in> set (bk_invoices bk)" and fresh: "fresh_id pid bk"
    and rv: "reverse_cash pid iv pay b key digest today bk = Inr (bk', p)"
  shows "books_ok bk'"
proof -
  obtain o' iv' e where
    o': "find (\<lambda>p. pm_invoice p = iv_id iv \<and> pm_id p = pay) (bk_payments bk) = Some o'"
      "pm_receipt o' = None" "0 < pm_amount o'"
      "\<forall>p \<in> set (bk_payments bk). pm_reversal_of p \<noteq> Some (pm_id o')"
    and set: "set_cumulative pid iv (paid_of iv - pm_amount o') (effective_total iv)
        (iv_paid_date iv) (pm_method o') (pm_reference o') (Some (rv_reason b)) today = (iv', Some e)"
    and bk': "bk' = add_payment (Some (e\<lparr>pm_paid_on := (case rv_paid_on b of None \<Rightarrow> today | Some d \<Rightarrow> d),
        pm_reversal_of := Some (pm_id o'), pm_command_key := Some key, pm_command_hash := Some digest\<rparr>))
        (put_invoice iv' bk)"
    using rv by (auto simp: reverse_cash_def Let_def not_le
        split: sum.splits prod.splits option.splits if_splits)
  have os: "o' \<in> set (bk_payments bk)" "pm_invoice o' = iv_id iv" "pm_id o' = pay"
    using find_in_set [OF o'(1)] by auto
  have g: "on_cents (paid_of iv)" "on_cents (pm_amount o')"
    using ok os(1) paid_grid [OF ok iv] by (auto simp: books_ok_def)
  have f: "iv_id iv' = iv_id iv" "paid_of iv' = paid_of iv - pm_amount o'" "pm_id e = pid"
    "pm_invoice e = iv_id iv" "pm_amount e = - pm_amount o'" "pm_receipt e = None"
    using set_cumulative_fields [OF set] g by (auto simp: cents.rnd_fix grid_diff)
  show ?thesis
    unfolding bk'
    using ok iv f fresh_id_notin [OF fresh] g o' os
    by (intro post_ok [of bk iv] net_add_reversal [of _ o'] standing_direct)
       (auto simp: books_ok_def reversed_in_def)
qed

lemma cash_command_ok:
  assumes ok: "books_ok bk" and fresh: "fresh_id pid bk" and body: "body_ok body"
    and cmd: "cash_command pid i body key digest today bk = Inr (bk', p)"
  shows "books_ok bk'"
  using cmd ok body
  by (auto simp: cash_command_def split: option.splits sum.splits if_splits cash_body.splits
      dest!: get_invoice_Some elim: append_cash_ok [OF ok _ fresh] reverse_cash_ok [OF ok _ fresh])

lemma allocate_ok:
  assumes ok: "books_ok bk" and iv: "iv \<in> set (bk_invoices bk)" and rc: "rc \<in> set (bk_receipts bk)"
    and fresh: "fresh_id pid bk" and al: "allocate pid rc iv amount today bk = Inr (bk', p)"
  shows "books_ok bk'"
proof -
  obtain iv' e where a: "add_receipt_allocation pid iv (q2 amount) (effective_total iv) (rc_id rc)
        (rc_received_on rc) (rc_method rc) (rc_reference rc) today = (iv', e)"
    and bk': "bk' = add_payment (Some e) (put_invoice iv' bk)"
    and lim: "0 < q2 amount" "q2 amount \<le> unallocated rc bk"
    using al by (auto simp: allocate_def Let_def not_le not_less split: if_splits prod.splits)
  have g: "on_cents (paid_of iv)" by (rule paid_grid [OF ok iv])
  have amts: "\<forall>p \<in> set (bk_payments bk). on_cents (pm_amount p)" "on_cents (rc_amount rc)"
    using ok rc by (auto simp: books_ok_def receipts_ok_def)
  have f: "iv_id iv' = iv_id iv" "paid_of iv' = paid_of iv + q2 amount" "pm_id e = pid"
    "pm_invoice e = iv_id iv" "pm_amount e = q2 amount" "pm_receipt e = Some (rc_id rc)"
    using a g by (auto simp: add_receipt_allocation_def Let_def paid_of_def cents.rnd_fix grid_add)
  have free: "unallocated rc bk = rc_amount rc - total_of (\<lambda>i r. r = Some (rc_id rc)) (bk_payments bk)"
    using amts total_grid by (auto simp: unallocated_def allocated_total_eq cents.rnd_fix grid_diff)
  have same: "rc' = rc" if "rc' \<in> set (bk_receipts bk)" "rc_id rc' = rc_id rc" for rc'
    using that rc ok by (auto simp: books_ok_def distinct_map inj_on_def)
  show ?thesis
    unfolding bk' using ok iv f fresh_id_notin [OF fresh] lim free
    by (intro post_ok [of bk iv] net_add_positive) (auto simp: books_ok_def dest!: same)
qed

lemma deallocate_obtain:
  assumes de: "deallocate pid rc pay today bk = Inr (bk', p)"
  obtains e iv iv' where "e \<in> set (bk_payments bk)" "pm_id e = pay" "pm_receipt e = Some (rc_id rc)"
    "0 < pm_amount e" "\<forall>p \<in> set (bk_payments bk). pm_note p \<noteq> Some (''reversal:'' @ pay)"
    "get_invoice (pm_invoice e) bk = Some iv"
    "reverse_allocation pid iv e (effective_total iv) None today = (iv', p)"
    "bk' = add_payment (Some p) (put_invoice iv' bk)"
  using de that
  by (auto simp: deallocate_def Let_def not_le split: option.splits if_splits prod.splits dest!: find_in_set)

lemma reverse_allocation_fields:
  assumes "reverse_allocation pid iv e eff w today = (iv', p)"
    and "on_cents (paid_of iv)" "on_cents (pm_amount e)"
  shows "iv_id iv' = iv_id iv" "paid_of iv' = paid_of iv - pm_amount e" "pm_id p = pid"
    "pm_invoice p = iv_id iv" "pm_amount p = - pm_amount e" "pm_receipt p = pm_receipt e"
    "pm_note p = Some (''reversal:'' @ pm_id e)"
  using assms by (auto simp: reverse_allocation_def Let_def paid_of_def cents.rnd_fix grid_diff)

lemma deallocate_ok:
  assumes ok: "books_ok bk" and fresh: "fresh_id pid bk"
    and de: "deallocate pid rc pay today bk = Inr (bk', p)"
  shows "books_ok bk'"
proof -
  obtain e iv iv' where e: "e \<in> set (bk_payments bk)" "pm_id e = pay" "pm_receipt e = Some (rc_id rc)"
    "0 < pm_amount e" "\<forall>p \<in> set (bk_payments bk). pm_note p \<noteq> Some (''reversal:'' @ pay)"
    and iv: "get_invoice (pm_invoice e) bk = Some iv"
    and rev: "reverse_allocation pid iv e (effective_total iv) None today = (iv', p)"
    and bk': "bk' = add_payment (Some p) (put_invoice iv' bk)"
    using deallocate_obtain [OF de] by metis
  have ivs: "iv \<in> set (bk_invoices bk)" "iv_id iv = pm_invoice e" using get_invoice_Some [OF iv] by auto
  have g: "on_cents (paid_of iv)" "on_cents (pm_amount e)"
    using ok e(1) paid_grid [OF ok ivs(1)] by (auto simp: books_ok_def)
  note f = reverse_allocation_fields [OF rev g]
  have "receipts_ok bk" using ok by (simp add: books_ok_def)
  then show ?thesis
    unfolding bk' using ok ivs f fresh_id_notin [OF fresh] g e
    by (intro post_ok [of bk iv] net_add_reversal [of _ e] standing_allocation)
       (auto simp: books_ok_def reversed_in_def receipts_ok_def dest!: bspec)
qed

lemma record_payment_ok:
  assumes ok: "books_ok bk" and fresh: "fresh_id pid bk"
    and rec: "record_payment pid i amount pd digest today bk = Inr bk'"
  shows "books_ok bk'"
  using rec ok
  by (auto simp: record_payment_def Let_def split: option.splits sum.splits if_splits prod.splits
      dest!: get_invoice_Some intro!: direct_post [OF ok _ fresh])

lemma receive_ok:
  assumes ok: "books_ok bk" and fresh: "fresh_receipt rid bk" and pos: "0 \<le> amount"
    and cr: "create_receipt rid amount d m ref nt bk = (bk', rc)"
  shows "books_ok bk'"
proof -
  have bk': "bk' = bk\<lparr>bk_receipts := bk_receipts bk @ [rc]\<rparr>" "rc_id rc = rid" "rc_amount rc = q2 amount"
    using cr by (auto simp: create_receipt_def Let_def)
  have "total_of (\<lambda>i r. r = Some rid) (bk_payments bk) = 0"
    using fresh unfolding total_of_def fresh_receipt_def
    by (intro sum_list_all_zero) (auto simp: image_iff)
  then show ?thesis
    using ok bk' fresh cents.rnd_nonneg [OF pos]
    by (auto simp: books_ok_def cache_ok_def receipts_ok_def fresh_receipt_def)
qed

lemma new_invoice_ok:
  assumes ok: "books_ok bk" and new: "iv_id iv \<notin> iv_id ` set (bk_invoices bk)"
    "iv_id iv \<notin> pm_invoice ` set (bk_payments bk)" "paid_of iv = 0"
  shows "books_ok (bk\<lparr>bk_invoices := bk_invoices bk @ [iv]\<rparr>)"
proof -
  have "total_of (\<lambda>i r. i = iv_id iv) (bk_payments bk) = 0"
    using new(2) unfolding total_of_def by (intro sum_list_all_zero) (auto simp: image_iff)
  then show ?thesis
    using ok new by (auto simp: books_ok_def cache_ok_def receipts_ok_def)
qed

lemma amend_ok:
  assumes ok: "books_ok bk" and iv: "get_invoice (iv_id iv') bk = Some iv" "paid_of iv' = paid_of iv"
  shows "books_ok (put_invoice iv' bk)"
proof -
  have "cache_ok (put_invoice iv' bk)"
    unfolding cache_ok_def
  proof
    fix x
    assume "x \<in> set (bk_invoices (put_invoice iv' bk))"
    then consider "x = iv'" | "x \<in> set (bk_invoices bk)"
      using put_invoice_set [of x iv' bk] by blast
    then show "on_cents (paid_of x) \<and>
        paid_of x = total_of (\<lambda>i r. i = iv_id x) (bk_payments (put_invoice iv' bk))"
    proof cases
      case 1
      have "iv \<in> set (bk_invoices bk)" "iv_id iv = iv_id iv'" using get_invoice_Some [OF iv(1)] by auto
      with 1 iv(2) show ?thesis using paid_grid [OF ok] paid_total [OF ok, of iv] by simp
    next
      case 2
      then show ?thesis using paid_grid [OF ok] paid_total [OF ok] by simp
    qed
  qed
  then show ?thesis using ok by (simp add: books_ok_def receipts_ok_def)
qed

lemma cash_step_ok: "cash_step bk bk' \<Longrightarrow> books_ok bk \<Longrightarrow> books_ok bk'"
proof (induction rule: cash_step.induct)
  case (assign pid bk r rc i iv amount today bk' p)
  then show ?case by (auto intro: allocate_ok dest: get_invoice_Some get_receipt_Some)
qed (auto intro: cash_command_ok record_payment_ok receive_ok deallocate_ok new_invoice_ok amend_ok)

lemma reachable_books_ok: "cash_reachable bk \<Longrightarrow> books_ok bk"
proof (induction rule: cash_reachable.induct)
  case empty
  show ?case
    by (simp add: books_ok_def cache_ok_def receipts_ok_def net_ok_def total_of_def unreversed_def)
qed (rule cash_step_ok)

section \<open>Commands and allocations, replayed\<close>

lemma lookup_after:
  assumes none: "command_lookup key (Some digest) bk = Inr None"
    and p: "bk_payments bk' = bk_payments bk @ [p]" "pm_command_key p = Some key"
      "pm_command_hash p = Some digest"
  shows "command_lookup key (Some d) bk' = (if d = digest then Inr (Some p) else Inl CommandPayloadConflict)"
proof -
  have "find (\<lambda>p. pm_command_key p = Some key) (bk_payments bk) = None"
    using none by (auto simp: command_lookup_def split: option.splits if_splits)
  then have "find (\<lambda>p. pm_command_key p = Some key) (bk_payments bk @ [p]) = Some p"
    using p(2) by (simp add: find_app)
  then show ?thesis using p by (simp add: command_lookup_def)
qed


lemma get_after_put:
  "get_invoice i bk = Some iv \<Longrightarrow> iv_id iv' = iv_id iv \<Longrightarrow>
   get_invoice i (add_payment e (put_invoice iv' bk)) = Some iv'"
proof -
  have "find (\<lambda>x. iv_id x = i) xs = Some iv \<Longrightarrow> iv_id iv' = iv_id iv \<Longrightarrow>
      find (\<lambda>x. iv_id x = i) (map (\<lambda>x. if iv_id x = iv_id iv' then iv' else x) xs) = Some iv'" for xs
    by (induction xs) (auto split: if_splits)
  then show "get_invoice i bk = Some iv \<Longrightarrow> iv_id iv' = iv_id iv \<Longrightarrow>
      get_invoice i (add_payment e (put_invoice iv' bk)) = Some iv'"
    by (simp add: get_invoice_def put_invoice_def)
qed

lemma set_cumulative_id: "set_cumulative pid iv t eff pd m r n today = (iv', e) \<Longrightarrow> iv_id iv' = iv_id iv"
  by (drule set_cumulative_fields) simp

lemma append_cash_writes:
  "append_cash pid iv b key digest today bk = Inr (bk', p) \<Longrightarrow>
   \<exists>iv'. bk' = add_payment (Some p) (put_invoice iv' bk) \<and> iv_id iv' = iv_id iv \<and>
     pm_command_key p = Some key \<and> pm_command_hash p = Some digest"
  by (auto simp: append_cash_def Let_def dest!: set_cumulative_id
      split: sum.splits prod.splits option.splits if_splits)

lemma reverse_cash_writes:
  "reverse_cash pid iv pay b key digest today bk = Inr (bk', p) \<Longrightarrow>
   \<exists>iv'. bk' = add_payment (Some p) (put_invoice iv' bk) \<and> iv_id iv' = iv_id iv \<and>
     pm_command_key p = Some key \<and> pm_command_hash p = Some digest"
  by (auto simp: reverse_cash_def Let_def dest!: set_cumulative_id
      split: sum.splits prod.splits option.splits if_splits)

lemma cash_command_writes:
  assumes cmd: "cash_command pid i body key digest today bk = Inr (bk', p)"
    and none: "command_lookup key (Some digest) bk = Inr None"
  shows "bk_payments bk' = bk_payments bk @ [p] \<and> pm_command_key p = Some key \<and>
     pm_command_hash p = Some digest \<and> get_invoice i bk' \<noteq> None"
proof -
  obtain iv where iv: "get_invoice i bk = Some iv"
    using cmd by (auto simp: cash_command_def split: option.splits)
  have "\<exists>iv'. bk' = add_payment (Some p) (put_invoice iv' bk) \<and> iv_id iv' = iv_id iv \<and>
      pm_command_key p = Some key \<and> pm_command_hash p = Some digest"
    using cmd none iv
    by (auto simp: cash_command_def split: sum.splits if_splits cash_body.splits
        dest: append_cash_writes reverse_cash_writes)
  then obtain iv' where "bk' = add_payment (Some p) (put_invoice iv' bk)" "iv_id iv' = iv_id iv"
    "pm_command_key p = Some key" "pm_command_hash p = Some digest" by blast
  then show ?thesis using get_after_put [OF iv, of iv' "Some p"] by simp
qed

lemma cash_command_done:
  assumes cmd: "cash_command pid i body key digest today bk = Inr (bk', p)"
  shows "get_invoice i bk' \<noteq> None \<and>
    command_lookup key (Some d) bk' = (if d = digest then Inr (Some p) else Inl CommandPayloadConflict)"
proof -
  consider "command_lookup key (Some digest) bk = Inr None"
    | "command_lookup key (Some digest) bk = Inr (Some p)" "bk' = bk" "get_invoice i bk \<noteq> None"
    using cmd by (auto simp: cash_command_def split: option.splits sum.splits)
  then show ?thesis
  proof cases
    case 1
    note w = cash_command_writes [OF cmd 1]
    then have "command_lookup key (Some d) bk' =
        (if d = digest then Inr (Some p) else Inl CommandPayloadConflict)"
      by (intro lookup_after [OF 1]) auto
    with w show ?thesis by simp
  next
    case 2
    then show ?thesis by (auto simp: command_lookup_def split: option.splits if_splits)
  qed
qed

lemma deallocate_after_allocate:
  assumes ok: "books_ok bk" and iv: "get_invoice i bk = Some iv" and fresh: "fresh_id pid bk"
    and al: "allocate pid rc iv amount today bk = Inr (bk1, p)"
  obtains bk2 q iv2 where "deallocate pid2 rc pid today2 bk1 = Inr (bk2, q)"
    "bk_payments bk2 = bk_payments bk @ [p, q]" "pm_amount q = - pm_amount p"
    "pm_receipt p = Some (rc_id rc)" "pm_receipt q = Some (rc_id rc)"
    "get_invoice i bk2 = Some iv2" "paid_of iv2 = paid_of iv"
    "pm_note q = Some (''reversal:'' @ pid)" "pm_id p = pid" "0 < pm_amount p"
proof -
  have ivs: "iv \<in> set (bk_invoices bk)" "iv_id iv = i" using get_invoice_Some [OF iv] by auto
  have g: "on_cents (paid_of iv)" by (rule paid_grid [OF ok ivs(1)])
  obtain iv1 where a: "add_receipt_allocation pid iv (q2 amount) (effective_total iv) (rc_id rc)
        (rc_received_on rc) (rc_method rc) (rc_reference rc) today = (iv1, p)"
    and bk1: "bk1 = add_payment (Some p) (put_invoice iv1 bk)" and pos: "0 < q2 amount"
    using al by (auto simp: allocate_def Let_def not_le split: if_splits prod.splits)
  have f: "iv_id iv1 = i" "paid_of iv1 = paid_of iv + q2 amount" "pm_id p = pid"
    "pm_invoice p = i" "pm_amount p = q2 amount" "pm_receipt p = Some (rc_id rc)" "pm_note p = None"
    using a g ivs by (auto simp: add_receipt_allocation_def Let_def paid_of_def cents.rnd_fix grid_add)
  have get1: "get_invoice i bk1 = Some iv1" unfolding bk1 by (rule get_after_put [OF iv]) (simp add: f ivs)
  have "find (\<lambda>x. pm_id x = pid \<and> pm_receipt x = Some (rc_id rc)) (bk_payments bk) = None"
    using fresh by (auto simp: find_None_iff fresh_id_def)
  then have find: "find (\<lambda>x. pm_id x = pid \<and> pm_receipt x = Some (rc_id rc)) (bk_payments bk1) = Some p"
    by (simp add: bk1 find_app f)
  obtain iv2 q where r: "reverse_allocation pid2 iv1 p (effective_total iv1) None today2 = (iv2, q)"
    by fastforce
  have g1: "on_cents (paid_of iv1)" "on_cents (pm_amount p)" using f g by (auto intro: grid_add)
  note fq = reverse_allocation_fields [OF r g1]
  have no: "\<not> (\<exists>x \<in> set (bk_payments bk1). pm_note x = Some (''reversal:'' @ pid))"
    using fresh by (auto simp: bk1 f fresh_id_def)
  show ?thesis
  proof (rule that)
    show "deallocate pid2 rc pid today2 bk1 = Inr (add_payment (Some q) (put_invoice iv2 bk1), q)"
      using find no get1 r pos by (simp add: deallocate_def f)
    show "get_invoice i (add_payment (Some q) (put_invoice iv2 bk1)) = Some iv2"
      by (rule get_after_put [OF get1]) (rule fq(1))
  qed (use fq f pos bk1 in simp_all)
qed

section \<open>Properties\<close>

text \<open>
  C1: the cash invariant. In every state the cash operations can reach from empty books
  (direct payments and their reversals, the legacy cumulative endpoint, receipts and
  their allocation and release, new invoices and any change of an invoice that leaves
  its cash alone, in any order): the cached amount paid of every invoice is the sum of
  its ledger entries and is not negative; and what is allocated of a receipt lies between
  zero and the amount received.
\<close>

theorem cash_book_invariant:
  assumes "cash_reachable bk"
  shows "(\<forall>iv \<in> set (bk_invoices bk).
      paid_of iv = sum_list (map pm_amount (filter (\<lambda>p. pm_invoice p = iv_id iv) (bk_payments bk))) \<and>
      0 \<le> paid_of iv) \<and>
    (\<forall>rc \<in> set (bk_receipts bk).
      0 \<le> allocated_total (rc_id rc) bk \<and> allocated_total (rc_id rc) bk \<le> rc_amount rc \<and>
      unallocated rc bk = rc_amount rc - allocated_total (rc_id rc) bk)"
proof -
  have ok: "books_ok bk" using assms by (rule reachable_books_ok)
  have net: "0 \<le> total_of k (bk_payments bk)" for k
    using ok by (intro net_nonneg) (simp add: books_ok_def)
  have gr: "\<forall>p \<in> set (bk_payments bk). on_cents (pm_amount p)" using ok by (simp add: books_ok_def)
  have "0 \<le> paid_of iv \<and> paid_of iv =
      sum_list (map pm_amount (filter (\<lambda>p. pm_invoice p = iv_id iv) (bk_payments bk)))"
    if "iv \<in> set (bk_invoices bk)" for iv
    using paid_total [OF ok that] net [of "\<lambda>i r. i = iv_id iv"] by (simp add: total_of_def)
  moreover have "0 \<le> allocated_total (rc_id rc) bk \<and> allocated_total (rc_id rc) bk \<le> rc_amount rc \<and>
      unallocated rc bk = rc_amount rc - allocated_total (rc_id rc) bk"
    if "rc \<in> set (bk_receipts bk)" for rc
    using that ok net total_grid [OF gr]
    by (auto simp: books_ok_def receipts_ok_def unallocated_def allocated_total_eq [OF gr]
        cents.rnd_fix grid_diff)
  ultimately show ?thesis by blast
qed

text \<open>
  C9: a cash command takes effect once. When a command succeeds, repeating it with the
  same key and inputs returns the same entry and leaves the books as they are, and the
  same key with other inputs is refused.
\<close>

theorem cash_command_once:
  assumes "cash_command pid i body key digest today bk = Inr (bk', p)"
  shows "cash_command pid' i body' key digest today' bk' = Inr (bk', p) \<and>
    (d \<noteq> digest \<longrightarrow> cash_command pid' i body' key d today' bk' = Inl CommandPayloadConflict)"
  using cash_command_done [OF assms, of digest] cash_command_done [OF assms, of d]
  by (auto simp: cash_command_def)

text \<open>
  An allocation can be undone exactly. Releasing what was just allocated succeeds,
  gives the invoice its former amount paid and the receipt its former free balance, keeps
  both ledger rows, and cannot be done twice.
\<close>

theorem deallocate_undoes_allocate:
  assumes reach: "cash_reachable bk" and iv: "get_invoice i bk = Some iv" and fresh: "fresh_id pid bk"
    and al: "allocate pid rc iv amount today bk = Inr (bk1, p)"
  shows "\<exists>bk2 q iv2. deallocate pid2 rc pid today2 bk1 = Inr (bk2, q) \<and>
    bk_payments bk2 = bk_payments bk @ [p, q] \<and> pm_amount q = - pm_amount p \<and>
    get_invoice i bk2 = Some iv2 \<and> paid_of iv2 = paid_of iv \<and>
    unallocated rc bk2 = unallocated rc bk \<and>
    deallocate pid3 rc pid today3 bk2 = Inl AllocationAlreadyReversed"
proof -
  have ok: "books_ok bk" using reach by (rule reachable_books_ok)
  obtain bk2 q iv2 where d: "deallocate pid2 rc pid today2 bk1 = Inr (bk2, q)"
    "bk_payments bk2 = bk_payments bk @ [p, q]" "pm_amount q = - pm_amount p"
    "pm_receipt p = Some (rc_id rc)" "pm_receipt q = Some (rc_id rc)"
    "get_invoice i bk2 = Some iv2" "paid_of iv2 = paid_of iv"
    "pm_note q = Some (''reversal:'' @ pid)" "pm_id p = pid" "0 < pm_amount p"
    using deallocate_after_allocate [OF ok iv fresh al] by metis
  have "unallocated rc bk2 = unallocated rc bk"
    by (simp add: unallocated_def allocated_total_def allocations_def d)
  moreover have "find (\<lambda>x. pm_id x = pid \<and> pm_receipt x = Some (rc_id rc)) (bk_payments bk2) = Some p"
  proof -
    have "find (\<lambda>x. pm_id x = pid \<and> pm_receipt x = Some (rc_id rc)) (bk_payments bk) = None"
      using fresh by (auto simp: find_None_iff fresh_id_def)
    then show ?thesis using d(2,4,9) by (simp add: find_app)
  qed
  then have "deallocate pid3 rc pid today3 bk2 = Inl AllocationAlreadyReversed"
    using d(2,8,10) by (simp add: deallocate_def)
  ultimately show ?thesis using d by blast
qed

text \<open>
  C15: what voiding leaves open. A voided invoice reads VOID and refuses direct cash,
  but it keeps its outstanding balance, and allocating a receipt to it still succeeds.
\<close>

theorem voided_invoice_accepts_allocation:
  assumes v: "void_invoice now iv = Inr iv'"
    and amt: "0 < q2 amount" "q2 amount \<le> unallocated rc bk" "q2 amount \<le> outstanding_of iv"
  shows "status_of iv' today = AR_VOID \<and> require_cash_receivable iv' = Inl PaymentNotReceivable \<and>
    outstanding_of iv' = outstanding_of iv \<and>
    (\<exists>bk' p. allocate pid rc iv' amount today bk = Inr (bk', p) \<and> pm_amount p = q2 amount)"
proof -
  have iv': "iv' = iv\<lparr>iv_voided_at := Some now\<rparr>" "lifecycle_of iv = LIssued" "\<not> is_credit_note iv"
    using v by (auto simp: void_invoice_def split: if_splits)
  have same: "outstanding_of iv' = outstanding_of iv" "is_credit_note iv' = is_credit_note iv"
    "lifecycle_of iv' = lifecycle_of iv"
    by (simp_all add: iv'(1) outstanding_of_def is_credit_note_def lifecycle_of_def effective_total_def
        credited_of_def paid_of_def)
  have "status_of iv' today = AR_VOID" "require_cash_receivable iv' = Inl PaymentNotReceivable"
    using iv' same by (auto simp: status_defs require_cash_receivable_def)
  moreover have "\<exists>bk' p. allocate pid rc iv' amount today bk = Inr (bk', p) \<and> pm_amount p = q2 amount"
    using amt iv'(3) same by (auto simp: allocate_def Let_def add_receipt_allocation_def split_beta)
  ultimately show ?thesis using same by blast
qed

section \<open>Witnesses\<close>

definition sample_books :: books where
  "sample_books = \<lparr>bk_invoices = [sample_invoice], bk_payments = [],
     bk_receipts = [\<lparr>rc_id = ''r-1'', rc_amount = 150, rc_received_on = 12,
       rc_method = ''bank_transfer'', rc_reference = None, rc_note = None\<rparr>]\<rparr>"

abbreviation sample_receipt :: receipt where
  "sample_receipt \<equiv> \<lparr>rc_id = ''r-1'', rc_amount = 150, rc_received_on = 12,
       rc_method = ''bank_transfer'', rc_reference = None, rc_note = None\<rparr>"

lemma sample_reachable: "cash_reachable sample_books"
proof -
  let ?b0 = "\<lparr>bk_invoices = [], bk_payments = [], bk_receipts = []\<rparr>"
  have "cash_reachable (?b0\<lparr>bk_invoices := bk_invoices ?b0 @ [sample_invoice]\<rparr>)"
    by (rule cash_reachable.step [OF cash_reachable.empty cash_step.new_invoice])
       (simp_all add: sample_defs)
  then have "cash_reachable \<lparr>bk_invoices = [sample_invoice], bk_payments = [], bk_receipts = []\<rparr>" by simp
  then show ?thesis
    by (rule cash_reachable.step, intro cash_step.receive [where rid = "''r-1''" and amount = 150
          and on = 12 and mth = "''bank_transfer''" and ref = None and nt = None and rc = sample_receipt])
       (simp_all add: fresh_receipt_def create_receipt_def sample_books_def cents.rnd_fix Let_def)
qed

lemma sample_lookups [simp]:
  "get_invoice ''inv-1'' sample_books = Some sample_invoice" "fresh_id pid sample_books"
  "unallocated sample_receipt sample_books = 150" "command_lookup key d sample_books = Inr None"
  by (simp_all add: get_invoice_def sample_books_def fresh_id_def unallocated_def
      allocated_total_def allocations_def command_lookup_def cents.rnd_fix)

theorem cash_book_invariant_witness:
  "0 \<le> allocated_total ''r-1'' sample_books \<and> allocated_total ''r-1'' sample_books \<le> 150"
  using cash_book_invariant [OF sample_reachable] by (simp add: sample_books_def)

theorem cash_command_once_witness:
  "\<exists>bk' p. cash_command ''pay-1'' ''inv-1''
      (Append \<lparr>cp_amount = 30, cp_expected_outstanding = 100, cp_currency = ''EUR'', cp_paid_on = None,
        cp_method = ''cash'', cp_reference = None\<rparr>) ''command-1'' ''digest'' 12 sample_books = Inr (bk', p) \<and>
    cash_command ''pay-2'' ''inv-1'' (Append \<lparr>cp_amount = 30, cp_expected_outstanding = 100,
        cp_currency = ''EUR'', cp_paid_on = None, cp_method = ''cash'', cp_reference = None\<rparr>)
        ''command-1'' ''digest'' 13 bk' = Inr (bk', p)" (is "\<exists>bk' p. cash_command _ _ ?b _ _ _ _ = _ \<and> _")
proof -
  have "cash_command ''pay-1'' ''inv-1'' ?b ''command-1'' ''digest'' 12 sample_books \<noteq> Inl e" for e
    by (simp add: cash_command_def require_cash_receivable_def append_cash_def
        check_balance_def set_cumulative_def Let_def cents.rnd_fix)
  then obtain bk' p where c: "cash_command ''pay-1'' ''inv-1'' ?b ''command-1'' ''digest'' 12 sample_books
      = Inr (bk', p)"
    by (metis obj_sumE surj_pair)
  then show ?thesis using cash_command_once [OF c] by blast
qed

theorem deallocate_undoes_allocate_witness:
  "\<exists>bk1 p bk2 q. allocate ''pay-1'' sample_receipt sample_invoice 60 12 sample_books = Inr (bk1, p) \<and>
     deallocate ''pay-2'' sample_receipt ''pay-1'' 13 bk1 = Inr (bk2, q) \<and>
     unallocated sample_receipt bk2 = 150"
proof -
  have "allocate ''pay-1'' sample_receipt sample_invoice 60 12 sample_books \<noteq> Inl e" for e
    by (simp add: allocate_def Let_def split_beta cents.rnd_fix)
  then obtain bk1 p where a: "allocate ''pay-1'' sample_receipt sample_invoice 60 12 sample_books = Inr (bk1, p)"
    by (metis obj_sumE surj_pair)
  then show ?thesis
    using deallocate_undoes_allocate [OF sample_reachable _ _ a, of "''inv-1''" "''pay-2''" 13 "[]" 0] a
    by auto
qed

theorem voided_invoice_accepts_allocation_witness:
  "\<exists>iv' bk' p. void_invoice 0 sample_invoice = Inr iv' \<and> status_of iv' 12 = AR_VOID \<and>
     allocate ''pay-1'' sample_receipt iv' 60 12 sample_books = Inr (bk', p) \<and> pm_amount p = 60"
proof -
  have v: "void_invoice 0 sample_invoice = Inr (sample_invoice\<lparr>iv_voided_at := Some 0\<rparr>)"
    by (simp add: void_invoice_def sample_defs)
  show ?thesis
    using voided_invoice_accepts_allocation [OF v, of 60 sample_receipt sample_books 12 "''pay-1''"] v
    by (auto simp: cents.rnd_fix)
qed

end
