(* ===== verification/ApWorkflow.thy ===== *)
theory ApWorkflow
  imports Prelude
begin

text \<open>
  The two payables lifecycles: the supplier-invoice state machine of
  \<open>services/invoice_workflow.py\<close> (with its optimistic-concurrency gate) and the
  expense-report table of \<open>services/expense_state.py\<close>. Both provide the interface
  \<open>lifecycle\<close> of the prelude.
\<close>

section \<open>Supplier invoices\<close>

datatype workflow_state =
    WDraft | WSubmitted | WPartiallyApproved | WApproved | WRejected | WScheduled
  | WPartiallyPaid | WPaid | WDisputed | WCancelled | WArchived

datatype workflow_error = IllegalMove workflow_state workflow_state | StaleVersion int int

definition WORKFLOW_STATES :: "workflow_state list" where
  "WORKFLOW_STATES = [WDraft, WSubmitted, WPartiallyApproved, WApproved, WRejected, WScheduled,
     WPartiallyPaid, WPaid, WDisputed, WCancelled, WArchived]"

fun TRANSITIONS :: "workflow_state \<Rightarrow> workflow_state list" where
  "TRANSITIONS WDraft = [WSubmitted]"
| "TRANSITIONS WSubmitted = [WPartiallyApproved, WApproved, WRejected, WDraft]"
| "TRANSITIONS WPartiallyApproved = [WApproved, WRejected, WDraft]"
| "TRANSITIONS WApproved = [WScheduled, WDisputed, WDraft]"
| "TRANSITIONS WRejected = [WDraft, WArchived]"
| "TRANSITIONS WScheduled = [WPartiallyPaid, WPaid, WDisputed]"
| "TRANSITIONS WPartiallyPaid = [WPaid, WDisputed]"
| "TRANSITIONS WPaid = [WDisputed, WArchived]"
| "TRANSITIONS WDisputed = [WDraft, WApproved, WScheduled]"
| "TRANSITIONS WCancelled = [WArchived]"
| "TRANSITIONS WArchived = []"

definition CANCELLABLE :: "workflow_state list" where
  "CANCELLABLE = filter (\<lambda>s. s \<notin> {WCancelled, WArchived, WPaid, WRejected}) WORKFLOW_STATES"

definition EDITABLE :: "workflow_state list" where
  "EDITABLE = [WDraft]"

definition LOCKED :: "workflow_state list" where
  "LOCKED = [WApproved, WScheduled, WPartiallyPaid, WPaid, WArchived]"

definition TERMINAL :: "workflow_state list" where
  "TERMINAL = [WArchived]"

definition allowed_targets :: "workflow_state \<Rightarrow> workflow_state list" where
  "allowed_targets frm =
     TRANSITIONS frm @ (if frm \<in> set CANCELLABLE then [WCancelled] else [])"

definition can_transition :: "workflow_state \<Rightarrow> workflow_state \<Rightarrow> bool" where
  "can_transition frm to \<longleftrightarrow> to \<in> set (allowed_targets frm)"

definition assert_transition :: "workflow_state \<Rightarrow> workflow_state \<Rightarrow> workflow_error + unit" where
  "assert_transition frm to =
     (if \<not> can_transition frm to then Inl (IllegalMove frm to) else Inr ())"

definition assert_version :: "int \<Rightarrow> int option \<Rightarrow> workflow_error + unit" where
  "assert_version current expected =
     (case expected of
        None \<Rightarrow> Inr ()
      | Some e \<Rightarrow> if e \<noteq> current then Inl (StaleVersion e current) else Inr ())"

definition is_editable :: "workflow_state \<Rightarrow> bool" where
  "is_editable s \<longleftrightarrow> s \<in> set EDITABLE"

definition is_locked :: "workflow_state \<Rightarrow> bool" where
  "is_locked s \<longleftrightarrow> s \<in> set LOCKED"

text \<open>
  A caller moves an invoice by asserting the transition and then writing the target.
\<close>

definition move_to :: "workflow_state \<Rightarrow> workflow_state \<Rightarrow> workflow_error + workflow_state" where
  "move_to target current =
     (case assert_transition current target of Inl e \<Rightarrow> Inl e | Inr _ \<Rightarrow> Inr target)"

lemmas workflow_defs = can_transition_def allowed_targets_def CANCELLABLE_def WORKFLOW_STATES_def

lemma assert_transition_Inr [result_iff]: "assert_transition s t = Inr u \<longleftrightarrow> can_transition s t"
  by (simp add: assert_transition_def)

lemma assert_version_Inr [result_iff]: "assert_version v (Some w) = Inr u \<longleftrightarrow> w = v"
  by (simp add: assert_version_def)

lemma move_to_Inr [result_iff]: "move_to t s = Inr u \<longleftrightarrow> u = t \<and> can_transition s t"
  by (auto simp: move_to_def assert_transition_def)

interpretation workflow: lifecycle move_to "\<lambda>s. s \<in> set TERMINAL"
  by unfold_locales (auto simp: result_iff workflow_defs TERMINAL_def)

text \<open>
  An invoice that has never been moved to the guarded state stays within the states
  reachable without it.
\<close>

lemma avoiding_run:
  assumes closed: "\<And>s t. s \<in> A \<Longrightarrow> can_transition s t \<Longrightarrow> t \<noteq> g \<Longrightarrow> t \<in> A"
  shows "g \<notin> set ts \<Longrightarrow> s \<in> A \<Longrightarrow> run_actions move_to ts s = Inr u \<Longrightarrow> u \<in> A"
  by (induction ts arbitrary: s) (auto simp: result_iff split: sum.splits dest: closed)

definition before_submission :: "workflow_state set" where
  "before_submission = {WDraft, WCancelled, WArchived}"

definition before_approval :: "workflow_state set" where
  "before_approval =
     {WDraft, WSubmitted, WPartiallyApproved, WRejected, WCancelled, WArchived}"

definition before_scheduling :: "workflow_state set" where
  "before_scheduling = before_approval \<union> {WApproved, WDisputed}"

lemma before_submission_closed:
  "s \<in> before_submission \<Longrightarrow> can_transition s t \<Longrightarrow> t \<noteq> WSubmitted \<Longrightarrow> t \<in> before_submission"
  by (cases s) (auto simp: before_submission_def workflow_defs)

lemma before_approval_closed:
  "s \<in> before_approval \<Longrightarrow> can_transition s t \<Longrightarrow> t \<noteq> WApproved \<Longrightarrow> t \<in> before_approval"
  by (cases s) (auto simp: before_approval_def workflow_defs)

lemma before_scheduling_closed:
  "s \<in> before_scheduling \<Longrightarrow> can_transition s t \<Longrightarrow> t \<noteq> WScheduled \<Longrightarrow> t \<in> before_scheduling"
  by (cases s) (auto simp: before_scheduling_def before_approval_def workflow_defs)

lemma avoids_states:
  assumes "run_actions move_to ts WDraft = Inr u"
  shows "WSubmitted \<notin> set ts \<Longrightarrow> u \<in> before_submission"
    "WApproved \<notin> set ts \<Longrightarrow> u \<in> before_approval"
    "WScheduled \<notin> set ts \<Longrightarrow> u \<in> before_scheduling"
  using avoiding_run [OF before_submission_closed _ _ assms]
    avoiding_run [OF before_approval_closed _ _ assms]
    avoiding_run [OF before_scheduling_closed _ _ assms]
  by (simp_all add: before_submission_def before_approval_def before_scheduling_def)

lemmas before_defs = before_submission_def before_approval_def before_scheduling_def

section \<open>Expense reports\<close>

datatype expense_status =
    E_draft | E_submitted | E_partially_approved | E_approved | E_rejected | E_returned
  | E_marked | E_reimbursed

datatype expense_error = UnknownExpenseAction string | CannotFrom string expense_status

definition EXPENSE_EDITABLE :: "expense_status list" where
  "EXPENSE_EDITABLE = [E_draft, E_returned]"

definition EXPENSE_TERMINAL :: "expense_status list" where
  "EXPENSE_TERMINAL = [E_rejected, E_reimbursed]"

definition IN_APPROVAL :: "expense_status list" where
  "IN_APPROVAL = [E_submitted, E_partially_approved]"

definition EXPENSE_TABLE :: "(string \<times> expense_status list \<times> expense_status) list" where
  "EXPENSE_TABLE =
    [(''submit'', ([E_draft, E_returned], E_submitted)),
     (''withdraw'', ([E_submitted], E_draft)),
     (''approve'', ([E_submitted], E_approved)),
     (''reject'', ([E_submitted], E_rejected)),
     (''return_for_correction'', ([E_submitted], E_returned)),
     (''mark_for_reimbursement'', ([E_approved], E_marked)),
     (''mark_reimbursed'', ([E_approved, E_marked], E_reimbursed))]"

definition EXPENSE_TRANSITIONS :: "string \<Rightarrow> (expense_status list \<times> expense_status) option" where
  "EXPENSE_TRANSITIONS = map_of EXPENSE_TABLE"

definition canonical :: "string \<Rightarrow> string" where
  "canonical action = (if action = ''reimburse'' then ''mark_reimbursed'' else action)"

definition target_for :: "string \<Rightarrow> expense_status \<Rightarrow> expense_error + expense_status" where
  "target_for action current =
     (case EXPENSE_TRANSITIONS (canonical action) of
        None \<Rightarrow> Inl (UnknownExpenseAction action)
      | Some (sources, target) \<Rightarrow>
          if current \<notin> set sources then Inl (CannotFrom (canonical action) current)
          else Inr target)"

definition can :: "string \<Rightarrow> expense_status \<Rightarrow> bool" where
  "can action current =
     (case EXPENSE_TRANSITIONS (canonical action) of
        None \<Rightarrow> False
      | Some (sources, _) \<Rightarrow> current \<in> set sources)"

definition expense_is_editable :: "expense_status \<Rightarrow> bool" where
  "expense_is_editable s \<longleftrightarrow> s \<in> set EXPENSE_EDITABLE"

lemma can_iff: "can a s \<longleftrightarrow> (\<exists>t. target_for a s = Inr t)"
  by (auto simp: can_def target_for_def split: option.splits)

text \<open>The moves of the table, one by one.\<close>

lemma target_for_row:
  assumes "target_for a s = Inr t"
  obtains srcs where "(canonical a, srcs, t) \<in> set EXPENSE_TABLE" "s \<in> set srcs"
proof (cases "map_of EXPENSE_TABLE (canonical a)")
  case None
  with assms show ?thesis by (simp add: target_for_def EXPENSE_TRANSITIONS_def)
next
  case (Some row)
  obtain srcs u where row: "row = (srcs, u)" by (cases row)
  with Some assms have "s \<in> set srcs \<and> u = t"
    by (simp add: target_for_def EXPENSE_TRANSITIONS_def split: if_splits)
  with Some row show ?thesis by (blast intro: that dest: map_of_SomeD)
qed

lemma target_for_moves:
  assumes "target_for a s = Inr t"
  shows "(s, t) \<in> {(E_draft, E_submitted), (E_returned, E_submitted), (E_submitted, E_draft),
     (E_submitted, E_approved), (E_submitted, E_rejected), (E_submitted, E_returned),
     (E_approved, E_marked), (E_approved, E_reimbursed), (E_marked, E_reimbursed)}"
proof -
  obtain c srcs where "(c, srcs, t) \<in> set EXPENSE_TABLE" "s \<in> set srcs"
    using target_for_row [OF assms] by blast
  then show ?thesis by (elim rev_mp) (auto simp: EXPENSE_TABLE_def)
qed

interpretation expense: lifecycle target_for "\<lambda>s. s \<in> set EXPENSE_TERMINAL"
proof unfold_locales
  fix s t a
  assume "s \<in> set EXPENSE_TERMINAL" and "target_for a s = Inr t"
  then show False
    using target_for_moves [of a s t] by (auto simp: EXPENSE_TERMINAL_def)
qed

definition unapproved :: "expense_status set" where
  "unapproved = {E_draft, E_submitted, E_rejected, E_returned}"

lemma canonical_approve: "canonical a = ''approve'' \<longleftrightarrow> a = ''approve''"
  by (simp add: canonical_def)

lemma unapproved_step:
  assumes "target_for a u = Inr v" "u \<in> unapproved" "a \<noteq> ''approve''"
  shows "v \<in> unapproved"
proof -
  obtain c srcs where row: "(c, srcs, v) \<in> set EXPENSE_TABLE" "u \<in> set srcs" "c \<noteq> ''approve''"
    using target_for_row [OF assms(1)] canonical_approve assms(3) by metis
  with assms(2) show ?thesis
    by (elim rev_mp) (auto simp: EXPENSE_TABLE_def unapproved_def)
qed

lemma unapproved_run:
  "''approve'' \<notin> set as \<Longrightarrow> u \<in> unapproved \<Longrightarrow> run_actions target_for as u = Inr t \<Longrightarrow>
   t \<in> unapproved"
proof (induction as arbitrary: u)
  case (Cons a as)
  then obtain w where w: "target_for a u = Inr w" "run_actions target_for as w = Inr t"
    by (auto split: sum.splits)
  have "a \<noteq> ''approve''" using Cons.prems(1) by auto
  with w Cons show ?case using unapproved_step [of a u w] by simp
qed simp

section \<open>Properties\<close>



text \<open>
  Expense money leaves only after approval. From a draft or a returned report, a
  sequence of accepted actions that reaches reimbursement contains an approve action;
  rejected and reimbursed are final; and \<open>can\<close> answers exactly whether \<open>target_for\<close>
  succeeds.
\<close>

theorem reimbursed_only_after_approval:
  assumes run: "run_actions target_for as s = Inr t" and start: "s \<in> set EXPENSE_EDITABLE"
  shows "(t \<in> {E_marked, E_reimbursed} \<longrightarrow> ''approve'' \<in> set as) \<and>
    (t \<in> set EXPENSE_TERMINAL \<longrightarrow> (\<forall>a. \<not> can a t)) \<and> t \<noteq> E_partially_approved"
proof -
  have start': "s \<in> unapproved"
    using start by (auto simp: unapproved_def EXPENSE_EDITABLE_def)
  have "t \<in> {E_marked, E_reimbursed} \<longrightarrow> ''approve'' \<in> set as"
    using unapproved_run [OF _ start' run] by (auto simp: unapproved_def)
  moreover have "\<not> can a t" if "t \<in> set EXPENSE_TERMINAL" for a
    using expense.terminal_stuck [OF that] by (auto simp: can_iff)
  moreover have "t \<noteq> E_partially_approved"
    using expense.untargeted_initial [of E_partially_approved as s] target_for_moves run start
    by (auto simp: EXPENSE_EDITABLE_def)
  ultimately show ?thesis by blast
qed

theorem reimbursed_only_after_approval_witness:
  "run_actions target_for [''submit'', ''approve'', ''reimburse''] E_draft = Inr E_reimbursed \<and>
   \<not> can ''withdraw'' E_reimbursed"
proof -
  have run: "run_actions target_for [''submit'', ''approve'', ''reimburse''] E_draft = Inr E_reimbursed"
    by (simp add: target_for_def EXPENSE_TRANSITIONS_def EXPENSE_TABLE_def canonical_def)
  show ?thesis
    using reimbursed_only_after_approval [OF run] run by (simp add: EXPENSE_EDITABLE_def EXPENSE_TERMINAL_def)
qed

end
