(* ===== verification/Fx.thy ===== *)
theory Fx
  imports Money "HOL-Library.Multiset"
begin

text \<open>
  \<open>services/fx.py\<close> and the provenance check of \<open>models/fx.py\<close>: the currency registry,
  the cached ECB reference rates with their upsert and boot-time seeding, the two rate
  resolvers (one query per pair, and over a preloaded series), the conversion to EUR
  with its provenance, and the comparison of stated with reference rates. The network
  fetch and the XML feed are left out. Python raises on a zero divisor; the conversions
  return that as \<open>Inl\<close>.
\<close>

section \<open>The currency registry\<close>

record currency_row =
  cr_code :: string
  cr_ecb :: bool
  cr_decimal_places :: nat

definition ccy :: "string \<Rightarrow> bool \<Rightarrow> currency_row" where
  "ccy code ecb = \<lparr>cr_code = code, cr_ecb = ecb, cr_decimal_places = 2\<rparr>"

definition EUROPEAN_CURRENCIES :: "currency_row list" where
  "EUROPEAN_CURRENCIES =
    [ccy ''EUR'' True,
     ccy ''BGN'' True, ccy ''CZK'' True, ccy ''DKK'' True, ccy ''GBP'' True, ccy ''HUF'' True,
     ccy ''PLN'' True, ccy ''RON'' True, ccy ''SEK'' True, ccy ''CHF'' True, ccy ''ISK'' True,
     ccy ''NOK'' True, ccy ''TRY'' True,
     ccy ''RSD'' False, ccy ''BAM'' False, ccy ''MKD'' False, ccy ''ALL'' False, ccy ''MDL'' False,
     ccy ''UAH'' False, ccy ''GEL'' False, ccy ''AMD'' False, ccy ''AZN'' False, ccy ''BYN'' False,
     ccy ''RUB'' False, ccy ''GIP'' False]"

definition NON_ECB_EUROPEAN :: "string list" where
  "NON_ECB_EUROPEAN = map cr_code (filter (\<lambda>c. \<not> cr_ecb c) EUROPEAN_CURRENCIES)"

definition GLOBAL_MAJORS :: "currency_row list" where
  "GLOBAL_MAJORS =
    [ccy ''USD'' True, (ccy ''JPY'' True)\<lparr>cr_decimal_places := 0\<rparr>, ccy ''CAD'' True, ccy ''AUD'' True]"

definition ALL_CURRENCIES :: "currency_row list" where
  "ALL_CURRENCIES = EUROPEAN_CURRENCIES @ GLOBAL_MAJORS"

definition CURRENCY_BY_CODE :: "string \<Rightarrow> currency_row option" where
  "CURRENCY_BY_CODE = map_of (map (\<lambda>c. (cr_code c, c)) ALL_CURRENCIES)"

definition indicative_for :: "string \<Rightarrow> bool option" where
  "indicative_for code = map_option (\<lambda>c. \<not> cr_ecb c) (CURRENCY_BY_CODE (py_upper code))"

text \<open>The bundled snapshot, in units per 1 EUR.\<close>

definition FALLBACK_RATES :: "(string \<times> decimal) list" where
  "FALLBACK_RATES =
    [(''GBP'', 8550 / 10000), (''CHF'', 95 / 100), (''PLN'', 43 / 10), (''SEK'', 112 / 10),
     (''NOK'', 115 / 10), (''DKK'', 746 / 100), (''CZK'', 253 / 10), (''RON'', 497 / 100),
     (''HUF'', 395), (''BGN'', 19558 / 10000), (''ISK'', 150), (''TRY'', 40),
     (''RSD'', 117), (''BAM'', 19558 / 10000), (''MKD'', 615 / 10), (''ALL'', 98),
     (''MDL'', 195 / 10), (''UAH'', 45), (''GEL'', 305 / 100), (''AMD'', 430),
     (''AZN'', 185 / 100), (''BYN'', 36 / 10), (''RUB'', 100), (''GIP'', 8550 / 10000),
     (''USD'', 1085 / 1000), (''JPY'', 170), (''CAD'', 148 / 100), (''AUD'', 163 / 100)]"

section \<open>The rate store\<close>

record ecb_rate =
  er_date :: date
  er_currency :: string
  er_rate :: decimal

record resolved =
  rs_rate :: decimal
  rs_date :: date
  rs_approximate :: bool

fun upsert_rate :: "date \<Rightarrow> string \<Rightarrow> decimal \<Rightarrow> ecb_rate list \<Rightarrow> ecb_rate list" where
  "upsert_rate d c r [] = [\<lparr>er_date = d, er_currency = c, er_rate = r\<rparr>]"
| "upsert_rate d c r (x # xs) =
     (if er_date x = d \<and> er_currency x = c then x\<lparr>er_rate := r\<rparr> # xs
      else x # upsert_rate d c r xs)"

fun load_rates :: "(date \<times> string \<times> decimal) list \<Rightarrow> ecb_rate list \<Rightarrow> ecb_rate list \<times> nat" where
  "load_rates [] st = (st, 0)"
| "load_rates ((d, c, r) # rows) st =
     (if py_upper c = ''EUR'' then load_rates rows st
      else let (st', n) = load_rates rows (upsert_rate d (py_upper c) r st) in (st', n + 1))"

text \<open>\<open>date(y, m, 1)\<close> as an ordinal, and the month starts up to a date.\<close>

definition days_before_year :: "int \<Rightarrow> int" where
  "days_before_year y = (y - 1) * 365 + (y - 1) div 4 - (y - 1) div 100 + (y - 1) div 400"

definition is_leap :: "int \<Rightarrow> bool" where
  "is_leap y \<longleftrightarrow> y mod 4 = 0 \<and> (y mod 100 \<noteq> 0 \<or> y mod 400 = 0)"

definition days_before_month :: "int \<Rightarrow> int \<Rightarrow> int" where
  "days_before_month y m =
     (if m \<le> 1 then 0 else if m = 2 then 31
      else (if is_leap y then 1 else 0) +
        (if m = 3 then 59 else if m = 4 then 90 else if m = 5 then 120 else if m = 6 then 151
         else if m = 7 then 181 else if m = 8 then 212 else if m = 9 then 243
         else if m = 10 then 273 else if m = 11 then 304 else 334))"

definition month_start :: "int \<Rightarrow> int \<Rightarrow> date" where
  "month_start y m = days_before_year y + days_before_month y m + 1"

text \<open>\<open>date.year\<close>: the standard library's cycles of 400, 100, 4 and 1 years.\<close>

definition year_of :: "date \<Rightarrow> int" where
  "year_of d =
     (let n = d - 1; n400 = n div 146097; r400 = n mod 146097; n100 = r400 div 36524;
          r100 = r400 mod 36524; n4 = r100 div 1461; r4 = r100 mod 1461; n1 = r4 div 365
      in 400 * n400 + 100 * n100 + 4 * n4 + n1 + (if n1 = 4 \<or> n100 = 4 then 0 else 1))"

text \<open>\<open>date.isoformat()\<close>, for years of four digits.\<close>

definition month_of :: "date \<Rightarrow> int" where
  "month_of d = int (length (filter (\<lambda>m. month_start (year_of d) (int m) \<le> d) [1..<13]))"

definition two_digits :: "nat \<Rightarrow> string" where
  "two_digits n = str_nat (n div 10) @ str_nat (n mod 10)"

definition iso_date :: "date \<Rightarrow> string" where
  "iso_date d =
     str_nat (nat (year_of d)) @ ''-'' @ two_digits (nat (month_of d)) @ ''-'' @
     two_digits (nat (d - month_start (year_of d) (month_of d) + 1))"

definition next_month :: "int \<Rightarrow> int \<Rightarrow> int \<times> int" where
  "next_month y m = (if 12 < m + 1 then (y + 1, 1) else (y, m + 1))"

lemma div_step: "0 < k \<Longrightarrow> (y :: int) div k = (y - 1) div k + (if y mod k = 0 then 1 else 0)"
proof -
  assume k: "0 < k"
  have y: "y = k * (y div k) + y mod k" "0 \<le> y mod k" "y mod k < k" using k by simp_all
  show ?thesis
  proof (cases "y mod k = 0")
    case True
    have "y - 1 = k * (y div k - 1) + (k - 1)"
      using y(1) True by (simp only: right_diff_distrib mult_1_right)
    then have "(y - 1) div k = y div k - 1"
      using k int_div_pos_eq [of "y - 1" k "y div k - 1" "k - 1"] by linarith
    with True show ?thesis by simp
  next
    case False
    have "y - 1 = k * (y div k) + (y mod k - 1)" using y by linarith
    then have "(y - 1) div k = y div k"
      using y False int_div_pos_eq [of "y - 1" k "y div k" "y mod k - 1"] by linarith
    with False show ?thesis by simp
  qed
qed

lemma leap_mods:
  "(y :: int) mod 400 = 0 \<Longrightarrow> y mod 100 = 0" "(y :: int) mod 100 = 0 \<Longrightarrow> y mod 4 = 0"
  using mod_mod_cancel [of 100 400 y] mod_mod_cancel [of 4 100 y] by simp_all

lemma year_arith:
  fixes y a b c a' b' c' :: int
  assumes "a' = a + (if p then 1 else 0)" "b' = b + (if r then 1 else 0)" "c' = c + (if s then 1 else 0)"
    and "s \<Longrightarrow> r" "r \<Longrightarrow> p"
  shows "y * 365 + a' - b' + c' =
    (y - 1) * 365 + a - b + c + (if p \<and> (\<not> r \<or> s) then 366 else 365)"
  using assms by (auto simp: left_diff_distrib)

lemma year_step: "days_before_year (y + 1) = days_before_year y + (if is_leap y then 366 else 365)"
proof -
  have split: "y div 4 = (y - 1) div 4 + (if y mod 4 = 0 then 1 else 0)"
    "y div 100 = (y - 1) div 100 + (if y mod 100 = 0 then 1 else 0)"
    "y div 400 = (y - 1) div 400 + (if y mod 400 = 0 then 1 else 0)"
    by (rule div_step; simp)+
  show ?thesis
    unfolding days_before_year_def is_leap_def add_diff_cancel_right'
    by (rule year_arith [OF split leap_mods])
qed

lemma next_month_later:
  assumes "1 \<le> m" "m \<le> 12"
  shows "month_start y m + 28 \<le> (case next_month y m of (y', m') \<Rightarrow> month_start y' m')"
proof -
  have "m = 1 \<or> m = 2 \<or> m = 3 \<or> m = 4 \<or> m = 5 \<or> m = 6 \<or> m = 7 \<or> m = 8 \<or> m = 9 \<or>
      m = 10 \<or> m = 11 \<or> m = 12"
    using assms by presburger
  then show ?thesis
    using year_step [of y]
    by (auto simp: month_start_def next_month_def days_before_month_def)
qed

function month_starts :: "int \<Rightarrow> int \<Rightarrow> date \<Rightarrow> date list" where
  "month_starts y m end_date =
     (if 1 \<le> m \<and> m \<le> 12 \<and> month_start y m \<le> end_date
      then month_start y m #
        (case next_month y m of (y', m') \<Rightarrow> month_starts y' m' end_date)
      else [])"
  by auto
termination
proof (relation "measure (\<lambda>(y, m, e). nat (e + 1 - month_start y m))", goal_cases)
  case (2 y m e y' m')
  then have "month_start y m + 28 \<le> month_start y' m'"
    using next_month_later [of m y] by (simp split: prod.splits)
  with 2 show ?case by simp
qed simp

declare month_starts.simps [simp del]

definition FALLBACK_START :: "int \<times> int" where
  "FALLBACK_START = (2025, 1)"

definition month_starts_from :: "int \<times> int \<Rightarrow> date \<Rightarrow> date list" where
  "month_starts_from ym end_date = (case ym of (y, m) \<Rightarrow> month_starts y m end_date)"

definition ensure_seed_rates :: "date \<Rightarrow> ecb_rate list \<Rightarrow> ecb_rate list \<times> nat" where
  "ensure_seed_rates today st =
     (if st \<noteq> [] then (st, 0)
      else load_rates
        (concat (map (\<lambda>(idx, d).
           let factor = 1 + (of_nat (idx mod 5) - 2) * (4 / 1000)
           in map (\<lambda>(c, base). (d, c, q (base * factor) 4)) FALLBACK_RATES)
          (List.enumerate 0 (month_starts_from FALLBACK_START today)))) st)"

definition missing_currencies :: "ecb_rate list \<Rightarrow> string list" where
  "missing_currencies st =
     map cr_code (filter (\<lambda>c. cr_code c \<noteq> ''EUR'' \<and> cr_code c \<notin> er_currency ` set st \<and>
       cr_code c \<in> fst ` set FALLBACK_RATES) EUROPEAN_CURRENCIES)"

definition ensure_european_coverage :: "date \<Rightarrow> ecb_rate list \<Rightarrow> ecb_rate list \<times> nat" where
  "ensure_european_coverage today st =
     (let missing = missing_currencies st in
      if missing = [] then (st, 0)
      else load_rates
        (concat (map (\<lambda>d. map (\<lambda>c. (d, c, the (map_of FALLBACK_RATES c))) missing)
          (month_starts_from FALLBACK_START today))) st)"

section \<open>Resolving a rate\<close>

text \<open>Ascending and descending \<open>ORDER BY rate_date\<close>.\<close>

definition newest_first :: "ecb_rate list \<Rightarrow> ecb_rate list" where
  "newest_first = sort_key (\<lambda>r. - er_date r)"

definition oldest_first :: "ecb_rate list \<Rightarrow> ecb_rate list" where
  "oldest_first = sort_key er_date"

definition resolve_rate :: "ecb_rate list \<Rightarrow> string \<Rightarrow> date \<Rightarrow> resolved option" where
  "resolve_rate st currency on_date =
     (let c = py_upper currency in
      if c = ''EUR'' then Some \<lparr>rs_rate = 1, rs_date = on_date, rs_approximate = False\<rparr>
      else
        (case first_of (newest_first (filter (\<lambda>r. er_currency r = c \<and> er_date r \<le> on_date) st)) of
           Some r \<Rightarrow> Some \<lparr>rs_rate = er_rate r, rs_date = er_date r,
                      rs_approximate = (c \<in> set NON_ECB_EUROPEAN)\<rparr>
         | None \<Rightarrow>
             (case first_of (oldest_first (filter (\<lambda>r. er_currency r = c) st)) of
                Some r \<Rightarrow> Some \<lparr>rs_rate = er_rate r, rs_date = er_date r, rs_approximate = True\<rparr>
              | None \<Rightarrow> None)))"

definition load_rate_series ::
  "ecb_rate list \<Rightarrow> string list \<Rightarrow> string \<Rightarrow> (date \<times> decimal) list option" where
  "load_rate_series st currencies =
     (let codes = filter (\<lambda>c. c \<noteq> ''EUR'') (map py_upper (filter (\<lambda>c. c \<noteq> []) currencies))
      in (\<lambda>c. if c \<in> set codes \<and> c \<in> er_currency ` set st
             then Some (map (\<lambda>r. (er_date r, er_rate r))
                         (newest_first (filter (\<lambda>r. er_currency r = c) st)))
             else None))"

definition resolve_from ::
  "(string \<Rightarrow> (date \<times> decimal) list option) \<Rightarrow> string \<Rightarrow> date \<Rightarrow> resolved option" where
  "resolve_from series currency on_date =
     (let c = py_upper currency in
      if c = ''EUR'' then Some \<lparr>rs_rate = 1, rs_date = on_date, rs_approximate = False\<rparr>
      else
        (case series c of
           None \<Rightarrow> None
         | Some [] \<Rightarrow> None
         | Some (x # xs) \<Rightarrow>
             (case find (\<lambda>(d, r). d \<le> on_date) (x # xs) of
                Some (d, r) \<Rightarrow> Some \<lparr>rs_rate = r, rs_date = d,
                                  rs_approximate = (c \<in> set NON_ECB_EUROPEAN)\<rparr>
              | None \<Rightarrow> Some \<lparr>rs_rate = snd (last (x # xs)), rs_date = fst (last (x # xs)),
                           rs_approximate = True\<rparr>)))"

record currency_quote =
  cq_code :: string
  cq_ecb :: bool
  cq_rate :: "decimal option"
  cq_rate_date :: "date option"
  cq_indicative :: bool

definition supported_currencies :: "ecb_rate list \<Rightarrow> date \<Rightarrow> currency_quote list" where
  "supported_currencies st as_of =
     (let series = load_rate_series st (map cr_code EUROPEAN_CURRENCIES) in
      map (\<lambda>c. let r = resolve_from series (cr_code c) as_of in
        \<lparr>cq_code = cr_code c, cq_ecb = cr_ecb c, cq_rate = map_option rs_rate r,
         cq_rate_date = map_option rs_date r,
         cq_indicative = (case r of Some x \<Rightarrow> rs_approximate x | None \<Rightarrow> \<not> cr_ecb c)\<rparr>)
       EUROPEAN_CURRENCIES)"

definition rate_for :: "ecb_rate list \<Rightarrow> string \<Rightarrow> date \<Rightarrow> decimal option" where
  "rate_for st currency on_date = map_option rs_rate (resolve_rate st currency on_date)"

section \<open>Conversion\<close>

datatype fx_error = DivisionByZero

datatype fx_source = SrcEur | SrcStated | SrcEcb | SrcUnknown

definition divide_dec :: "decimal \<Rightarrow> decimal \<Rightarrow> fx_error + decimal" where
  "divide_dec a b = (if b = 0 then Inl DivisionByZero else Inr (a / b))"

definition to_eur ::
  "ecb_rate list \<Rightarrow> decimal \<Rightarrow> string \<Rightarrow> date \<Rightarrow> fx_error + (decimal option \<times> resolved option)" where
  "to_eur st amount currency on_date =
     (case resolve_rate st currency on_date of
        None \<Rightarrow> Inr (None, None)
      | Some r \<Rightarrow>
          (case divide_dec amount (rs_rate r) of
             Inl e \<Rightarrow> Inl e
           | Inr x \<Rightarrow> Inr (Some (q2 x), Some r)))"

definition eur_total ::
  "ecb_rate list \<Rightarrow> decimal \<Rightarrow> string \<Rightarrow> date \<Rightarrow> decimal option \<Rightarrow>
   fx_error + (decimal option \<times> fx_source)" where
  "eur_total st tot currency on_date stated_rate =
     (let c = py_upper (if currency = [] then ''EUR'' else currency) in
      if c = ''EUR'' then Inr (Some (q2 tot), SrcEur)
      else if (case stated_rate of None \<Rightarrow> False | Some s \<Rightarrow> 0 < s)
      then Inr (Some (q2 (tot / the stated_rate)), SrcStated)
      else
        (case to_eur st tot c on_date of
           Inl e \<Rightarrow> Inl e
         | Inr (Some eur, _) \<Rightarrow> Inr (Some eur, SrcEcb)
         | Inr (None, _) \<Rightarrow> Inr (None, SrcUnknown)))"

text \<open>
  The CHECK constraint of \<open>fx_provenance_check\<close>: a row passes unless the predicate is
  false, so a comparison with NULL lets it through.
\<close>

definition fx_provenance_check ::
  "bool \<Rightarrow> string \<Rightarrow> decimal option \<Rightarrow> fx_source option \<Rightarrow> bool" where
  "fx_provenance_check eur_nullable currency eur src \<longleftrightarrow>
     (src = None \<or> src \<noteq> Some SrcUnknown \<or> eur = None) \<and>
     ((eur_nullable \<and> eur = None) \<or> py_upper currency = ''EUR'' \<or> src \<noteq> None) \<and>
     (py_upper currency = ''EUR'' \<or> src \<noteq> Some SrcEur)"

section \<open>Stated against reference rates\<close>

record fx_invoice =
  fi_id :: ident
  fi_currency :: string
  fi_issue_date :: date
  fi_total :: decimal
  fi_rate :: "decimal option"

record fx_row =
  fr_id :: ident
  fr_ecb_rate :: "decimal option"
  fr_ecb_date :: "date option"
  fr_eur_at_ecb :: "decimal option"
  fr_eur_at_stated :: "decimal option"
  fr_markup :: "decimal option"
  fr_deviation :: "decimal option"

definition nonzero :: "decimal option \<Rightarrow> decimal option" where
  "nonzero x = (case x of Some v \<Rightarrow> if v = 0 then None else Some v | None \<Rightarrow> None)"

definition comparison_row ::
  "(string \<Rightarrow> (date \<times> decimal) list option) \<Rightarrow> fx_invoice \<Rightarrow> fx_row" where
  "comparison_row series iv =
     (let r = resolve_from series (fi_currency iv) (fi_issue_date iv);
          ecb = map_option rs_rate r;
          at_ecb = map_option (\<lambda>x. q2 (fi_total iv / x)) (nonzero ecb);
          at_stated = (case fi_rate iv of
                         Some s \<Rightarrow> if 0 < s then Some (q2 (fi_total iv / s)) else None
                       | None \<Rightarrow> None)
      in \<lparr>fr_id = fi_id iv, fr_ecb_rate = ecb, fr_ecb_date = map_option rs_date r,
          fr_eur_at_ecb = at_ecb, fr_eur_at_stated = at_stated,
          fr_markup = (case (at_stated, at_ecb) of
                         (Some a, Some b) \<Rightarrow> Some (q2 (a - b)) | _ \<Rightarrow> None),
          fr_deviation = (case (nonzero (fi_rate iv), nonzero ecb) of
                            (Some s, Some e) \<Rightarrow> Some (q (100 * (s - e) / e) 1) | _ \<Rightarrow> None)\<rparr>)"

record fx_summary =
  fs_count :: nat
  fs_with_stated :: nat
  fs_total_ecb :: decimal
  fs_total_markup :: decimal

definition ecb_comparison ::
  "ecb_rate list \<Rightarrow> fx_invoice list \<Rightarrow> date option \<Rightarrow> date option \<Rightarrow> fx_summary \<times> fx_row list" where
  "ecb_comparison st ivs start end_date =
     (let records = sort_key (\<lambda>iv. - fi_issue_date iv)
            (filter (\<lambda>iv. fi_currency iv \<noteq> ''EUR'' \<and>
               (case start of None \<Rightarrow> True | Some d \<Rightarrow> d \<le> fi_issue_date iv) \<and>
               (case end_date of None \<Rightarrow> True | Some d \<Rightarrow> fi_issue_date iv \<le> d)) ivs);
          series = load_rate_series st (map fi_currency records);
          rows = map (comparison_row series) records
      in (\<lparr>fs_count = length records,
           fs_with_stated = length (filter (\<lambda>r. fr_markup r \<noteq> None) rows),
           fs_total_ecb = q2 (sum_list (map (or_zero \<circ> fr_eur_at_ecb) rows)),
           fs_total_markup = q2 (sum_list (map (or_zero \<circ> fr_markup) rows))\<rparr>, rows))"

section \<open>Lemmas\<close>

definition rates_ok :: "ecb_rate list \<Rightarrow> bool" where
  "rates_ok st \<longleftrightarrow> distinct (map (\<lambda>r. (er_date r, er_currency r)) st) \<and>
     (\<forall>r \<in> set st. 0 < er_rate r \<and> er_currency r \<noteq> ''EUR'')"

lemma upsert_set:
  "set (upsert_rate d c r st) \<subseteq> insert \<lparr>er_date = d, er_currency = c, er_rate = r\<rparr> (set st)"
  "\<lparr>er_date = d, er_currency = c, er_rate = r\<rparr> \<in> set (upsert_rate d c r st)"
  by (induction st) auto

lemma upsert_keys:
  "set (map (\<lambda>r. (er_date r, er_currency r)) (upsert_rate d c r st)) =
     insert (d, c) (set (map (\<lambda>r. (er_date r, er_currency r)) st))"
  by (induction st) auto

lemma upsert_currencies:
  "er_currency ` set (upsert_rate d c r st) = insert c (er_currency ` set st)"
  by (induction st) auto

lemma upsert_keeps: "x \<in> set st \<Longrightarrow> er_currency x \<noteq> c \<Longrightarrow> x \<in> set (upsert_rate d c r st)"
  by (induction st) auto

lemma upsert_ok: "rates_ok st \<Longrightarrow> 0 < r \<Longrightarrow> c \<noteq> ''EUR'' \<Longrightarrow> rates_ok (upsert_rate d c r st)"
proof -
  have "distinct (map (\<lambda>r. (er_date r, er_currency r)) st) \<Longrightarrow>
      distinct (map (\<lambda>r. (er_date r, er_currency r)) (upsert_rate d c r st))"
  proof (induction st)
    case (Cons x xs)
    then show ?case using upsert_keys [of d c r xs] by auto
  qed simp
  then show "rates_ok st \<Longrightarrow> 0 < r \<Longrightarrow> c \<noteq> ''EUR'' \<Longrightarrow> rates_ok (upsert_rate d c r st)"
    using upsert_set(1) [of d c r st] by (fastforce simp: rates_ok_def)
qed

lemma load_ok:
  "rates_ok st \<Longrightarrow> (\<forall>(d, c, r) \<in> set rows. 0 < r) \<Longrightarrow> rates_ok (fst (load_rates rows st))"
  by (induction rows st rule: load_rates.induct) (auto simp: upsert_ok split_beta)

lemma load_keeps:
  "x \<in> set st \<Longrightarrow> er_currency x \<notin> (\<lambda>(d, c, r). py_upper c) ` set rows \<Longrightarrow>
     x \<in> set (fst (load_rates rows st))"
  by (induction rows st rule: load_rates.induct) (auto simp: upsert_keeps split_beta)

lemma load_currencies:
  "er_currency ` set (fst (load_rates rows st)) =
     er_currency ` set st \<union> ((\<lambda>(d, c, r). py_upper c) ` set rows - {''EUR''})"
proof (induction rows st rule: load_rates.induct)
  case (2 d c r rows st)
  show ?case
  proof (cases "py_upper c = ''EUR''")
    case True
    with 2(1) show ?thesis by simp
  next
    case False
    with 2(2) show ?thesis by (simp add: split_beta upsert_currencies insert_Diff_if)
  qed
qed simp

lemma order_by_simps [simp]:
  "set (newest_first xs) = set xs" "set (oldest_first xs) = set xs"
  "newest_first xs = [] \<longleftrightarrow> xs = []" "oldest_first xs = [] \<longleftrightarrow> xs = []"
  by (simp_all add: newest_first_def oldest_first_def) (metis set_empty set_sort)+

lemma newest_first_filter: "newest_first (filter P xs) = filter P (newest_first xs)"
  by (simp add: newest_first_def filter_sort)

lemma resolve_total:
  "py_upper c = ''EUR'' \<or> py_upper c \<in> er_currency ` set st \<Longrightarrow> resolve_rate st c d \<noteq> None"
  by (auto simp: resolve_rate_def Let_def filter_empty_conv split: option.splits)

lemma resolve_positive:
  "rates_ok st \<Longrightarrow> resolve_rate st c d = Some r \<Longrightarrow> 0 < rs_rate r"
  by (auto simp: resolve_rate_def rates_ok_def Let_def split: option.splits if_splits
      dest!: first_of_set)

text \<open>The newest of the rows is last when the oldest comes first: dates are unique.\<close>

lemma last_newest:
  assumes dist: "distinct (map er_date xs)" and ne: "xs \<noteq> []"
  shows "first_of (oldest_first xs) = Some (last (newest_first xs))"
proof -
  have "newest_first xs = rev (oldest_first xs)"
    unfolding newest_first_def oldest_first_def
  proof (rule sort_key_inj_key_eq)
    show "mset xs = mset (rev (sort_key er_date xs))" by simp
    show "inj_on (\<lambda>r. - er_date r) (set xs)" using dist by (auto simp: distinct_map inj_on_def)
    show "sorted (map (\<lambda>r. - er_date r) (rev (sort_key er_date xs)))"
      using sorted_sort_key [of er_date xs]
      by (simp add: rev_map [symmetric] sorted_wrt_rev sorted_wrt_map sorted_map flip: map_map)
  qed
  with ne show ?thesis by (cases "oldest_first xs") (auto simp: first_of_def)
qed

lemma find_map_pair: "find (\<lambda>(d, r). d \<le> t) (map (\<lambda>r. (er_date r, er_rate r)) xs) =
    map_option (\<lambda>r. (er_date r, er_rate r)) (find (\<lambda>r. er_date r \<le> t) xs)"
  by (induction xs) auto

lemma rates_of_currency: "rates_ok st \<Longrightarrow> distinct (map er_date (filter (\<lambda>r. er_currency r = c) st))"
  by (induction st) (auto simp: rates_ok_def)

text \<open>The preloaded series answers as the two queries do.\<close>

lemma series_resolution:
  assumes ok: "rates_ok st" and c: "c = py_upper currency" and ne: "c \<noteq> ''EUR''"
    and series: "series c = (if c \<in> er_currency ` set st
      then Some (map (\<lambda>r. (er_date r, er_rate r)) (newest_first (filter (\<lambda>r. er_currency r = c) st)))
      else None)"
  shows "resolve_from series currency d = resolve_rate st currency d"
proof (cases "c \<in> er_currency ` set st")
  case False
  then have "filter (\<lambda>r. er_currency r = c \<and> er_date r \<le> d) st = []"
    "filter (\<lambda>r. er_currency r = c) st = []"
    by (auto simp: filter_empty_conv image_iff)
  with False series show ?thesis
    by (simp add: resolve_from_def resolve_rate_def Let_def c [symmetric] ne newest_first_def
        oldest_first_def first_of_def)
next
  case True
  define xs where "xs = filter (\<lambda>r. er_currency r = c) st"
  have xs: "xs \<noteq> []" using True by (auto simp: xs_def filter_empty_conv)
  then obtain y ys where y: "newest_first xs = y # ys" by (cases "newest_first xs") auto
  have last: "first_of (oldest_first xs) = Some (last (y # ys))"
    using last_newest [OF rates_of_currency [OF ok] xs [unfolded xs_def]] y by (simp add: xs_def)
  have first: "first_of (newest_first (filter (\<lambda>r. er_currency r = c \<and> er_date r \<le> d) st))
      = find (\<lambda>r. er_date r \<le> d) (y # ys)"
    unfolding y [symmetric] xs_def find_filter newest_first_filter [symmetric] filter_filter
    by (simp only: conj_commute)
  have fin: "find (\<lambda>(d', r). d' \<le> d) (map (\<lambda>r. (er_date r, er_rate r)) (y # ys))
      = map_option (\<lambda>r. (er_date r, er_rate r)) (find (\<lambda>r. er_date r \<le> d) (y # ys))"
    by (rule find_map_pair)
  have ser: "series c = Some (map (\<lambda>r. (er_date r, er_rate r)) (y # ys))"
    using series True y by (simp add: xs_def)
  show ?thesis
    unfolding resolve_from_def resolve_rate_def Let_def c [symmetric]
    using ne last fin
    by (simp add: ser first xs_def [symmetric] last_map split: option.splits del: find.simps)
qed

section \<open>Properties\<close>

text \<open>
  One query or many. Over a store whose rows are unique per date and currency,
  resolving from the series preloaded for a set of currencies gives, for each of them
  (or EUR) and every date, the rate, its date and its flag that the per-pair queries
  give.
\<close>

theorem batch_resolution_agrees:
  assumes ok: "rates_ok st" and asked: "currency \<in> set currencies" "currency \<noteq> []"
  shows "resolve_from (load_rate_series st currencies) currency d = resolve_rate st currency d"
proof (cases "py_upper currency = ''EUR''")
  case True
  then show ?thesis by (simp add: resolve_from_def resolve_rate_def)
next
  case False
  show ?thesis
    by (rule series_resolution [OF ok refl False])
      (use asked False in \<open>auto simp: load_rate_series_def Let_def\<close>)
qed

definition sample_rates :: "ecb_rate list" where
  "sample_rates = [\<lparr>er_date = 10, er_currency = ''PLN'', er_rate = 4\<rparr>,
     \<lparr>er_date = 12, er_currency = ''PLN'', er_rate = 5\<rparr>]"

lemma sample_rates_ok: "rates_ok sample_rates"
  by (simp add: rates_ok_def sample_rates_def)

theorem batch_resolution_agrees_witness:
  "resolve_from (load_rate_series sample_rates [''usd'', ''pln'']) ''pln'' 11 =
     resolve_rate sample_rates ''pln'' 11"
  by (rule batch_resolution_agrees [OF sample_rates_ok]) simp_all

text \<open>
  C12: no guessed euro. Over a store of positive rates \<open>eur_total\<close> never fails, and what
  it returns for a document of any currency satisfies the provenance CHECK of the table
  that stores it: the euro figure is missing exactly when the provenance is unknown, an
  EUR document is converted by identity, a positive stated rate by division, and a
  non-negative total never becomes negative.
\<close>

theorem eur_total_provenance:
  assumes ok: "rates_ok st"
  shows "\<exists>eur src. eur_total st t currency d stated = Inr (eur, src) \<and>
    fx_provenance_check True (if currency = [] then ''EUR'' else currency) eur (Some src) \<and>
    (eur = None \<longleftrightarrow> src = SrcUnknown) \<and>
    (py_upper currency = ''EUR'' \<longrightarrow> eur = Some (q2 t) \<and> src = SrcEur) \<and>
    (\<forall>s. stated = Some s \<longrightarrow> 0 < s \<longrightarrow> src \<noteq> SrcEur \<longrightarrow> eur = Some (q2 (t / s)) \<and> src = SrcStated) \<and>
    (0 \<le> t \<longrightarrow> 0 \<le> or_zero eur)"
proof -
  define c where "c = py_upper (if currency = [] then ''EUR'' else currency)"
  have up: "py_upper c = c" by (simp add: c_def)
  have conv: "\<exists>e. to_eur st t c d = Inr e \<and> (0 \<le> t \<longrightarrow> 0 \<le> or_zero (fst e))"
    using resolve_positive [OF ok, of c d]
    by (cases "resolve_rate st c d")
       (auto simp: to_eur_def divide_dec_def intro!: cents.rnd_nonneg divide_nonneg_pos)
  consider "c = ''EUR''" | s where "c \<noteq> ''EUR''" "stated = Some s" "0 < s"
    | "c \<noteq> ''EUR''" "\<not> (case stated of None \<Rightarrow> False | Some s \<Rightarrow> 0 < s)"
    by (cases stated) auto
  then show ?thesis
  proof cases
    case 1
    then show ?thesis
      by (simp add: eur_total_def c_def [symmetric] fx_provenance_check_def cents.rnd_nonneg)
  next
    case 2
    then show ?thesis
      by (auto simp: eur_total_def c_def [symmetric] fx_provenance_check_def cents.rnd_nonneg)
        (auto simp: c_def split: if_splits)
  next
    case 3
    from conv obtain e where e: "to_eur st t c d = Inr e" "0 \<le> t \<longrightarrow> 0 \<le> or_zero (fst e)" by blast
    with 3 show ?thesis
      by (cases e; cases "fst e")
        (auto simp: eur_total_def c_def [symmetric] fx_provenance_check_def,
         auto simp: c_def split: if_splits option.splits)
  qed
qed

theorem eur_total_provenance_witness:
  "eur_total sample_rates 100 ''pln'' 11 None = Inr (Some 25, SrcEcb)"
proof -
  obtain eur src where e: "eur_total sample_rates 100 ''pln'' 11 None = Inr (eur, src)"
    using eur_total_provenance [OF sample_rates_ok, of 100 "''pln''" 11 None] by blast
  have up: "upper_char CHR ''p'' = CHR ''P''" "upper_char CHR ''l'' = CHR ''L''"
    "upper_char CHR ''n'' = CHR ''N''" "upper_char CHR ''P'' = CHR ''P''"
    "upper_char CHR ''L'' = CHR ''L''" "upper_char CHR ''N'' = CHR ''N''"
    by code_simp+
  have "resolve_rate sample_rates ''PLN'' 11 =
      Some \<lparr>rs_rate = 4, rs_date = 10, rs_approximate = False\<rparr>"
    by code_simp
  moreover have "q2 25 = 25" by (simp add: cents.rnd_fix)
  ultimately have "eur_total sample_rates 100 ''pln'' 11 None = Inr (Some 25, SrcEcb)"
    by (simp add: eur_total_def up to_eur_def divide_dec_def)
  with e show ?thesis by simp
qed

lemma fallback_facts:
  "list_all (\<lambda>c. py_upper (cr_code c) = cr_code c \<and> cr_code c \<noteq> [] \<and>
     (cr_code c = ''EUR'' \<or> cr_code c \<in> fst ` set FALLBACK_RATES)) EUROPEAN_CURRENCIES"
  "list_all (\<lambda>(c, r). 0 < r) FALLBACK_RATES"
  by code_simp+

lemma month_starts_ne: "month_start 2025 1 \<le> today \<Longrightarrow> month_starts_from FALLBACK_START today \<noteq> []"
  by (simp add: month_starts_from_def FALLBACK_START_def month_starts.simps [of 2025 1])

lemma missing_facts:
  assumes "c \<in> set (missing_currencies st)"
  shows "py_upper c = c" "c \<noteq> ''EUR''" "c \<notin> er_currency ` set st" "0 < the (map_of FALLBACK_RATES c)"
proof -
  show up: "py_upper c = c" and "c \<noteq> ''EUR''" "c \<notin> er_currency ` set st"
    using assms fallback_facts(1) by (auto simp: missing_currencies_def list_all_iff)
  have "c \<in> fst ` set FALLBACK_RATES"
    using assms by (auto simp: missing_currencies_def)
  then obtain r where "map_of FALLBACK_RATES c = Some r" by (metis weak_map_of_SomeI imageE prod.collapse)
  then show "0 < the (map_of FALLBACK_RATES c)"
    using fallback_facts(2) by (auto simp: list_all_iff dest!: map_of_SomeD)
qed

text \<open>
  C16: boot-time coverage. Once today is past the start of the snapshot, ensuring
  European coverage keeps every row the store had, keeps the store well formed, gives
  every European currency a rate on every date, and does nothing when run again.
\<close>

theorem coverage_total:
  assumes ok: "rates_ok st" and today: "month_start 2025 1 \<le> today"
  defines "st' \<equiv> fst (ensure_european_coverage today st)"
  shows "set st \<subseteq> set st' \<and> rates_ok st' \<and>
    (\<forall>c \<in> set EUROPEAN_CURRENCIES. resolve_rate st' (cr_code c) d \<noteq> None) \<and>
    ensure_european_coverage today st' = (st', 0)"
proof -
  define rows where "rows = concat (map (\<lambda>d. map (\<lambda>c. (d, c, the (map_of FALLBACK_RATES c)))
    (missing_currencies st)) (month_starts_from FALLBACK_START today))"
  have nil: "concat (map (\<lambda>d. []) ds) = ([] :: (date \<times> string \<times> decimal) list)" for ds :: "date list"
    by (induction ds) auto
  have st': "st' = fst (load_rates rows st)"
    by (auto simp: nil st'_def ensure_european_coverage_def Let_def rows_def)
  have codes: "(\<lambda>(d, c, r). py_upper c) ` set rows = set (missing_currencies st)"
    using month_starts_ne [OF today] missing_facts(1) [of _ st]
    by (auto simp: rows_def image_iff) (metis last_in_set)
  have keep: "set st \<subseteq> set st'"
    using load_keeps [of _ st rows] missing_facts(3) [of _ st] unfolding st' codes by blast
  have ok': "rates_ok st'"
    unfolding st' by (rule load_ok [OF ok]) (auto simp: rows_def missing_facts(4))
  have "er_currency ` set st' = er_currency ` set st \<union> set (missing_currencies st)"
    unfolding st' load_currencies codes using missing_facts(2) by blast
  then have cover: "cr_code c = ''EUR'' \<or> cr_code c \<in> er_currency ` set st'"
    if "c \<in> set EUROPEAN_CURRENCIES" for c
    using that fallback_facts(1) by (auto simp: missing_currencies_def list_all_iff)
  then have "resolve_rate st' (cr_code c) d \<noteq> None" if "c \<in> set EUROPEAN_CURRENCIES" for c
    using that fallback_facts(1) by (intro resolve_total) (auto simp: list_all_iff)
  moreover have "missing_currencies st' = []"
    using cover by (auto simp: missing_currencies_def filter_empty_conv)
  then have "ensure_european_coverage today st' = (st', 0)"
    by (simp add: ensure_european_coverage_def)
  ultimately show ?thesis using keep ok' by blast
qed

theorem coverage_total_witness:
  "set sample_rates \<subseteq> set (fst (ensure_european_coverage 739300 sample_rates))"
proof -
  have "month_start 2025 1 \<le> 739300" by code_simp
  with coverage_total [OF sample_rates_ok] show ?thesis by blast
qed

end
