(* ===== verification/SupplierInvoice.thy ===== *)
theory SupplierInvoice
  imports ApWorkflow Ledger Fx
begin

text \<open>
  The payables side: the supplier invoice, its line items, approval steps and payment
  runs (\<open>models/invoice.py\<close>, \<open>models/approval.py\<close>, \<open>models/payment_run.py\<close>), the ledger
  behind \<open>amount_paid\<close> (\<open>services/ap_payments.py\<close>), the derived payment status
  (\<open>services/ap_status.py\<close>) and the handler that records one payment
  (\<open>api/routes/invoices.py\<close>). A handler returns the books it leaves, or the refusal;
  a refused request rolls its session back, so it leaves the books as they were.
\<close>

section \<open>The tables of one workspace\<close>

datatype aging = Ag_draft | Ag_pending | Ag_paid | Ag_overdue

record line_item =
  li_description :: string
  li_quantity :: decimal
  li_unit_price :: decimal
  li_amount :: decimal
  li_tax_rate :: decimal
  li_tax_amount :: "decimal option"
  li_gross_amount :: "decimal option"
  li_captured_tax :: "decimal option"
  li_captured_gross :: "decimal option"

record supplier_invoice =
  si_id :: ident
  si_vendor :: ident
  si_number :: string
  si_currency :: string
  si_issue_date :: date
  si_due_date :: "date option"
  si_aging :: aging
  si_subtotal :: decimal
  si_tax_amount :: decimal
  si_total :: decimal
  si_fx_rate :: "decimal option"
  si_total_eur :: "decimal option"
  si_fx_source :: "fx_source option"
  si_lines :: "line_item list"
  si_state :: workflow_state
  si_version :: int
  si_locked_at :: "instant option"
  si_locked_by :: "string option"
  si_legal_entity :: "ident option"
  si_department :: "ident option"
  si_cost_center :: "ident option"
  si_submitted_by :: "ident option"
  si_submitted_at :: "instant option"
  si_amount_paid :: "decimal option"
  si_paid_date :: "date option"
  si_run :: "ident option"

record supplier_payment =
  sp_id :: ident
  sp_invoice :: ident
  sp_amount :: decimal
  sp_paid_on :: date
  sp_method :: string
  sp_reference :: "string option"
  sp_note :: "string option"
  sp_run :: "ident option"

datatype step_status = StepPending | StepApproved | StepRejected | StepSkipped
datatype step_kind = KindApprover | KindFinanceFinal

record approval_step =
  as_id :: ident
  as_invoice :: ident
  as_policy :: "ident option"
  as_seq :: nat
  as_kind :: step_kind
  as_approver :: "ident option"
  as_status :: step_status
  as_decided_by :: "ident option"
  as_decided_at :: "instant option"
  as_note :: "string option"
  as_approver_email :: "string option"
  as_decided_email :: "string option"

text \<open>
  \<open>ap_trail\<close> holds the audit actions with their target and \<open>ap_hooks\<close> the webhook
  events, oldest first; \<open>ap_comments\<close> the collaboration notes; \<open>ap_mail\<close> the messages
  handed to the mailer (address, subject, invoice); \<open>ap_users\<close> is the user directory,
  ids with their addresses, which no operation here changes.
\<close>

record ap_books =
  ap_invoices :: "supplier_invoice list"
  ap_ledger :: "supplier_payment list"
  ap_steps :: "approval_step list"
  ap_trail :: "(string \<times> ident) list"
  ap_hooks :: "(string \<times> ident) list"
  ap_comments :: "(ident \<times> string) list"
  ap_mail :: "(string \<times> string \<times> ident) list"
  ap_users :: "(ident \<times> string) list"

datatype ap_error =
    ApNotFound                                 \<comment> \<open>404\<close>
  | ApWorkflow workflow_error                  \<comment> \<open>409 stale version, 422 illegal move\<close>
  | NotPayable | AmountExceedsTotal
  | InvoiceLocked | TaxRateOutOfRange | ApFx fx_error
  | NoLines | DoesNotReconcile "string list" | ExceedsAgreedPrice
  | UnknownState
  | NotAwaitingApproval | NoPendingStep | OwnSubmission | OtherApprover

definition get_si :: "ident \<Rightarrow> ap_books \<Rightarrow> supplier_invoice option" where
  "get_si i bk = find (\<lambda>x. si_id x = i) (ap_invoices bk)"

definition put_si :: "supplier_invoice \<Rightarrow> ap_books \<Rightarrow> ap_books" where
  "put_si si bk =
     bk\<lparr>ap_invoices := map (\<lambda>x. if si_id x = si_id si then si else x) (ap_invoices bk)\<rparr>"

definition add_entry :: "supplier_payment option \<Rightarrow> ap_books \<Rightarrow> ap_books" where
  "add_entry e bk =
     (case e of None \<Rightarrow> bk | Some p \<Rightarrow> bk\<lparr>ap_ledger := ap_ledger bk @ [p]\<rparr>)"

definition audit_ap :: "string \<Rightarrow> ident \<Rightarrow> ap_books \<Rightarrow> ap_books" where
  "audit_ap action target bk = bk\<lparr>ap_trail := ap_trail bk @ [(action, target)]\<rparr>"

definition emit_ap :: "string \<Rightarrow> ident \<Rightarrow> ap_books \<Rightarrow> ap_books" where
  "emit_ap event target bk = bk\<lparr>ap_hooks := ap_hooks bk @ [(event, target)]\<rparr>"

definition ap_paid_of :: "supplier_invoice \<Rightarrow> decimal" where
  "ap_paid_of si = or_zero (si_amount_paid si)"

section \<open>The ledger: ap_payments.py\<close>

definition ap_list_for :: "ident \<Rightarrow> ap_books \<Rightarrow> supplier_payment list" where
  "ap_list_for i bk = sort_key sp_paid_on (filter (\<lambda>p. sp_invoice p = i) (ap_ledger bk))"

definition ap_derive_paid_date :: "decimal \<Rightarrow> decimal \<Rightarrow> date option \<Rightarrow> date \<Rightarrow> date option" where
  "ap_derive_paid_date new_total tot when today =
     (if tot \<le> new_total \<and> 0 < tot
      then Some (case when of None \<Rightarrow> today | Some d \<Rightarrow> d)
      else if 0 < new_total then when else None)"

definition ap_set_cumulative ::
  "ident \<Rightarrow> supplier_invoice \<Rightarrow> decimal \<Rightarrow> date option \<Rightarrow> string \<Rightarrow> string option \<Rightarrow> string option \<Rightarrow>
   ident option \<Rightarrow> date \<Rightarrow> supplier_invoice \<times> supplier_payment option" where
  "ap_set_cumulative pid si new_total paid_date method reference note run today =
     (let old = ap_paid_of si;
          nt = q2 new_total;
          delta = q2 (nt - old);
          entry = (if delta \<noteq> 0
                   then Some \<lparr>sp_id = pid, sp_invoice = si_id si, sp_amount = delta,
                     sp_paid_on = (case paid_date of None \<Rightarrow> today | Some d \<Rightarrow> d),
                     sp_method = method, sp_reference = reference, sp_note = note,
                     sp_run = run\<rparr>
                   else None)
      in (si\<lparr>si_amount_paid := Some nt,
              si_paid_date := ap_derive_paid_date nt (q2 (si_total si)) paid_date today\<rparr>, entry))"

section \<open>Derived status: ap_status.py\<close>

datatype ap_status = AP_PAID | AP_PARTIAL | AP_OPEN | AP_OVERDUE

definition ap_outstanding_of :: "supplier_invoice \<Rightarrow> decimal" where
  "ap_outstanding_of si = q2 (max 0 (si_total si - ap_paid_of si))"

definition ap_status_of :: "supplier_invoice \<Rightarrow> date \<Rightarrow> ap_status" where
  "ap_status_of si today =
     (let tot = q2 (si_total si); paid = ap_paid_of si in
      if 0 < tot \<and> tot \<le> paid then AP_PAID
      else if (case si_due_date si of None \<Rightarrow> False | Some d \<Rightarrow> d < today) then AP_OVERDUE
      else if 0 < paid then AP_PARTIAL
      else AP_OPEN)"

definition ap_days_overdue_of :: "supplier_invoice \<Rightarrow> date \<Rightarrow> int" where
  "ap_days_overdue_of si today =
     (case si_due_date si of
        None \<Rightarrow> 0
      | Some d \<Rightarrow>
          if today \<le> d then 0
          else if q2 (si_total si) \<le> ap_paid_of si \<and> 0 < si_total si then 0
          else today - d)"

section \<open>Recording one payment: routes/invoices.py\<close>

definition PAYABLE :: "workflow_state list" where
  "PAYABLE = [WScheduled, WPartiallyPaid]"

definition advance_to :: "workflow_state \<Rightarrow> supplier_invoice \<Rightarrow> ap_error + supplier_invoice" where
  "advance_to target si =
     (case assert_transition (si_state si) target of
        Inl e \<Rightarrow> Inl (ApWorkflow e)
      | Inr _ \<Rightarrow> Inr (si\<lparr>si_state := target,
          si_aging := (if target = WPaid then Ag_paid else si_aging si),
          si_version := si_version si + 1\<rparr>))"

definition settlement_target :: "supplier_invoice \<Rightarrow> decimal \<Rightarrow> workflow_state option" where
  "settlement_target si new_total =
     (let tot = q2 (si_total si) in
      if tot \<le> new_total \<and> 0 < tot then Some WPaid
      else if 0 < new_total \<and> si_state si = WScheduled then Some WPartiallyPaid
      else None)"

definition settle_state :: "workflow_state option \<Rightarrow> supplier_invoice \<Rightarrow> ap_error + supplier_invoice" where
  "settle_state target si =
     (case target of
        Some t \<Rightarrow> if t \<noteq> si_state si then advance_to t si else Inr si
      | None \<Rightarrow> Inr si)"

definition record_supplier_payment ::
  "ident \<Rightarrow> ident \<Rightarrow> decimal \<Rightarrow> date option \<Rightarrow> string \<Rightarrow> string option \<Rightarrow> date \<Rightarrow> ap_books \<Rightarrow>
   ap_error + ap_books" where
  "record_supplier_payment pid i amount_paid paid_date method reference today bk =
     (case get_si i bk of
        None \<Rightarrow> Inl ApNotFound
      | Some si \<Rightarrow>
          if si_state si \<notin> set PAYABLE then Inl NotPayable
          else let tot = q2 (si_total si); new_total = q2 amount_paid in
            if tot < new_total then Inl AmountExceedsTotal
            else
              let (si1, e) = ap_set_cumulative pid si new_total paid_date method reference None None today;
                  target = settlement_target si new_total
              in (case settle_state target si1 of
                    Inl err \<Rightarrow> Inl err
                  | Inr si2 \<Rightarrow>
                      let bk' = audit_ap ''ap.payment'' i (add_entry e (put_si si2 bk)) in
                      Inr (if target = Some WPaid then emit_ap ''invoice.paid'' i bk' else bk')))"

section \<open>Lemmas\<close>

interpretation ap: cumulative_ledger ap_paid_of
  "\<lambda>t si. map_prod id (map_option sp_amount)
     (ap_set_cumulative pid si t paid_date mth rf nt run today)"
  for pid paid_date mth rf nt run today
  by unfold_locales (simp_all add: ap_set_cumulative_def Let_def ap_paid_of_def)

lemma ap_set_cumulative_fields:
  "ap_set_cumulative pid si t pd m r n run today = (si', e) \<Longrightarrow>
     si' = si\<lparr>si_amount_paid := Some (q2 t),
       si_paid_date := ap_derive_paid_date (q2 t) (q2 (si_total si)) pd today\<rparr> \<and>
     (case e of None \<Rightarrow> q2 (q2 t - ap_paid_of si) = 0
      | Some p \<Rightarrow> sp_id p = pid \<and> sp_invoice p = si_id si \<and> sp_run p = run \<and>
          sp_amount p = q2 (q2 t - ap_paid_of si))"
  by (auto simp: ap_set_cumulative_def Let_def)

definition ap_ledger_total :: "ident \<Rightarrow> supplier_payment list \<Rightarrow> decimal" where
  "ap_ledger_total i ps = sum_list (map sp_amount (filter (\<lambda>p. sp_invoice p = i) ps))"

definition ap_cache_ok :: "ap_books \<Rightarrow> bool" where
  "ap_cache_ok bk \<longleftrightarrow> distinct (map si_id (ap_invoices bk)) \<and>
     (\<forall>si \<in> set (ap_invoices bk). on_cents (ap_paid_of si) \<and>
        ap_paid_of si = ap_ledger_total (si_id si) (ap_ledger bk))"

lemma get_si_Some: "get_si i bk = Some si \<Longrightarrow> si \<in> set (ap_invoices bk) \<and> si_id si = i"
  by (auto simp: get_si_def find_Some_iff in_set_conv_nth)

lemma ap_ledger_total_app [simp]:
  "ap_ledger_total i (ps @ qs) = ap_ledger_total i ps + ap_ledger_total i qs"
  by (simp add: ap_ledger_total_def)

lemma ap_ledger_total_single [simp]:
  "ap_ledger_total i [p] = (if sp_invoice p = i then sp_amount p else 0)" "ap_ledger_total i [] = 0"
  by (simp_all add: ap_ledger_total_def)

lemma put_si_simps [simp]:
  "ap_ledger (put_si si bk) = ap_ledger bk" "ap_steps (put_si si bk) = ap_steps bk"
  "map si_id (ap_invoices (put_si si bk)) = map si_id (ap_invoices bk)"
  by (induction "ap_invoices bk") (auto simp: put_si_def)

lemma add_entry_simps [simp]:
  "ap_invoices (add_entry e bk) = ap_invoices bk" "ap_steps (add_entry e bk) = ap_steps bk"
  "ap_ledger (add_entry e bk) = ap_ledger bk @ (case e of None \<Rightarrow> [] | Some p \<Rightarrow> [p])"
  by (auto simp: add_entry_def split: option.splits)

lemma audit_emit_simps [simp]:
  "ap_invoices (audit_ap a t bk) = ap_invoices bk" "ap_ledger (audit_ap a t bk) = ap_ledger bk"
  "ap_steps (audit_ap a t bk) = ap_steps bk" "ap_invoices (emit_ap a t bk) = ap_invoices bk"
  "ap_ledger (emit_ap a t bk) = ap_ledger bk" "ap_steps (emit_ap a t bk) = ap_steps bk"
  by (simp_all add: audit_ap_def emit_ap_def)

lemma put_si_set:
  "x \<in> set (ap_invoices (put_si si bk)) \<Longrightarrow>
     x = si \<or> x \<in> set (ap_invoices bk) \<and> si_id x \<noteq> si_id si"
  by (auto simp: put_si_def split: if_splits)

text \<open>
  Posting the entry of a \<open>set_cumulative\<close> keeps every cache equal to its ledger; the
  ledger law of the interface does the work.
\<close>

lemma ap_post_cache:
  assumes ok: "ap_cache_ok bk" and get: "get_si i bk = Some si"
    and set: "ap_set_cumulative pid si t pd m r n run today = (si1, e)"
    and same: "si_id si2 = i" "ap_paid_of si2 = ap_paid_of si1"
  shows "ap_cache_ok (add_entry e (put_si si2 bk))"
proof -
  have si: "si \<in> set (ap_invoices bk)" "si_id si = i" using get_si_Some [OF get] by auto
  then have old: "on_cents (ap_paid_of si)" "ap_paid_of si = ap_ledger_total i (ap_ledger bk)"
    using ok by (auto simp: ap_cache_ok_def)
  have new: "ap_paid_of si1 = q2 t"
    using ap_set_cumulative_fields [OF set] by (simp add: ap_paid_of_def)
  have "ap_ledger_total i (ap_ledger bk @ (case e of None \<Rightarrow> [] | Some p \<Rightarrow> [p]))
      = ap_paid_of si + delta_of (map_option sp_amount e)"
    using ap_set_cumulative_fields [OF set] old si by (auto simp: delta_of_def split: option.splits)
  also have "\<dots> = ap_paid_of si1"
    using ap.post_sum [OF old(1) refl, of pid t pd m r n run today] set by simp
  finally have mine: "ap_paid_of si2 = ap_ledger_total i (ap_ledger bk @ (case e of None \<Rightarrow> [] | Some p \<Rightarrow> [p]))"
    using same by simp
  have other: "ap_ledger_total j (ap_ledger bk @ (case e of None \<Rightarrow> [] | Some p \<Rightarrow> [p]))
      = ap_ledger_total j (ap_ledger bk)" if "j \<noteq> i" for j
    using ap_set_cumulative_fields [OF set] si that by (auto split: option.splits)
  have "on_cents (ap_paid_of x) \<and> ap_paid_of x
      = ap_ledger_total (si_id x) (ap_ledger bk @ (case e of None \<Rightarrow> [] | Some p \<Rightarrow> [p]))"
    if "x \<in> set (ap_invoices (put_si si2 bk))" for x
  proof (cases "x = si2")
    case True
    with mine new same show ?thesis by (metis cents.rnd_grid)
  next
    case False
    with put_si_set [OF that] have "x \<in> set (ap_invoices bk)" "si_id x \<noteq> i"
      using same by auto
    with ok other [of "si_id x"] show ?thesis unfolding ap_cache_ok_def by simp metis
  qed
  with ok show ?thesis
    unfolding ap_cache_ok_def by (simp only: put_si_simps add_entry_simps) blast
qed

lemma get_put_si [simp]: "get_si (si_id si) bk = Some si0 \<Longrightarrow> get_si (si_id si) (put_si si bk) = Some si"
proof -
  have "find (\<lambda>x. si_id x = si_id si) xs = Some si0 \<Longrightarrow>
      find (\<lambda>x. si_id x = si_id si) (map (\<lambda>x. if si_id x = si_id si then si else x) xs) = Some si" for xs
    by (induction xs) (auto split: if_splits)
  then show "get_si (si_id si) bk = Some si0 \<Longrightarrow> get_si (si_id si) (put_si si bk) = Some si"
    by (simp add: get_si_def put_si_def)
qed

lemma get_put_other: "i \<noteq> si_id si \<Longrightarrow> get_si i (put_si si bk) = get_si i bk"
proof -
  assume "i \<noteq> si_id si"
  then have "find (\<lambda>x. si_id x = i) (map (\<lambda>x. if si_id x = si_id si then si else x) xs)
      = find (\<lambda>x. si_id x = i) xs" for xs
    by (induction xs) auto
  then show ?thesis by (simp add: get_si_def put_si_def)
qed

lemma ap_cache_ok_cong:
  "ap_invoices bk = ap_invoices bk' \<Longrightarrow> ap_ledger bk = ap_ledger bk' \<Longrightarrow> ap_cache_ok bk = ap_cache_ok bk'"
  by (simp add: ap_cache_ok_def)

lemma get_si_cong: "ap_invoices bk = ap_invoices bk' \<Longrightarrow> get_si i bk = get_si i bk'"
  by (simp add: get_si_def)

lemma advance_to_Inr [result_iff]:
  "advance_to t si = Inr si' \<longleftrightarrow> can_transition (si_state si) t \<and>
     si' = si\<lparr>si_state := t, si_aging := (if t = WPaid then Ag_paid else si_aging si),
       si_version := si_version si + 1\<rparr>"
  by (auto simp: advance_to_def assert_transition_def)

lemma settlement_legal:
  "si_state si \<in> set PAYABLE \<Longrightarrow> settlement_target si nt = Some t \<Longrightarrow>
     can_transition (si_state si) t \<and> t \<noteq> si_state si"
  by (auto simp: settlement_target_def PAYABLE_def Let_def workflow_defs split: if_splits)

text \<open>The assertion of the handler never fires: the settled state is always a legal target.\<close>

lemma settle_state_total:
  assumes "si_state si1 = si_state si" "si_state si \<in> set PAYABLE"
  shows "settle_state (settlement_target si nt) si1 =
    Inr (case settlement_target si nt of
           None \<Rightarrow> si1
         | Some t \<Rightarrow> si1\<lparr>si_state := t, si_aging := (if t = WPaid then Ag_paid else si_aging si1),
             si_version := si_version si1 + 1\<rparr>)"
  using assms settlement_legal [of si nt]
  by (auto simp: settle_state_def advance_to_Inr split: option.splits)

lemma record_supplier_payment_Inr:
  assumes "record_supplier_payment pid i amount pd m r today bk = Inr bk'"
  obtains si si1 e si2 where "get_si i bk = Some si" "si_state si \<in> set PAYABLE"
    "q2 amount \<le> q2 (si_total si)"
    "ap_set_cumulative pid si (q2 amount) pd m r None None today = (si1, e)"
    "settle_state (settlement_target si (q2 amount)) si1 = Inr si2"
    "ap_invoices bk' = ap_invoices (put_si si2 bk)"
    "ap_ledger bk' = ap_ledger (add_entry e (put_si si2 bk))"
  using assms
  by (auto simp: record_supplier_payment_def Let_def split: option.splits if_splits prod.splits sum.splits)

section \<open>Properties\<close>

text \<open>A scheduled invoice over 100.00 EUR in otherwise empty books: the input of the witnesses.\<close>

definition sample_si :: supplier_invoice where
  "sample_si = \<lparr>si_id = ''ap-1'', si_vendor = ''v-1'', si_number = ''A-1'', si_currency = ''EUR'',
     si_issue_date = 5, si_due_date = Some 10, si_aging = Ag_pending, si_subtotal = 100, si_tax_amount = 0,
     si_total = 100, si_fx_rate = None,
     si_total_eur = Some 100, si_fx_source = Some SrcEur, si_lines = [], si_state = WScheduled, si_version = 1,
     si_locked_at = None, si_locked_by = None, si_legal_entity = None, si_department = None,
     si_cost_center = None, si_submitted_by = Some ''u-1'', si_submitted_at = None,
     si_amount_paid = Some 0, si_paid_date = None, si_run = None\<rparr>"

definition sample_ap_books :: ap_books where
  "sample_ap_books = \<lparr>ap_invoices = [sample_si], ap_ledger = [], ap_steps = [], ap_trail = [],
     ap_hooks = [], ap_comments = [], ap_mail = [], ap_users = []\<rparr>"

text \<open>
  C10: recording a supplier payment. From books whose caches are their ledgers, an
  accepted payment keeps them so, appends at most one entry, touches no other invoice,
  never pays more than the total, and leaves the approval state in step with the money:
  paid exactly when the derived status is PAID.
\<close>

theorem supplier_payment_settles:
  assumes ok: "ap_cache_ok bk"
    and step: "record_supplier_payment pid i amount pd m r today bk = Inr bk'"
  shows "ap_cache_ok bk' \<and>
    (\<exists>es. ap_ledger bk' = ap_ledger bk @ es \<and> length es \<le> 1) \<and>
    (\<forall>j. j \<noteq> i \<longrightarrow> get_si j bk' = get_si j bk) \<and>
    (\<exists>si si'. get_si i bk = Some si \<and> get_si i bk' = Some si' \<and>
       ap_paid_of si' = q2 amount \<and> q2 amount \<le> q2 (si_total si') \<and>
       si_state si' \<in> {si_state si, WPartiallyPaid, WPaid} \<and>
       (si_state si' = WPaid \<longleftrightarrow> ap_status_of si' today = AP_PAID))"
proof -
  obtain si si1 e si2 where get: "get_si i bk = Some si" and pay: "si_state si \<in> set PAYABLE"
    and le: "q2 amount \<le> q2 (si_total si)"
    and set: "ap_set_cumulative pid si (q2 amount) pd m r None None today = (si1, e)"
    and st: "settle_state (settlement_target si (q2 amount)) si1 = Inr si2"
    and new: "ap_invoices bk' = ap_invoices (put_si si2 bk)"
      "ap_ledger bk' = ap_ledger (add_entry e (put_si si2 bk))"
    by (rule record_supplier_payment_Inr [OF step])
  have si1: "si1 = si\<lparr>si_amount_paid := Some (q2 amount),
      si_paid_date := ap_derive_paid_date (q2 amount) (q2 (si_total si)) pd today\<rparr>"
    using ap_set_cumulative_fields [OF set] by simp
  have id: "si_id si = i" using get_si_Some [OF get] by simp
  have si2: "si_id si2 = i" "ap_paid_of si2 = ap_paid_of si1" "si_total si2 = si_total si"
    "si_state si2 = (case settlement_target si (q2 amount) of None \<Rightarrow> si_state si | Some t \<Rightarrow> t)"
    using st settle_state_total [of si1 si "q2 amount"] pay si1 id
    by (auto simp: ap_paid_of_def split: option.splits)
  have "ap_cache_ok (add_entry e (put_si si2 bk))"
    by (rule ap_post_cache [OF ok get set si2(1,2)])
  then have "ap_cache_ok bk'"
    using ap_cache_ok_cong [of bk' "add_entry e (put_si si2 bk)"] new by simp
  moreover have "\<exists>es. ap_ledger bk' = ap_ledger bk @ es \<and> length es \<le> 1"
    using new by (cases e) auto
  moreover have "get_si j bk' = get_si j bk" if "j \<noteq> i" for j
    using that new(1) get_put_other [of j si2 bk] si2(1) by (simp add: get_si_def)
  moreover have "get_si i bk' = Some si2"
    using new(1) get get_put_si [of si2 bk si] si2(1) by (simp add: get_si_def)
  moreover have "ap_paid_of si2 = q2 amount"
    using si2(2) si1 by (simp add: ap_paid_of_def)
  moreover have "si_state si2 = WPaid \<longleftrightarrow> ap_status_of si2 today = AP_PAID"
    using si2 pay calculation
    by (auto simp: settlement_target_def ap_status_of_def PAYABLE_def Let_def split: option.splits)
  moreover have "si_state si2 \<in> {si_state si, WPartiallyPaid, WPaid}"
    using si2(4) by (auto simp: settlement_target_def Let_def split: if_splits)
  ultimately show ?thesis using get le si2(3) by auto
qed

theorem supplier_payment_settles_witness:
  "\<exists>bk'. record_supplier_payment ''sp-1'' ''ap-1'' 40 None ''sepa'' None 5 sample_ap_books = Inr bk' \<and>
     ap_cache_ok bk'"
proof -
  have ok: "ap_cache_ok sample_ap_books"
    by (simp add: ap_cache_ok_def sample_ap_books_def sample_si_def ap_paid_of_def)
  obtain bk' where "record_supplier_payment ''sp-1'' ''ap-1'' 40 None ''sepa'' None 5 sample_ap_books
      = Inr bk'"
    by (simp add: record_supplier_payment_def sample_ap_books_def sample_si_def get_si_def PAYABLE_def
        settle_state_def advance_to_def assert_transition_def settlement_target_def Let_def workflow_defs
        ap_set_cumulative_def cents.rnd_fix)
  with supplier_payment_settles [OF ok] show ?thesis by blast
qed

end
