(* ===== verification/Validation.thy ===== *)
theory Validation
  imports SupplierInvoice
begin

text \<open>
  The money of a received invoice: \<open>services/received_lines.py\<close> computes the lines from
  what a reviewer enters, \<open>services/validation.py\<close> recomputes the totals from the stored
  lines and blocks a submission that does not reconcile (zero tolerance, by a registry
  of rules), and the \<open>edit_lines\<close> handler of \<open>api/routes/invoice_review.py\<close> joins them.
\<close>

section \<open>The rule registry\<close>

datatype rule_policy = Block | Advise
datatype rule_scope = ScopeHeader | ScopeLine | ScopeDocument

record validation_rule =
  vl_code :: string
  vl_policy :: rule_policy
  vl_tolerance :: decimal
  vl_scope :: rule_scope

definition rule_of :: "string \<Rightarrow> rule_policy \<Rightarrow> decimal \<Rightarrow> rule_scope \<Rightarrow> validation_rule" where
  "rule_of c p t s = \<lparr>vl_code = c, vl_policy = p, vl_tolerance = t, vl_scope = s\<rparr>"

definition RULES :: "validation_rule list" where
  "RULES =
    [rule_of ''recon_tax_rate_range'' Block 0 ScopeLine,
     rule_of ''recon_line_amount'' Block 0 ScopeLine,
     rule_of ''recon_subtotal'' Block 0 ScopeHeader,
     rule_of ''recon_tax'' Block 0 ScopeHeader,
     rule_of ''recon_total'' Block 0 ScopeHeader,
     rule_of ''missing_number'' Advise 0 ScopeHeader,
     rule_of ''no_lines'' Advise 0 ScopeDocument,
     rule_of ''subtotal_mismatch'' Advise (1 / 100) ScopeHeader,
     rule_of ''total_mismatch'' Advise (1 / 100) ScopeHeader,
     rule_of ''tax_mismatch'' Advise (2 / 100) ScopeHeader,
     rule_of ''line_math'' Advise (1 / 100) ScopeLine,
     rule_of ''non_positive_total'' Advise 0 ScopeHeader,
     rule_of ''future_date'' Advise 0 ScopeHeader,
     rule_of ''old_date'' Advise 0 ScopeHeader,
     rule_of ''due_before_issue'' Advise 0 ScopeHeader,
     rule_of ''unknown_currency'' Advise 0 ScopeHeader,
     rule_of ''duplicate'' Advise 0 ScopeDocument,
     rule_of ''duplicate_cross_supplier'' Advise 0 ScopeDocument,
     rule_of ''fx_deviation'' Advise 3 ScopeHeader,
     rule_of ''agreed_price_exceeded'' Advise (1 / 100) ScopeLine]"

definition rule :: "string \<Rightarrow> validation_rule option" where
  "rule code = find (\<lambda>r. vl_code r = code) RULES"

definition policy_of :: "string \<Rightarrow> rule_policy" where
  "policy_of code = (case rule code of Some r \<Rightarrow> vl_policy r | None \<Rightarrow> Advise)"

section \<open>Reconciliation\<close>

record reconciliation =
  rec_computed_subtotal :: decimal
  rec_computed_tax :: decimal
  rec_computed_total :: decimal
  rec_stated_subtotal :: decimal
  rec_stated_tax :: decimal
  rec_stated_total :: decimal
  rec_findings :: "string list"

definition rec_blocking :: "reconciliation \<Rightarrow> string list" where
  "rec_blocking r = filter (\<lambda>c. policy_of c = Block) (rec_findings r)"

definition rec_balanced :: "reconciliation \<Rightarrow> bool" where
  "rec_balanced r \<longleftrightarrow> rec_blocking r = []"

definition line_net :: "line_item \<Rightarrow> decimal" where
  "line_net li = q2 (li_amount li)"

definition line_tax :: "line_item \<Rightarrow> decimal" where
  "line_tax li = q2 (line_net li * li_tax_rate li / 100)"

definition line_findings :: "line_item \<Rightarrow> string list" where
  "line_findings li =
     (if li_tax_rate li < 0 \<or> 100 < li_tax_rate li then [''recon_tax_rate_range''] else []) @
     (if line_net li \<noteq> q2 (li_quantity li * li_unit_price li) then [''recon_line_amount''] else [])"

definition reconcile :: "supplier_invoice \<Rightarrow> reconciliation" where
  "reconcile si =
     (let csub = q2 (sum_list (map line_net (si_lines si)));
          ctax = q2 (sum_list (map line_tax (si_lines si)));
          ctot = q2 (csub + ctax);
          ssub = q2 (si_subtotal si); stax = q2 (si_tax_amount si); stot = q2 (si_total si)
      in \<lparr>rec_computed_subtotal = csub, rec_computed_tax = ctax, rec_computed_total = ctot,
          rec_stated_subtotal = ssub, rec_stated_tax = stax, rec_stated_total = stot,
          rec_findings = concat (map line_findings (si_lines si)) @
            (if csub \<noteq> ssub then [''recon_subtotal''] else []) @
            (if ctax \<noteq> stax then [''recon_tax''] else []) @
            (if ctot \<noteq> stot then [''recon_total''] else [])\<rparr>)"

section \<open>Building the lines\<close>

record line_in =
  ln_description :: string
  ln_quantity :: decimal
  ln_unit_price :: decimal
  ln_amount :: "decimal option"
  ln_tax_rate :: decimal
  ln_captured_tax :: "decimal option"
  ln_captured_gross :: "decimal option"

definition calculated :: "line_in \<Rightarrow> decimal \<times> decimal \<times> decimal" where
  "calculated l =
     (let net = q2 (case ln_amount l of Some a \<Rightarrow> a | None \<Rightarrow> ln_quantity l * ln_unit_price l);
          tax = q2 (net * ln_tax_rate l / 100)
      in (net, tax, q2 (net + tax)))"

definition built_line :: "line_in \<Rightarrow> line_item" where
  "built_line l =
     (case calculated l of (net, tax, gross) \<Rightarrow>
        \<lparr>li_description = ln_description l, li_quantity = ln_quantity l, li_unit_price = ln_unit_price l, li_amount = net,
         li_tax_rate = ln_tax_rate l, li_tax_amount = Some tax, li_gross_amount = Some gross,
         li_captured_tax = map_option q2 (ln_captured_tax l),
         li_captured_gross = map_option q2 (ln_captured_gross l)\<rparr>)"

definition build :: "line_in list \<Rightarrow> line_item list \<times> decimal \<times> decimal" where
  "build ls =
     (map built_line ls, q2 (sum_list (map (\<lambda>l. fst (calculated l)) ls)),
      q2 (sum_list (map (\<lambda>l. fst (snd (calculated l))) ls)))"

definition captured_differs :: "line_in \<Rightarrow> bool" where
  "captured_differs l =
     (case calculated l of (_, tax, gross) \<Rightarrow>
        (ln_captured_tax l \<noteq> None \<and> ln_captured_tax l \<noteq> Some tax) \<or>
        (ln_captured_gross l \<noteq> None \<and> ln_captured_gross l \<noteq> Some gross))"

definition source_amounts_match :: "line_item \<Rightarrow> bool option" where
  "source_amounts_match li =
     (let comparisons =
        concat (map (\<lambda>(captured, calc). case (captured, calc) of
            (Some a, Some b) \<Rightarrow> [a = b] | _ \<Rightarrow> [])
          [(li_captured_tax li, li_tax_amount li), (li_captured_gross li, li_gross_amount li)])
      in if comparisons = [] then None else Some (list_all id comparisons))"

text \<open>What the columns \<open>Numeric(12, 3)\<close>, \<open>Numeric(14, 2)\<close> and \<open>Numeric(5, 2)\<close> keep of a line.\<close>

definition stored_line :: "line_item \<Rightarrow> line_item" where
  "stored_line li = li\<lparr>li_quantity := q (li_quantity li) 3, li_unit_price := q2 (li_unit_price li),
     li_tax_rate := q2 (li_tax_rate li)\<rparr>"

section \<open>The VAT breakdown\<close>

record vat_group =
  vg_rate :: decimal
  vg_net :: decimal
  vg_tax :: "decimal option"
  vg_gross :: "decimal option"
  vg_count :: nat

definition add_opt :: "decimal option \<Rightarrow> decimal option \<Rightarrow> decimal option" where
  "add_opt a b = (case (a, b) of (Some x, Some y) \<Rightarrow> Some (x + y) | _ \<Rightarrow> None)"

definition into_group :: "line_item \<Rightarrow> vat_group \<Rightarrow> vat_group" where
  "into_group li g = g\<lparr>vg_net := vg_net g + li_amount li, vg_tax := add_opt (vg_tax g) (li_tax_amount li),
     vg_gross := add_opt (vg_gross g) (li_gross_amount li), vg_count := vg_count g + 1\<rparr>"

fun add_to_groups :: "line_item \<Rightarrow> vat_group list \<Rightarrow> vat_group list" where
  "add_to_groups li [] =
     [into_group li \<lparr>vg_rate = q2 (li_tax_rate li), vg_net = 0, vg_tax = Some 0, vg_gross = Some 0,
        vg_count = 0\<rparr>]"
| "add_to_groups li (g # gs) =
     (if vg_rate g = q2 (li_tax_rate li) then into_group li g # gs else g # add_to_groups li gs)"

record vat_breakdown =
  vb_rates :: "vat_group list"
  vb_complete :: bool
  vb_matches :: "bool option"

definition vat_breakdown_of :: "supplier_invoice \<Rightarrow> vat_breakdown" where
  "vat_breakdown_of si =
     (let rates = sort_key vg_rate (fold add_to_groups (si_lines si) []);
          complete = (rates \<noteq> [] \<and> (\<forall>g \<in> set rates. vg_tax g \<noteq> None \<and> vg_gross g \<noteq> None))
      in \<lparr>vb_rates = rates, vb_complete = complete,
          vb_matches = (if complete
            then Some (sum_list (map vg_net rates) = si_subtotal si \<and>
                       sum_list (map (the \<circ> vg_tax) rates) = si_tax_amount si \<and>
                       sum_list (map (the \<circ> vg_gross) rates) = si_total si)
            else None)\<rparr>)"

section \<open>Editing the lines: routes/invoice_review.py\<close>

definition with_lines ::
  "line_item list \<times> decimal \<times> decimal \<Rightarrow> decimal option \<Rightarrow> fx_source \<Rightarrow> supplier_invoice \<Rightarrow> supplier_invoice" where
  "with_lines built eur src si =
     (case built of (items, subtotal, tax_total) \<Rightarrow>
        si\<lparr>si_lines := map stored_line items, si_subtotal := q2 subtotal,
           si_tax_amount := q2 tax_total, si_total := q2 (subtotal + tax_total),
           si_total_eur := eur, si_fx_source := Some src, si_version := si_version si + 1\<rparr>)"

definition edit_lines ::
  "ecb_rate list \<Rightarrow> ident \<Rightarrow> int \<Rightarrow> line_in list \<Rightarrow> ap_books \<Rightarrow> ap_error + ap_books" where
  "edit_lines rates i version ls bk =
     (case get_si i bk of
        None \<Rightarrow> Inl ApNotFound
      | Some si \<Rightarrow>
          (case assert_version (si_version si) (Some version) of
             Inl e \<Rightarrow> Inl (ApWorkflow e)
           | Inr _ \<Rightarrow>
               if \<not> is_editable (si_state si) then Inl InvoiceLocked
               else if \<exists>l \<in> set ls. ln_tax_rate l < 0 \<or> 100 < ln_tax_rate l then Inl TaxRateOutOfRange
               else
                 (case build ls of (items, subtotal, tax_total) \<Rightarrow>
                    (case eur_total rates (q2 (subtotal + tax_total)) (si_currency si)
                            (si_issue_date si) (si_fx_rate si) of
                       Inl e \<Rightarrow> Inl (ApFx e)
                     | Inr (eur, src) \<Rightarrow>
                         Inr (audit_ap ''invoice.edit'' i
                           (put_si (with_lines (items, subtotal, tax_total) eur src si) bk))))))"

section \<open>Lemmas\<close>

lemma rule_policies [simp]:
  "policy_of ''recon_tax_rate_range'' = Block" "policy_of ''recon_line_amount'' = Block"
  "policy_of ''recon_subtotal'' = Block" "policy_of ''recon_tax'' = Block"
  "policy_of ''recon_total'' = Block"
  by (simp_all add: policy_of_def rule_def RULES_def rule_of_def)

text \<open>Only zero-tolerance rules block.\<close>

lemma blocking_zero_tolerance: "r \<in> set RULES \<Longrightarrow> vl_policy r = Block \<Longrightarrow> vl_tolerance r = 0"
  by (auto simp: RULES_def rule_of_def)

lemma line_findings_nil:
  "filter (\<lambda>c. policy_of c = Block) (line_findings li) = [] \<longleftrightarrow>
     0 \<le> li_tax_rate li \<and> li_tax_rate li \<le> 100 \<and> line_net li = q2 (li_quantity li * li_unit_price li)"
  by (auto simp: line_findings_def)

definition foots :: "supplier_invoice \<Rightarrow> bool" where
  "foots si \<longleftrightarrow> (\<forall>li \<in> set (si_lines si). 0 \<le> li_tax_rate li \<and> li_tax_rate li \<le> 100 \<and>
       line_net li = q2 (li_quantity li * li_unit_price li)) \<and>
     q2 (si_subtotal si) = sum_list (map line_net (si_lines si)) \<and>
     q2 (si_tax_amount si) = sum_list (map line_tax (si_lines si)) \<and>
     q2 (si_total si) = q2 (si_subtotal si) + q2 (si_tax_amount si)"

lemma line_grid [simp]: "on_cents (line_net li)" "on_cents (line_tax li)"
  by (simp_all add: line_net_def line_tax_def)

lemma reconcile_foots: "rec_balanced (reconcile si) \<longleftrightarrow> foots si"
proof -
  have sub: "q2 (sum_list (map line_net (si_lines si))) = sum_list (map line_net (si_lines si))"
    and tax: "q2 (sum_list (map line_tax (si_lines si))) = sum_list (map line_tax (si_lines si))"
    by (rule cents.rnd_sum_list, simp)+
  have add: "q2 (x + y) = x + y" if "on_cents x" "on_cents y" for x y
    by (rule cents.rnd_fix) (rule grid_add [OF that])
  have grids: "on_cents (sum_list (map line_net (si_lines si)))"
    "on_cents (sum_list (map line_tax (si_lines si)))"
    by (rule cents.sum_list_grid, simp)+
  show ?thesis
    unfolding foots_def rec_balanced_def rec_blocking_def reconcile_def Let_def
    by (auto simp: filter_concat sub tax add [OF grids] concat_eq_Nil_conv line_findings_nil
        o_def)
qed

lemma calculated_line:
  "on_grid 3 (ln_quantity l) \<Longrightarrow> on_cents (ln_unit_price l) \<Longrightarrow> on_cents (ln_tax_rate l) \<Longrightarrow>
     line_net (stored_line (built_line l)) = fst (calculated l) \<and>
     line_tax (stored_line (built_line l)) = fst (snd (calculated l))"
  by (simp add: stored_line_def built_line_def line_net_def line_tax_def calculated_def Let_def
      cents.rnd_fix dec.rnd_fix)

lemma edit_lines_Inr:
  assumes "edit_lines rates i version ls bk = Inr bk'"
  shows "\<exists>si eur src. get_si i bk = Some si \<and> si_version si = version \<and> si_state si = WDraft \<and>
    (\<forall>l \<in> set ls. 0 \<le> ln_tax_rate l \<and> ln_tax_rate l \<le> 100) \<and>
    eur_total rates (q2 (fst (snd (build ls)) + snd (snd (build ls)))) (si_currency si)
       (si_issue_date si) (si_fx_rate si) = Inr (eur, src) \<and>
    ap_invoices bk' = ap_invoices (put_si (with_lines (build ls) eur src si) bk)"
  using assms
  by (auto simp: edit_lines_def assert_version_def is_editable_def EDITABLE_def split_beta Let_def
      not_less split: option.splits if_splits sum.splits)

text \<open>The groups of the breakdown: one per rate, summing the lines.\<close>

lemma add_to_groups_rates:
  "set (map vg_rate (add_to_groups li gs)) = insert (q2 (li_tax_rate li)) (set (map vg_rate gs))"
  by (induction gs) (auto simp: into_group_def)

lemma add_to_groups_distinct:
  "distinct (map vg_rate gs) \<Longrightarrow> distinct (map vg_rate (add_to_groups li gs))"
proof (induction gs)
  case (Cons g gs)
  then show ?case using add_to_groups_rates [of li gs] by (auto simp: into_group_def)
qed (simp add: into_group_def)

lemma add_to_groups_sums:
  "sum_list (map vg_net (add_to_groups li gs)) = li_amount li + sum_list (map vg_net gs)"
  "sum_list (map vg_count (add_to_groups li gs)) = Suc (sum_list (map vg_count gs))"
  by (induction gs) (auto simp: into_group_def)

lemma fold_groups:
  "distinct (map vg_rate gs) \<Longrightarrow>
   distinct (map vg_rate (fold add_to_groups ls gs)) \<and>
   set (map vg_rate (fold add_to_groups ls gs)) = (q2 \<circ> li_tax_rate) ` set ls \<union> set (map vg_rate gs) \<and>
   sum_list (map vg_net (fold add_to_groups ls gs)) = sum_list (map li_amount ls) + sum_list (map vg_net gs) \<and>
   sum_list (map vg_count (fold add_to_groups ls gs)) = length ls + sum_list (map vg_count gs)"
proof (induction ls arbitrary: gs)
  case (Cons l ls)
  from Cons.IH [OF add_to_groups_distinct [OF Cons.prems, of l]] show ?case
    by (simp add: add_to_groups_rates [unfolded list.set_map] add_to_groups_sums)
qed simp

section \<open>Properties\<close>

text \<open>
  C11: the submit gate blocks exactly what does not foot. An invoice passes the blocking
  reconciliation if and only if every line has a rate between 0 and 100 and an amount that
  is quantity times price, and the stated subtotal, tax and total are the sums of the
  lines, of their rounded taxes, and of the two; a finding without a registered rule
  never blocks.
\<close>

theorem submit_gate_exact:
  "(rec_balanced (reconcile si) \<longleftrightarrow>
     (\<forall>li \<in> set (si_lines si). 0 \<le> li_tax_rate li \<and> li_tax_rate li \<le> 100 \<and>
        q2 (li_amount li) = q2 (li_quantity li * li_unit_price li)) \<and>
     q2 (si_subtotal si) = (\<Sum>li \<leftarrow> si_lines si. q2 (li_amount li)) \<and>
     q2 (si_tax_amount si) = (\<Sum>li \<leftarrow> si_lines si. q2 (q2 (li_amount li) * li_tax_rate li / 100)) \<and>
     q2 (si_total si) = q2 (si_subtotal si) + q2 (si_tax_amount si)) \<and>
   (rule code = None \<longrightarrow> code \<notin> set (rec_blocking (r\<lparr>rec_findings := codes\<rparr>)))"
  unfolding reconcile_foots foots_def line_net_def [abs_def] line_tax_def [abs_def]
  by (auto simp: rec_blocking_def policy_of_def)

theorem submit_gate_exact_witness:
  "rec_balanced (reconcile (sample_si\<lparr>si_lines := [\<lparr>li_description = ''x'', li_quantity = 10, li_unit_price = 10,
     li_amount = 100, li_tax_rate = 0, li_tax_amount = None, li_gross_amount = None,
     li_captured_tax = None, li_captured_gross = None\<rparr>]\<rparr>)) \<and>
   ''surprise'' \<notin> set (rec_blocking ((reconcile sample_si)\<lparr>rec_findings := [''surprise'']\<rparr>))"
proof -
  have "rule ''surprise'' = None" by (simp add: rule_def RULES_def rule_of_def)
  then have "''surprise'' \<notin> set (rec_blocking ((reconcile sample_si)\<lparr>rec_findings := [''surprise'']\<rparr>))"
    using submit_gate_exact [where code = "''surprise''" and codes = "[''surprise'']" and r = "reconcile sample_si"] by blast
  then show ?thesis
    by (simp add: submit_gate_exact [THEN conjunct1] sample_si_def)
qed

text \<open>
  What the editor produces passes the gate. When lines are entered without an amount
  and at the precision of their columns, an accepted edit of a draft leaves an invoice that
  reconciles, is one version newer and still a draft, whose total is subtotal plus tax and
  whose EUR figure satisfies the provenance CHECK.
\<close>

theorem edited_lines_reconcile:
  assumes step: "edit_lines rates i version ls bk = Inr bk'"
    and rates: "rates_ok rates"
    and entered: "\<forall>l \<in> set ls. ln_amount l = None \<and> on_grid 3 (ln_quantity l) \<and>
      on_cents (ln_unit_price l) \<and> on_cents (ln_tax_rate l)"
  shows "\<exists>si'. get_si i bk' = Some si' \<and> rec_balanced (reconcile si') \<and>
    si_version si' = version + 1 \<and> si_state si' = WDraft \<and>
    si_total si' = si_subtotal si' + si_tax_amount si' \<and>
    (si_total_eur si' = None \<longleftrightarrow> si_fx_source si' = Some SrcUnknown)"
proof -
  obtain si eur src where get: "get_si i bk = Some si" and v: "si_version si = version"
    and d: "si_state si = WDraft" and rng: "\<forall>l \<in> set ls. 0 \<le> ln_tax_rate l \<and> ln_tax_rate l \<le> 100"
    and fx: "eur_total rates (q2 (fst (snd (build ls)) + snd (snd (build ls)))) (si_currency si)
       (si_issue_date si) (si_fx_rate si) = Inr (eur, src)"
    and new: "ap_invoices bk' = ap_invoices (put_si (with_lines (build ls) eur src si) bk)"
    using edit_lines_Inr [OF step] by blast
  define si' where "si' = with_lines (build ls) eur src si"
  have si': "si_lines si' = map (stored_line \<circ> built_line) ls"
    "si_subtotal si' = q2 (\<Sum>l\<leftarrow>ls. fst (calculated l))"
    "si_tax_amount si' = q2 (\<Sum>l\<leftarrow>ls. fst (snd (calculated l)))"
    "si_total si' = q2 (si_subtotal si' + si_tax_amount si')"
    "si_version si' = version + 1" "si_state si' = WDraft" "si_id si' = si_id si"
    "si_total_eur si' = eur" "si_fx_source si' = Some src"
    by (simp_all add: si'_def with_lines_def build_def v d)
  have id: "si_id si' = i" using get_si_Some [OF get] si'(7) by simp
  have get': "get_si i bk' = Some si'"
    using get_put_si [of si' bk si] get new id by (simp add: get_si_def si'_def)
  have tot: "si_total si' = si_subtotal si' + si_tax_amount si'"
    unfolding si'(4) by (rule cents.rnd_fix, rule grid_add) (simp_all add: si'(2,3))
  have lines: "line_net (stored_line (built_line l)) = fst (calculated l)"
    "line_tax (stored_line (built_line l)) = fst (snd (calculated l))" if "l \<in> set ls" for l
    using calculated_line [of l] entered that by auto
  have sums: "sum_list (map (line_net \<circ> (stored_line \<circ> built_line)) ls) = sum_list (map (\<lambda>l. fst (calculated l)) ls)"
    "sum_list (map (line_tax \<circ> (stored_line \<circ> built_line)) ls) = sum_list (map (\<lambda>l. fst (snd (calculated l))) ls)"
    using lines by (auto intro!: arg_cong [of _ _ sum_list])
  have grids: "on_cents (sum_list (map (\<lambda>l. fst (calculated l)) ls))"
    "on_cents (sum_list (map (\<lambda>l. fst (snd (calculated l))) ls))"
    unfolding sums [symmetric] by (rule cents.sum_list_grid, simp)+
  have "line_net (stored_line (built_line l)) = q2 (ln_quantity l * ln_unit_price l)" if "l \<in> set ls" for l
    using lines(1) [OF that] entered that by (simp add: calculated_def Let_def)
  moreover have "line_net (stored_line (built_line l)) =
      q2 (li_quantity (stored_line (built_line l)) * li_unit_price (stored_line (built_line l)))"
    "0 \<le> li_tax_rate (stored_line (built_line l)) \<and> li_tax_rate (stored_line (built_line l)) \<le> 100"
    if "l \<in> set ls" for l
    using calculation [OF that] rng entered that
    by (simp_all add: stored_line_def built_line_def calculated_def Let_def dec.rnd_fix cents.rnd_fix)
  moreover have "q2 (si_total si') = q2 (si_subtotal si') + q2 (si_tax_amount si')"
    unfolding tot by (simp add: si'(2,3) cents.rnd_fix grid_add)
  ultimately have "foots si'"
    unfolding foots_def
    by (simp add: si'(1-3) sums cents.rnd_fix [OF grids(1)] cents.rnd_fix [OF grids(2)])
  moreover have "eur = None \<longleftrightarrow> src = SrcUnknown"
    using fx by (auto simp: eur_total_def Let_def split: if_splits sum.splits option.splits)
  ultimately show ?thesis
    using get' tot si'(5,6,8,9) by (simp add: reconcile_foots)
qed

definition sample_draft :: ap_books where
  "sample_draft = sample_ap_books\<lparr>ap_invoices := [sample_si\<lparr>si_state := WDraft\<rparr>]\<rparr>"

definition sample_line :: line_in where
  "sample_line = \<lparr>ln_description = ''Pallet'', ln_quantity = 3, ln_unit_price = 7, ln_amount = None, ln_tax_rate = 21,
     ln_captured_tax = None, ln_captured_gross = None\<rparr>"

lemma sample_edit: "\<exists>bk'. edit_lines [] ''ap-1'' 1 [l] sample_draft = Inr bk'"
  if "0 \<le> ln_tax_rate l" "ln_tax_rate l \<le> 100"
proof -
  have "py_upper ''EUR'' = ''EUR''" by code_simp
  then have "eur_total [] x ''EUR'' d None = Inr (Some (q2 x), SrcEur)" for x d
    by (simp add: eur_total_def)
  with that show ?thesis
    by (auto simp: edit_lines_def sample_draft_def sample_ap_books_def sample_si_def get_si_def
        assert_version_def is_editable_def EDITABLE_def build_def)
qed

theorem edited_lines_reconcile_witness:
  "\<exists>bk' si'. edit_lines [] ''ap-1'' 1 [sample_line] sample_draft = Inr bk' \<and>
     get_si ''ap-1'' bk' = Some si' \<and> rec_balanced (reconcile si')"
proof -
  obtain bk' where "edit_lines [] ''ap-1'' 1 [sample_line] sample_draft = Inr bk'"
    using sample_edit [of sample_line] by (auto simp: sample_line_def)
  then show ?thesis
    using edited_lines_reconcile [of "[]" "''ap-1''" 1 "[sample_line]" sample_draft bk']
    by (auto simp: rates_ok_def sample_line_def)
qed

text \<open>
  Outside the precision of the columns the editor and the gate disagree: ten units at
  0.125 are accepted with the amount 1.25, but the stored price is 0.13 and the same
  invoice is then refused at submission.
\<close>

lemma offgrid_line_refused:
  "\<exists>bk' si'. edit_lines [] ''ap-1'' 1 [sample_line\<lparr>ln_quantity := 10, ln_unit_price := 1 / 8\<rparr>] sample_draft
     = Inr bk' \<and> get_si ''ap-1'' bk' = Some si' \<and> \<not> rec_balanced (reconcile si')"
  (is "\<exists>bk' si'. edit_lines _ _ _ [?l] _ = _ \<and> _")
proof -
  obtain bk' where step: "edit_lines [] ''ap-1'' 1 [?l] sample_draft = Inr bk'"
    using sample_edit [of ?l] by (auto simp: sample_line_def)
  then obtain si eur src where get: "get_si ''ap-1'' sample_draft = Some si"
    and new: "ap_invoices bk' = ap_invoices (put_si (with_lines (build [?l]) eur src si) sample_draft)"
    using edit_lines_Inr by blast
  let ?si = "with_lines (build [?l]) eur src si"
  have "si_id ?si = ''ap-1''" using get_si_Some [OF get] by (simp add: with_lines_def build_def)
  then have get': "get_si ''ap-1'' bk' = Some ?si"
    using get_put_si [of ?si sample_draft si] get new by (simp add: get_si_def)
  have "half_up 125 = 125" "half_up (25 / 2) = 13" "half_up 130 = 130" "half_up 10000 = 10000"
    using half_up_of_int [of 125] half_up_of_int [of 130] half_up_of_int [of 10000]
    by (simp_all add: half_up_eval)
  then have "\<not> foots ?si"
    by (auto simp: foots_def with_lines_def build_def built_line_def calculated_def Let_def
        stored_line_def line_net_def sample_line_def q2_def q_def)
  with step get' show ?thesis by (auto simp: reconcile_foots)
qed

text \<open>
  The VAT breakdown partitions the invoice. Its rates are strictly increasing and are
  the (rounded) rates of the lines, every line is counted in exactly one group, and the
  group nets add up to the line amounts without rounding anew.
\<close>

theorem vat_breakdown_partitions:
  "sorted (map vg_rate (vb_rates (vat_breakdown_of si))) \<and>
   distinct (map vg_rate (vb_rates (vat_breakdown_of si))) \<and>
   set (map vg_rate (vb_rates (vat_breakdown_of si))) = (q2 \<circ> li_tax_rate) ` set (si_lines si) \<and>
   sum_list (map vg_count (vb_rates (vat_breakdown_of si))) = length (si_lines si) \<and>
   sum_list (map vg_net (vb_rates (vat_breakdown_of si))) = sum_list (map li_amount (si_lines si))"
  using fold_groups [of "[]" "si_lines si"]
  by (simp add: vat_breakdown_of_def Let_def sum_list_sort_key distinct_map)

end
