(* ===== verification/AgreedPrices.thy ===== *)
theory AgreedPrices
  imports Validation
begin

text \<open>
  \<open>services/agreed_prices.py\<close>: the prices agreed with suppliers, their upsert, the price
  in force on a date, the finding per overcharged line that the submit gate may escalate,
  and the read model of past overcharges. An item is identified by its stripped,
  lower-cased description; SQL's \<open>lower(trim(x))\<close> and Python's \<open>strip().lower()\<close> are
  the same function on ASCII text padded with spaces.
\<close>

record agreed_price =
  gp_vendor :: ident
  gp_item :: string
  gp_currency :: string
  gp_price :: decimal
  gp_from :: date
  gp_to :: "date option"
  gp_note :: "string option"

datatype price_error = SupplierNotFound | ItemRequired | PriceNotPositive | WindowInverted

definition normalize_item :: "string \<Rightarrow> string" where
  "normalize_item s = py_lower (py_strip s)"

type_synonym price_key = "ident \<times> string \<times> string \<times> date"

definition price_key :: "agreed_price \<Rightarrow> price_key" where
  "price_key g = (gp_vendor g, gp_item g, gp_currency g, gp_from g)"

fun put_price :: "agreed_price \<Rightarrow> agreed_price list \<Rightarrow> agreed_price list" where
  "put_price g [] = [g]"
| "put_price g (x # xs) =
     (if price_key x = price_key g
      then x\<lparr>gp_price := gp_price g, gp_to := gp_to g, gp_note := gp_note g\<rparr> # xs
      else x # put_price g xs)"

definition upsert_price ::
  "ident list \<Rightarrow> ident \<Rightarrow> string \<Rightarrow> decimal \<Rightarrow> string \<Rightarrow> date option \<Rightarrow> date option \<Rightarrow> string option \<Rightarrow>
   date \<Rightarrow> agreed_price list \<Rightarrow> price_error + agreed_price list" where
  "upsert_price vendors vendor item price currency valid_from valid_to nt today ps =
     (if vendor \<notin> set vendors then Inl SupplierNotFound
      else let key = normalize_item item in
        if key = [] then Inl ItemRequired
        else if price \<le> 0 then Inl PriceNotPositive
        else let frm = (case valid_from of None \<Rightarrow> today | Some d \<Rightarrow> d) in
          if (case valid_to of None \<Rightarrow> False | Some t \<Rightarrow> t < frm) then Inl WindowInverted
          else Inr (put_price \<lparr>gp_vendor = vendor, gp_item = key, gp_currency = py_upper currency,
                      gp_price = price, gp_from = frm, gp_to = valid_to, gp_note = nt\<rparr> ps))"

definition in_force :: "agreed_price \<Rightarrow> date \<Rightarrow> bool" where
  "in_force g d \<longleftrightarrow> gp_from g \<le> d \<and> (case gp_to g of None \<Rightarrow> True | Some t \<Rightarrow> d \<le> t)"

definition candidates ::
  "agreed_price list \<Rightarrow> ident \<Rightarrow> string \<Rightarrow> string \<Rightarrow> date \<Rightarrow> agreed_price list" where
  "candidates ps vendor item currency d =
     filter (\<lambda>g. gp_vendor g = vendor \<and> gp_item g = item \<and> gp_currency g = currency \<and> in_force g d) ps"

definition active_price ::
  "agreed_price list \<Rightarrow> ident \<Rightarrow> string \<Rightarrow> string \<Rightarrow> date \<Rightarrow> decimal option" where
  "active_price ps vendor item currency d =
     map_option gp_price (first_of (sort_key (\<lambda>g. - gp_from g)
       (candidates ps vendor (normalize_item item) (py_upper currency) d)))"

definition price_tolerance :: decimal where
  "price_tolerance = (case rule ''agreed_price_exceeded'' of Some r \<Rightarrow> vl_tolerance r | None \<Rightarrow> 0)"

definition or_eur :: "string \<Rightarrow> string" where
  "or_eur c = (if c = [] then ''EUR'' else c)"

definition line_exceeds :: "agreed_price list \<Rightarrow> supplier_invoice \<Rightarrow> line_item \<Rightarrow> bool" where
  "line_exceeds ps si li \<longleftrightarrow>
     \<not> (li_quantity li \<le> 0 \<or> li_unit_price li \<le> 0) \<and>
     (case active_price ps (si_vendor si) (li_description li) (or_eur (si_currency si)) (si_issue_date si) of
        None \<Rightarrow> False
      | Some agreed \<Rightarrow> price_tolerance < li_unit_price li - agreed)"

definition check_invoice :: "agreed_price list \<Rightarrow> supplier_invoice \<Rightarrow> line_item list" where
  "check_invoice ps si = filter (line_exceeds ps si) (si_lines si)"

record overcharge_row =
  ov_invoice :: ident
  ov_currency :: string
  ov_item :: string
  ov_quantity :: decimal
  ov_unit :: decimal
  ov_agreed :: decimal
  ov_over :: decimal

text \<open>\<open>max(candidates, key=valid_from)\<close>: the first of the latest.\<close>

definition latest :: "agreed_price list \<Rightarrow> agreed_price option" where
  "latest gs = first_of (sort_key (\<lambda>g. - gp_from g) gs)"

definition overcharge_row_of ::
  "agreed_price list \<Rightarrow> supplier_invoice \<Rightarrow> line_item \<Rightarrow> overcharge_row list" where
  "overcharge_row_of ps si li =
     (let item = normalize_item (li_description li) in
      if \<not> (0 < li_quantity li \<and> 0 < li_unit_price li) then []
      else
        (case latest (candidates ps (si_vendor si) item (py_upper (or_eur (si_currency si))) (si_issue_date si)) of
           None \<Rightarrow> []
         | Some g \<Rightarrow>
             if li_unit_price li \<le> gp_price g then []
             else [\<lparr>ov_invoice = si_id si, ov_currency = si_currency si, ov_item = item,
                    ov_quantity = li_quantity li, ov_unit = li_unit_price li, ov_agreed = gp_price g,
                    ov_over = (li_unit_price li - gp_price g) * li_quantity li\<rparr>]))"

definition overcharge_worklist ::
  "agreed_price list \<Rightarrow> supplier_invoice list \<Rightarrow> int \<Rightarrow> date \<Rightarrow> decimal \<times> overcharge_row list" where
  "overcharge_worklist ps ivs window_days today =
     (let rows = concat (map (\<lambda>si. concat (map (overcharge_row_of ps si) (si_lines si)))
        (sort_key (\<lambda>si. - si_issue_date si)
          (filter (\<lambda>si. today - window_days \<le> si_issue_date si \<and> si_vendor si \<in> gp_vendor ` set ps) ivs)))
      in (q2 (sum_list (map ov_over rows)), rows))"

section \<open>Lemmas\<close>

definition prices_ok :: "agreed_price list \<Rightarrow> bool" where
  "prices_ok ps \<longleftrightarrow> distinct (map price_key ps) \<and> (\<forall>g \<in> set ps. 0 < gp_price g)"

lemma price_key_upd [simp]: "price_key (x\<lparr>gp_price := p, gp_to := t, gp_note := n\<rparr>) = price_key x"
  by (simp add: price_key_def)

lemma put_price_keys: "set (map price_key (put_price g ps)) = insert (price_key g) (set (map price_key ps))"
  by (induction ps) auto

lemma put_price_ok: "prices_ok ps \<Longrightarrow> 0 < gp_price g \<Longrightarrow> prices_ok (put_price g ps)"
proof -
  have "distinct (map price_key ps) \<Longrightarrow> distinct (map price_key (put_price g ps))"
  proof (induction ps)
    case (Cons x xs)
    then show ?case using put_price_keys [of g xs] by auto
  qed simp
  moreover have "(\<forall>x \<in> set ps. 0 < gp_price x) \<Longrightarrow> 0 < gp_price g \<Longrightarrow>
      (\<forall>x \<in> set (put_price g ps). 0 < gp_price x)"
    by (induction ps) auto
  ultimately show "prices_ok ps \<Longrightarrow> 0 < gp_price g \<Longrightarrow> prices_ok (put_price g ps)"
    by (simp add: prices_ok_def)
qed

text \<open>An upsert changes no candidate of another supplier, item or currency.\<close>

lemma candidates_other:
  "(vendor, item, cur) \<noteq> (gp_vendor g, gp_item g, gp_currency g) \<Longrightarrow>
     candidates (put_price g ps) vendor item cur d = candidates ps vendor item cur d"
  by (induction ps) (auto simp: candidates_def price_key_def)

lemma put_price_mem:
  "\<exists>g' \<in> set (put_price g ps). price_key g' = price_key g \<and> gp_price g' = gp_price g \<and> gp_to g' = gp_to g"
  by (induction ps) (auto simp: price_key_def)

lemma put_price_new:
  "distinct (map price_key ps) \<Longrightarrow> g' \<in> set (put_price g ps) \<Longrightarrow>
     price_key g' = price_key g \<and> gp_price g' = gp_price g \<or> g' \<in> set ps \<and> price_key g' \<noteq> price_key g"
proof (induction ps)
  case (Cons x xs)
  show ?case
  proof (cases "price_key x = price_key g")
    case True
    with Cons.prems consider "g' = x\<lparr>gp_price := gp_price g, gp_to := gp_to g, gp_note := gp_note g\<rparr>"
      | "g' \<in> set xs" by auto
    then show ?thesis
    proof cases
      case 1
      with True show ?thesis by simp
    next
      case 2
      with Cons.prems(1) True show ?thesis by (metis distinct.simps(2) image_eqI list.set_map list.simps(9) list.set_intros(2))
    qed
  next
    case False
    with Cons show ?thesis by auto
  qed
qed simp

lemma latest_first:
  assumes "first_of (sort_key (\<lambda>g. - gp_from g) gs) = Some g"
  shows "g \<in> set gs" "\<And>h. h \<in> set gs \<Longrightarrow> gp_from h \<le> gp_from g"
proof -
  obtain hs where hs: "sort_key (\<lambda>g. - gp_from g) gs = g # hs"
    using assms by (cases "sort_key (\<lambda>g. - gp_from g) gs") (auto simp: first_of_def)
  show "g \<in> set gs" using arg_cong [OF hs, of set] by auto
  fix h assume "h \<in> set gs"
  then have "h \<in> set (g # hs)" using arg_cong [OF hs, of set] by auto
  moreover have "sorted (map (\<lambda>g. - gp_from g) (g # hs))"
    using sorted_sort_key [of "\<lambda>g. - gp_from g" gs] by (simp add: hs)
  ultimately show "gp_from h \<le> gp_from g" by auto
qed

lemma active_latest: "active_price ps v item c d =
    map_option gp_price (latest (candidates ps v (normalize_item item) (py_upper c) d))"
  by (simp add: active_price_def latest_def)

lemma price_tolerance_value: "price_tolerance = 1 / 100"
  by (simp add: price_tolerance_def rule_def RULES_def rule_of_def)

section \<open>Properties\<close>

text \<open>
  Setting a price. An accepted upsert keeps the list free of duplicate windows and of
  non-positive prices, is what a lookup inside the new window returns unless a later window
  covers the date, and leaves every other supplier, item and currency as it was.
\<close>

theorem agreed_price_lookup:
  assumes ok: "prices_ok ps"
    and step: "upsert_price vendors v item price currency (Some frm) till nt today ps = Inr ps'"
    and window: "frm \<le> d" "case till of None \<Rightarrow> True | Some t \<Rightarrow> d \<le> t"
    and newest: "\<forall>g \<in> set (candidates ps v (normalize_item item) (py_upper currency) d). gp_from g \<le> frm"
  shows "prices_ok ps' \<and> active_price ps' v item currency d = Some price \<and>
    ((w, normalize_item other, py_upper cur) \<noteq> (v, normalize_item item, py_upper currency) \<longrightarrow>
       active_price ps' w other cur d' = active_price ps w other cur d')"
proof -
  define g where "g = \<lparr>gp_vendor = v, gp_item = normalize_item item, gp_currency = py_upper currency,
    gp_price = price, gp_from = frm, gp_to = till, gp_note = nt\<rparr>"
  have pos: "0 < price" and ps': "ps' = put_price g ps"
    using step by (auto simp: upsert_price_def g_def Let_def split: if_splits option.splits)
  let ?c = "\<lambda>qs. candidates qs v (normalize_item item) (py_upper currency) d"
  obtain h where h: "h \<in> set ps'" "price_key h = price_key g" "gp_price h = price" "gp_to h = till"
    using put_price_mem [of g ps] by (auto simp: ps' g_def)
  have hc: "h \<in> set (?c ps')"
    using h window by (auto simp: candidates_def in_force_def price_key_def g_def)
  have "latest (?c ps') \<noteq> None"
    using hc by (auto simp: latest_def) (metis empty_iff empty_set set_sort)
  then obtain k where k: "latest (?c ps') = Some k" by blast
  then have kc: "k \<in> set (?c ps')" and max: "\<And>h. h \<in> set (?c ps') \<Longrightarrow> gp_from h \<le> gp_from k"
    using latest_first [of "?c ps'" k] by (auto simp: latest_def)
  have "gp_price k = price"
  proof (rule ccontr)
    assume ne: "gp_price k \<noteq> price"
    then have "k \<in> set ps" "price_key k \<noteq> price_key g"
      using put_price_new [of ps k g] kc ok
      by (auto simp: candidates_def ps' prices_ok_def g_def)
    moreover from this have "gp_from k \<le> frm"
      using newest kc by (auto simp: candidates_def)
    ultimately show False
      using max [OF hc] h kc by (auto simp: price_key_def g_def candidates_def)
  qed
  moreover have "prices_ok ps'"
    unfolding ps' using ok pos by (intro put_price_ok) (simp_all add: g_def)
  moreover have "active_price ps' w other cur d' = active_price ps w other cur d'"
    if "(w, normalize_item other, py_upper cur) \<noteq> (v, normalize_item item, py_upper currency)"
    using that candidates_other [of w "normalize_item other" "py_upper cur" g ps d']
    by (simp add: active_latest ps' g_def)
  ultimately show ?thesis
    using k by (simp add: active_latest)
qed

theorem agreed_price_lookup_witness:
  "\<exists>ps'. upsert_price [''v-1''] ''v-1'' '' Diesel '' 2 ''EUR'' (Some 5) None None 9 [] = Inr ps' \<and>
     active_price ps' ''v-1'' '' Diesel '' ''EUR'' 7 = Some 2"
proof -
  have "normalize_item '' Diesel '' = ''diesel''" by code_simp
  then have ne: "normalize_item '' Diesel '' \<noteq> []" by simp
  then obtain ps' where step: "upsert_price [''v-1''] ''v-1'' '' Diesel '' 2 ''EUR'' (Some 5) None None 9 []
      = Inr ps'"
    by (simp add: upsert_price_def Let_def)
  moreover have "prices_ok []" by (simp add: prices_ok_def)
  ultimately show ?thesis
    using agreed_price_lookup [of "[]" "[''v-1'']" "''v-1''" "'' Diesel ''" 2 "''EUR''" 5 None None 9 ps' 7]
    by (simp add: candidates_def)
qed

text \<open>
  The gate and the read model agree. Every line the submit check flags for an
  invoice inside the window is listed by the overcharge read model, with a positive
  overcharge and at the agreed price that was in force.
\<close>

theorem flagged_lines_are_listed:
  assumes "li \<in> set (check_invoice ps si)" "si \<in> set ivs" "today - days \<le> si_issue_date si"
  shows "\<exists>row \<in> set (snd (overcharge_worklist ps ivs days today)).
    ov_invoice row = si_id si \<and> ov_unit row = li_unit_price li \<and> 0 < ov_over row \<and>
    active_price ps (si_vendor si) (li_description li) (or_eur (si_currency si)) (si_issue_date si)
      = Some (ov_agreed row)"
proof -
  let ?cs = "candidates ps (si_vendor si) (normalize_item (li_description li))
    (py_upper (or_eur (si_currency si))) (si_issue_date si)"
  have li: "li \<in> set (si_lines si)" "0 < li_quantity li" "0 < li_unit_price li"
    using assms(1) by (auto simp: check_invoice_def line_exceeds_def)
  obtain g where g: "latest ?cs = Some g" "gp_price g < li_unit_price li"
    using assms(1)
    by (auto simp: check_invoice_def line_exceeds_def active_latest price_tolerance_value
        split: option.splits)
  have "g \<in> set ?cs" using latest_first(1) [of ?cs g] g(1) by (simp add: latest_def)
  then have vendor: "si_vendor si \<in> gp_vendor ` set ps"
    by (auto simp: candidates_def intro: rev_image_eqI)
  define row where "row = \<lparr>ov_invoice = si_id si, ov_currency = si_currency si,
    ov_item = normalize_item (li_description li), ov_quantity = li_quantity li,
    ov_unit = li_unit_price li, ov_agreed = gp_price g,
    ov_over = (li_unit_price li - gp_price g) * li_quantity li\<rparr>"
  have "row \<in> set (overcharge_row_of ps si li)"
    using li g by (simp add: overcharge_row_of_def row_def)
  then have "row \<in> set (snd (overcharge_worklist ps ivs days today))"
    using li(1) assms(2,3) vendor by (auto simp: overcharge_worklist_def Let_def)
  moreover have "0 < ov_over row" using li g by (simp add: row_def)
  moreover have "ov_invoice row = si_id si" "ov_unit row = li_unit_price li" "ov_agreed row = gp_price g"
    by (simp_all add: row_def)
  ultimately show ?thesis using g(1) by (auto simp: active_latest)
qed

theorem flagged_lines_are_listed_witness:
  "\<exists>g si li row. li \<in> set (check_invoice [g] si) \<and> gp_price g = 2 \<and> li_unit_price li = 3 \<and>
     row \<in> set (snd (overcharge_worklist [g] [si] 90 10)) \<and> ov_unit row = 3 \<and> 0 < ov_over row"
proof -
  define li where "li = \<lparr>li_description = '' Diesel '', li_quantity = 4, li_unit_price = 3,
     li_amount = 12, li_tax_rate = 0, li_tax_amount = None, li_gross_amount = None,
     li_captured_tax = None, li_captured_gross = (None :: decimal option)\<rparr>"
  define si where "si = sample_si\<lparr>si_vendor := ''v-1'', si_currency := ''EUR'', si_issue_date := 8,
     si_lines := [li]\<rparr>"
  define g where "g = \<lparr>gp_vendor = ''v-1'', gp_item = ''diesel'', gp_currency = ''EUR'',
     gp_price = 2, gp_from = 5, gp_to = None, gp_note = (None :: string option)\<rparr>"
  have "normalize_item '' Diesel '' = ''diesel''" and "py_upper ''EUR'' = ''EUR''" by code_simp+
  then have flagged: "li \<in> set (check_invoice [g] si)"
    by (simp add: check_invoice_def line_exceeds_def active_price_def candidates_def in_force_def
        first_of_def price_tolerance_value or_eur_def li_def si_def g_def)
  have "10 - 90 \<le> si_issue_date si" by (simp add: si_def)
  then obtain row where "row \<in> set (snd (overcharge_worklist [g] [si] 90 10))"
      "ov_unit row = li_unit_price li" "0 < ov_over row"
    using flagged_lines_are_listed [OF flagged, of "[si]" 10 90] by auto
  then show ?thesis using flagged by (intro exI) (auto simp: g_def li_def)
qed

end
