(* ===== verification/InvoiceReview.thy ===== *)
theory InvoiceReview
  imports AgreedPrices
begin

text \<open>
  Approval of supplier invoices: \<open>services/approval_policy.py\<close> (policy evaluation, the
  chain of steps and the state derived from it, the cross-invoice inbox) and the handlers
  of \<open>api/routes/invoice_review.py\<close> that submit, decide, return, reassign and move an
  invoice. Mail is left out; audit actions, webhook events and comments are part of the
  books. Ids and the current time are arguments.
\<close>

section \<open>Policies\<close>

text \<open>\<open>po_approver_ids\<close> is the decoded JSON array, empty for NULL or malformed text.\<close>

record policy =
  po_id :: ident
  po_active :: bool
  po_priority :: int
  po_created_at :: instant
  po_min_amount :: "decimal option"
  po_department :: "ident option"
  po_cost_center :: "ident option"
  po_legal_entity :: "ident option"
  po_vendor :: "ident option"
  po_approver_ids :: "ident list"
  po_finance_final :: bool
  po_finance_approver :: "ident option"

record actor =
  ac_id :: ident
  ac_email :: string
  ac_platform_admin :: bool

definition invoice_amount_eur :: "supplier_invoice \<Rightarrow> decimal" where
  "invoice_amount_eur si = (case si_total_eur si of Some v \<Rightarrow> v | None \<Rightarrow> si_total si)"

definition criterion :: "ident option \<Rightarrow> ident option \<Rightarrow> bool" where
  "criterion want have \<longleftrightarrow> \<not> truthy want \<or> have = want"

definition matches :: "policy \<Rightarrow> supplier_invoice \<Rightarrow> bool" where
  "matches p si \<longleftrightarrow>
     (case po_min_amount p of None \<Rightarrow> True | Some m \<Rightarrow> m \<le> invoice_amount_eur si) \<and>
     criterion (po_department p) (si_department si) \<and>
     criterion (po_cost_center p) (si_cost_center si) \<and>
     criterion (po_legal_entity p) (si_legal_entity si) \<and>
     criterion (po_vendor p) (Some (si_vendor si))"

definition by_priority :: "policy list \<Rightarrow> policy list" where
  "by_priority ps = sort_key po_priority (sort_key po_created_at ps)"

definition evaluate :: "policy list \<Rightarrow> supplier_invoice \<Rightarrow> policy option" where
  "evaluate ps si = find (\<lambda>p. matches p si) (by_priority (filter po_active ps))"

definition approver_ids :: "policy option \<Rightarrow> ident list" where
  "approver_ids p = (case p of None \<Rightarrow> [] | Some p \<Rightarrow> filter (\<lambda>x. x \<noteq> []) (po_approver_ids p))"

section \<open>The chain\<close>

definition new_step ::
  "(nat \<Rightarrow> ident) \<Rightarrow> ident \<Rightarrow> policy option \<Rightarrow> nat \<Rightarrow> step_kind \<Rightarrow> ident option \<Rightarrow> approval_step" where
  "new_step gen i p seq kind approver =
     \<lparr>as_id = gen seq, as_invoice = i, as_policy = map_option po_id p, as_seq = seq, as_kind = kind,
      as_approver = approver, as_status = StepPending, as_decided_by = None, as_decided_at = None,
      as_note = None, as_approver_email = None, as_decided_email = None\<rparr>"

definition build_chain :: "(nat \<Rightarrow> ident) \<Rightarrow> ident \<Rightarrow> policy option \<Rightarrow> approval_step list" where
  "build_chain gen i p =
     (let ids = approver_ids p;
          steps = map (\<lambda>(seq, a). new_step gen i p seq KindApprover (Some a)) (List.enumerate 0 ids) @
            (case p of
               None \<Rightarrow> []
             | Some pol \<Rightarrow>
                 if po_finance_final pol
                 then [new_step gen i p (length ids) KindFinanceFinal (po_finance_approver pol)]
                 else [])
      in if steps = [] then [new_step gen i p 0 KindApprover None] else steps)"

definition steps_for :: "ident \<Rightarrow> ap_books \<Rightarrow> approval_step list" where
  "steps_for i bk = sort_key as_seq (filter (\<lambda>s. as_invoice s = i) (ap_steps bk))"

definition pending_step :: "approval_step list \<Rightarrow> approval_step option" where
  "pending_step steps = find (\<lambda>s. as_status s = StepPending) (sort_key as_seq steps)"

definition chain_state :: "approval_step list \<Rightarrow> workflow_state" where
  "chain_state steps =
     (if \<exists>s \<in> set steps. as_status s = StepRejected then WRejected
      else if filter (\<lambda>s. as_status s = StepPending) steps = [] then WApproved
      else if filter (\<lambda>s. as_status s = StepApproved) steps \<noteq> [] then WPartiallyApproved
      else WSubmitted)"

definition is_assigned_approver :: "approval_step \<Rightarrow> actor \<Rightarrow> bool" where
  "is_assigned_approver s u \<longleftrightarrow>
     (case as_approver s of
        None \<Rightarrow> True
      | Some a \<Rightarrow> ac_platform_admin u \<or> a = ac_id u)"

definition skip_step :: "approval_step \<Rightarrow> approval_step" where
  "skip_step s = (if as_status s = StepPending then s\<lparr>as_status := StepSkipped\<rparr> else s)"

definition skip_pending :: "ident \<Rightarrow> ap_books \<Rightarrow> ap_books" where
  "skip_pending i bk =
     bk\<lparr>ap_steps := map (\<lambda>s. if as_invoice s = i then skip_step s else s) (ap_steps bk)\<rparr>"

definition put_step :: "approval_step \<Rightarrow> ap_books \<Rightarrow> ap_books" where
  "put_step st bk =
     bk\<lparr>ap_steps := map (\<lambda>s. if as_id s = as_id st then st else s) (ap_steps bk)\<rparr>"

definition drop_chain :: "ident \<Rightarrow> ap_books \<Rightarrow> ap_books" where
  "drop_chain i bk = bk\<lparr>ap_steps := filter (\<lambda>s. as_invoice s \<noteq> i) (ap_steps bk)\<rparr>"

section \<open>The inbox\<close>

definition in_approval :: "workflow_state \<Rightarrow> bool" where
  "in_approval s \<longleftrightarrow> s \<in> {WSubmitted, WPartiallyApproved}"

definition inbox_step :: "ap_books \<Rightarrow> ident \<Rightarrow> bool \<Rightarrow> approval_step \<Rightarrow> bool" where
  "inbox_step bk user_id can_approve_any s \<longleftrightarrow>
     as_status s = StepPending \<and>
     (case get_si (as_invoice s) bk of
        None \<Rightarrow> False
      | Some si \<Rightarrow> in_approval (si_state si) \<and> si_submitted_by si \<noteq> Some user_id) \<and>
     (as_approver s = Some user_id \<or> can_approve_any \<and> as_approver s = None) \<and>
     \<not> (\<exists>e \<in> set (ap_steps bk). as_invoice e = as_invoice s \<and> as_status e = StepPending \<and>
          as_seq e < as_seq s)"

definition submitted_rank :: "ap_books \<Rightarrow> approval_step \<Rightarrow> instant" where
  "submitted_rank bk s =
     (case get_si (as_invoice s) bk of
        Some si \<Rightarrow> (case si_submitted_at si of Some t \<Rightarrow> - t | None \<Rightarrow> 0)
      | None \<Rightarrow> 0)"

definition unsubmitted :: "ap_books \<Rightarrow> approval_step \<Rightarrow> bool" where
  "unsubmitted bk s \<longleftrightarrow>
     (case get_si (as_invoice s) bk of Some si \<Rightarrow> si_submitted_at si = None | None \<Rightarrow> True)"

definition waiting_for :: "ap_books \<Rightarrow> ident \<Rightarrow> bool \<Rightarrow> nat \<Rightarrow> ident list" where
  "waiting_for bk user_id can_approve_any limit =
     (let rows = filter (inbox_step bk user_id can_approve_any) (ap_steps bk);
          ranked = sort_key (submitted_rank bk) (sort_key as_seq rows)
      in take limit (map as_invoice (filter (\<lambda>s. \<not> unsubmitted bk s) ranked @ filter (unsubmitted bk) ranked)))"

section \<open>The handlers\<close>

definition bump :: "supplier_invoice \<Rightarrow> supplier_invoice" where
  "bump si = si\<lparr>si_version := si_version si + 1\<rparr>"

definition comment_ap :: "ident \<Rightarrow> string \<Rightarrow> string option \<Rightarrow> ap_books \<Rightarrow> ap_books" where
  "comment_ap i prefix nt bk =
     (if truthy nt then bk\<lparr>ap_comments := ap_comments bk @ [(i, prefix @ the nt)]\<rparr> else bk)"

definition email_for :: "ident option \<Rightarrow> ap_books \<Rightarrow> string option" where
  "email_for uid bk = (if truthy uid then map_of (ap_users bk) (the uid) else None)"

definition notify :: "string option \<Rightarrow> string \<Rightarrow> ident \<Rightarrow> ap_books \<Rightarrow> ap_books" where
  "notify to_email subject i bk =
     (if truthy to_email then bk\<lparr>ap_mail := ap_mail bk @ [(the to_email, subject, i)]\<rparr> else bk)"

text \<open>The next approver of a chain, if a step is still pending, is told.\<close>

definition notify_next :: "approval_step list \<Rightarrow> supplier_invoice \<Rightarrow> ap_books \<Rightarrow> ap_books" where
  "notify_next steps si bk =
     (case pending_step steps of
        None \<Rightarrow> bk
      | Some nxt \<Rightarrow>
          notify (email_for (as_approver nxt) bk) (''Approval needed: '' @ si_number si) (si_id si) bk)"

definition load_for :: "ident \<Rightarrow> int \<Rightarrow> ap_books \<Rightarrow> ap_error + supplier_invoice" where
  "load_for i version bk =
     (case get_si i bk of
        None \<Rightarrow> Inl ApNotFound
      | Some si \<Rightarrow>
          (case assert_version (si_version si) (Some version) of
             Inl e \<Rightarrow> Inl (ApWorkflow e)
           | Inr _ \<Rightarrow> Inr si))"

definition submit ::
  "policy list \<Rightarrow> agreed_price list \<Rightarrow> bool \<Rightarrow> (nat \<Rightarrow> ident) \<Rightarrow> actor \<Rightarrow> instant \<Rightarrow> ident \<Rightarrow> int \<Rightarrow>
   string option \<Rightarrow> ap_books \<Rightarrow> ap_error + ap_books" where
  "submit policies prices overcharge_block gen u now i version nt bk =
     (case load_for i version bk of
        Inl e \<Rightarrow> Inl e
      | Inr si \<Rightarrow>
          (case assert_transition (si_state si) WSubmitted of
             Inl e \<Rightarrow> Inl (ApWorkflow e)
           | Inr _ \<Rightarrow>
               if si_lines si = [] then Inl NoLines
               else if rec_blocking (reconcile si) \<noteq> [] then Inl (DoesNotReconcile (rec_blocking (reconcile si)))
               else if overcharge_block \<and> check_invoice prices si \<noteq> [] then Inl ExceedsAgreedPrice
               else
                 let steps = build_chain gen i (evaluate policies si);
                     bk1 = drop_chain i bk;
                     bk2 = bk1\<lparr>ap_steps := ap_steps bk1 @ steps\<rparr>;
                     si' = bump (si\<lparr>si_state := chain_state steps, si_submitted_by := Some (ac_id u),
                                   si_submitted_at := Some now\<rparr>)
                 in Inr (notify_next steps si (emit_ap ''invoice.submitted'' i (audit_ap ''invoice.submit'' i
                      (comment_ap i ''[submitted] '' nt (put_si si' bk2)))))))"

definition guard_decider :: "supplier_invoice \<Rightarrow> actor \<Rightarrow> approval_step \<Rightarrow> ap_error + unit" where
  "guard_decider si u s =
     (if truthy (si_submitted_by si) \<and> si_submitted_by si = Some (ac_id u) \<and> \<not> ac_platform_admin u
      then Inl OwnSubmission
      else if \<not> is_assigned_approver s u then Inl OtherApprover
      else Inr ())"

text \<open>What the three decision handlers have in common: the checks, and the step in hand.\<close>

definition decision_step ::
  "actor \<Rightarrow> ident \<Rightarrow> int \<Rightarrow> ap_books \<Rightarrow> ap_error + (supplier_invoice \<times> approval_step)" where
  "decision_step u i version bk =
     (case load_for i version bk of
        Inl e \<Rightarrow> Inl e
      | Inr si \<Rightarrow>
          if \<not> in_approval (si_state si) then Inl NotAwaitingApproval
          else
            (case pending_step (steps_for i bk) of
               None \<Rightarrow> Inl NoPendingStep
             | Some s \<Rightarrow>
                 (case guard_decider si u s of Inl e \<Rightarrow> Inl e | Inr _ \<Rightarrow> Inr (si, s))))"

definition decided :: "actor \<Rightarrow> instant \<Rightarrow> string option \<Rightarrow> step_status \<Rightarrow> approval_step \<Rightarrow> approval_step" where
  "decided u now nt status s = s\<lparr>as_status := status, as_decided_by := Some (ac_id u),
     as_decided_email := Some (ac_email u), as_decided_at := Some now, as_note := nt\<rparr>"

text \<open>The last approval locks the record.\<close>

definition approved_as :: "actor \<Rightarrow> instant \<Rightarrow> workflow_state \<Rightarrow> supplier_invoice \<Rightarrow> supplier_invoice" where
  "approved_as u now new_state si =
     (let si' = bump (si\<lparr>si_state := new_state\<rparr>) in
      if new_state = WApproved
      then si'\<lparr>si_locked_at := Some now, si_locked_by := Some (ac_email u)\<rparr>
      else si')"

definition approve ::
  "actor \<Rightarrow> instant \<Rightarrow> ident \<Rightarrow> int \<Rightarrow> string option \<Rightarrow> ap_books \<Rightarrow> ap_error + ap_books" where
  "approve u now i version nt bk =
     (case decision_step u i version bk of
        Inl e \<Rightarrow> Inl e
      | Inr (si, s) \<Rightarrow>
          let bk1 = put_step (decided u now nt StepApproved s) bk;
              new_state = chain_state (steps_for i bk1)
          in (case assert_transition (si_state si) new_state of
                Inl e \<Rightarrow> Inl (ApWorkflow e)
              | Inr _ \<Rightarrow>
                  let bk2 = audit_ap ''invoice.approve'' i (put_si (approved_as u now new_state si) bk1) in
                  Inr (if new_state = WApproved
                       then notify (email_for (si_submitted_by si) bk2) (''Approved: '' @ si_number si) i
                         (emit_ap ''invoice.approved'' i (audit_ap ''invoice.lock'' i bk2))
                       else notify_next (steps_for i bk1) si bk2)))"

definition reject ::
  "actor \<Rightarrow> instant \<Rightarrow> ident \<Rightarrow> int \<Rightarrow> string option \<Rightarrow> ap_books \<Rightarrow> ap_error + ap_books" where
  "reject u now i version nt bk =
     (case decision_step u i version bk of
        Inl e \<Rightarrow> Inl e
      | Inr (si, s) \<Rightarrow>
          let bk1 = skip_pending i (put_step (decided u now nt StepRejected s) bk) in
          (case assert_transition (si_state si) WRejected of
             Inl e \<Rightarrow> Inl (ApWorkflow e)
           | Inr _ \<Rightarrow>
               Inr (notify (email_for (si_submitted_by si) bk) (''Rejected: '' @ si_number si) i
                 (emit_ap ''invoice.rejected'' i (audit_ap ''invoice.reject'' i
                   (put_si (bump (si\<lparr>si_state := WRejected\<rparr>)) bk1))))))"

definition return_for_correction ::
  "actor \<Rightarrow> ident \<Rightarrow> int \<Rightarrow> string option \<Rightarrow> ap_books \<Rightarrow> ap_error + ap_books" where
  "return_for_correction u i version nt bk =
     (case decision_step u i version bk of
        Inl e \<Rightarrow> Inl e
      | Inr (si, s) \<Rightarrow>
          let bk1 = skip_pending i bk in
          (case assert_transition (si_state si) WDraft of
             Inl e \<Rightarrow> Inl (ApWorkflow e)
           | Inr _ \<Rightarrow>
               Inr (notify (email_for (si_submitted_by si) bk) (''Returned for correction: '' @ si_number si) i
                 (emit_ap ''invoice.returned'' i (audit_ap ''invoice.return_for_correction'' i
                   (comment_ap i ''[returned] '' nt (put_si (bump (si\<lparr>si_state := WDraft\<rparr>)) bk1)))))))"

definition reassigned :: "ident option \<Rightarrow> string option \<Rightarrow> approval_step \<Rightarrow> approval_step" where
  "reassigned approver email s = s\<lparr>as_approver := approver, as_approver_email := email\<rparr>"

definition reassign ::
  "ident \<Rightarrow> int \<Rightarrow> ident option \<Rightarrow> ident option \<Rightarrow> ap_books \<Rightarrow> ap_error + ap_books" where
  "reassign i version approver step_id bk =
     (case load_for i version bk of
        Inl e \<Rightarrow> Inl e
      | Inr si \<Rightarrow>
          let steps = steps_for i bk;
              target = (if truthy step_id then find (\<lambda>s. as_id s = the step_id) steps
                        else pending_step steps)
          in (case target of
                None \<Rightarrow> Inl NoPendingStep
              | Some s \<Rightarrow>
                  if as_status s \<noteq> StepPending then Inl NoPendingStep
                  else Inr (notify (email_for approver bk) (''Approval reassigned to you: '' @ si_number si) i
                    (emit_ap ''invoice.reassigned'' i (audit_ap ''invoice.reassign_approver'' i
                      (put_si (bump si) (put_step (reassigned approver (email_for approver bk) s) bk)))))))"

definition state_value :: "workflow_state \<Rightarrow> string" where
  "state_value s = (case s of
     WDraft \<Rightarrow> ''draft'' | WSubmitted \<Rightarrow> ''submitted'' | WPartiallyApproved \<Rightarrow> ''partially_approved''
   | WApproved \<Rightarrow> ''approved'' | WRejected \<Rightarrow> ''rejected'' | WScheduled \<Rightarrow> ''scheduled_for_payment''
   | WPartiallyPaid \<Rightarrow> ''partially_paid'' | WPaid \<Rightarrow> ''paid'' | WDisputed \<Rightarrow> ''disputed''
   | WCancelled \<Rightarrow> ''cancelled'' | WArchived \<Rightarrow> ''archived'')"

definition transition ::
  "workflow_state \<Rightarrow> ident \<Rightarrow> int \<Rightarrow> string option \<Rightarrow> ap_books \<Rightarrow> ap_error + ap_books" where
  "transition target i version nt bk =
     (case load_for i version bk of
        Inl e \<Rightarrow> Inl e
      | Inr si \<Rightarrow>
          (case assert_transition (si_state si) target of
             Inl e \<Rightarrow> Inl (ApWorkflow e)
           | Inr _ \<Rightarrow>
               let bk1 = (if target = WDraft then drop_chain i bk else bk);
                   si1 = (if target = WDraft
                          then si\<lparr>si_locked_at := None, si_locked_by := None, si_submitted_by := None,
                                  si_submitted_at := None\<rparr>
                          else if target = WPaid then si\<lparr>si_aging := Ag_paid\<rparr> else si);
                   bk2 = audit_ap (if target = WDraft then ''invoice.controlled_correction''
                                   else ''invoice.transition'') i
                     (comment_ap i (''['' @ state_value target @ ''] '') nt
                       (put_si (bump (si1\<lparr>si_state := target\<rparr>)) bk1))
               in Inr (if target = WScheduled then emit_ap ''invoice.scheduled_for_payment'' i bk2
                       else if target = WPaid then emit_ap ''invoice.paid'' i bk2
                       else bk2)))"

definition state_of_value :: "string \<Rightarrow> workflow_state option" where
  "state_of_value v = find (\<lambda>s. state_value s = v) WORKFLOW_STATES"

definition transition_route ::
  "string \<Rightarrow> ident \<Rightarrow> int \<Rightarrow> string option \<Rightarrow> ap_books \<Rightarrow> ap_error + ap_books" where
  "transition_route target i version nt bk =
     (case state_of_value target of
        None \<Rightarrow> Inl UnknownState
      | Some t \<Rightarrow> transition t i version nt bk)"

section \<open>Lemmas\<close>

definition steps_of :: "ident \<Rightarrow> ap_books \<Rightarrow> approval_step set" where
  "steps_of i bk = {s \<in> set (ap_steps bk). as_invoice s = i}"

lemma steps_for_set [simp]: "set (steps_for i bk) = steps_of i bk"
  by (auto simp: steps_for_def steps_of_def)

lemma chain_state_set:
  "chain_state steps =
     (if \<exists>s \<in> set steps. as_status s = StepRejected then WRejected
      else if \<forall>s \<in> set steps. as_status s \<noteq> StepPending then WApproved
      else if \<exists>s \<in> set steps. as_status s = StepApproved then WPartiallyApproved
      else WSubmitted)"
  by (auto simp: chain_state_def filter_empty_conv)

lemma pending_step_Some: "pending_step xs = Some s \<Longrightarrow> s \<in> set xs \<and> as_status s = StepPending"
  by (auto simp: pending_step_def find_filter dest!: first_of_set)

lemma steps_of_simps [simp]:
  "steps_of i (put_si si bk) = steps_of i bk" "steps_of i (audit_ap a t bk) = steps_of i bk"
  "steps_of i (emit_ap a t bk) = steps_of i bk" "steps_of i (comment_ap j p n bk) = steps_of i bk"
  "steps_of i (drop_chain j bk) = (if i = j then {} else steps_of i bk)"
  by (auto simp: steps_of_def comment_ap_def drop_chain_def)

lemma comment_simps [simp]:
  "ap_steps (comment_ap i p n bk) = ap_steps bk" "ap_invoices (comment_ap i p n bk) = ap_invoices bk"
  by (simp_all add: comment_ap_def)

lemma notify_simps [simp]:
  "ap_steps (notify e t i bk) = ap_steps bk" "ap_invoices (notify e t i bk) = ap_invoices bk"
  "ap_steps (notify_next ss si bk) = ap_steps bk" "ap_invoices (notify_next ss si bk) = ap_invoices bk"
  by (simp_all add: notify_def notify_next_def split: option.splits)

lemma reassigned_simps [simp]:
  "as_id (reassigned a e s) = as_id s" "as_invoice (reassigned a e s) = as_invoice s"
  "as_status (reassigned a e s) = as_status s" "as_decided_by (reassigned a e s) = as_decided_by s"
  by (simp_all add: reassigned_def)

lemma chain_edit_simps [simp]:
  "ap_invoices (put_step s bk) = ap_invoices bk" "ap_invoices (skip_pending i bk) = ap_invoices bk"
  "ap_invoices (drop_chain i bk) = ap_invoices bk"
  by (simp_all add: put_step_def skip_pending_def drop_chain_def)

lemma put_si_app_steps [simp]: "ap_steps (put_si si bk) = ap_steps bk"
  by simp

lemma steps_of_put:
  assumes dist: "distinct (map as_id (ap_steps bk))" and s: "s \<in> steps_of i bk"
    and same: "as_id s' = as_id s" "as_invoice s' = i"
  shows "steps_of j (put_step s' bk) = (if j = i then insert s' (steps_of i bk - {s}) else steps_of j bk)"
proof -
  have only: "t = s" if "t \<in> set (ap_steps bk)" "as_id t = as_id s" for t
    using dist that s by (auto simp: steps_of_def distinct_map inj_on_def)
  have "set (ap_steps (put_step s' bk)) = insert s' (set (ap_steps bk) - {s})"
    using s same only by (auto simp: put_step_def steps_of_def image_iff)
  then show ?thesis using s same by (auto simp: steps_of_def)
qed

lemma put_step_ids [simp]: "map as_id (ap_steps (put_step s bk)) = map as_id (ap_steps bk)"
  by (induction "ap_steps bk") (auto simp: put_step_def)

lemma skip_pending_ids [simp]: "map as_id (ap_steps (skip_pending i bk)) = map as_id (ap_steps bk)"
  by (auto simp: skip_pending_def skip_step_def)

lemma steps_of_skip: "j \<noteq> i \<Longrightarrow> steps_of j (skip_pending i bk) = steps_of j bk"
proof -
  assume ne: "j \<noteq> i"
  have "as_invoice (skip_step s) = as_invoice s" for s by (simp add: skip_step_def)
  with ne show ?thesis
    unfolding steps_of_def skip_pending_def by (auto split: if_splits)
qed

lemma load_for_Inr [result_iff]:
  "load_for i v bk = Inr si \<longleftrightarrow> get_si i bk = Some si \<and> si_version si = v"
  by (auto simp: load_for_def assert_version_def split: option.splits)

lemma decision_step_Inr [result_iff]:
  "decision_step u i v bk = Inr (si, s) \<longleftrightarrow>
     get_si i bk = Some si \<and> si_version si = v \<and> in_approval (si_state si) \<and>
     pending_step (steps_for i bk) = Some s \<and> guard_decider si u s = Inr ()"
  unfolding decision_step_def load_for_def
  by (auto simp: assert_version_def split: sum.splits option.splits if_splits)

lemma build_chain_new:
  "s \<in> set (build_chain gen i p) \<Longrightarrow> as_invoice s = i \<and> as_status s = StepPending \<and> (\<exists>n. as_id s = gen n)"
  by (auto simp: build_chain_def Let_def new_step_def in_set_enumerate_eq split: if_splits option.splits)

lemma build_chain_ne: "build_chain gen i p \<noteq> []"
  by (simp add: build_chain_def Let_def)

lemma build_chain_seqs: "map as_seq (build_chain gen i p) = [0..<length (build_chain gen i p)]"
proof -
  have enum: "map (as_seq \<circ> (\<lambda>(seq, a). new_step gen i p seq KindApprover (Some a))) (List.enumerate 0 ids)
      = [0..<length ids]" for ids
  proof -
    have "as_seq \<circ> (\<lambda>(seq, a). new_step gen i p seq KindApprover (Some a)) = fst"
      by (auto simp: new_step_def)
    then show ?thesis by simp
  qed
  have seq: "as_seq (new_step gen i p' n k a) = n" for p' n k a by (simp add: new_step_def)
  show ?thesis
    by (auto simp: build_chain_def Let_def enum seq split: option.splits)
qed

lemma build_chain_ids: "inj gen \<Longrightarrow> distinct (map as_id (build_chain gen i p))"
proof -
  assume "inj gen"
  have "as_id s = gen (as_seq s)" if "s \<in> set (build_chain gen i p)" for s
    using that
    by (auto simp: build_chain_def Let_def new_step_def in_set_enumerate_eq split: if_splits option.splits)
  then have "map as_id (build_chain gen i p) = map gen (map as_seq (build_chain gen i p))"
    by simp
  then show ?thesis
    unfolding build_chain_seqs using \<open>inj gen\<close> by (auto simp: distinct_map intro: inj_on_subset)
qed

lemma submitted_chain: "chain_state (build_chain gen i p) = WSubmitted"
  using build_chain_new [of _ gen i p] build_chain_ne [of gen i p]
  by (auto simp: chain_state_set)

section \<open>The invariant of the review\<close>

definition chain_ok :: "approval_step set \<Rightarrow> supplier_invoice \<Rightarrow> bool" where
  "chain_ok S si \<longleftrightarrow> (si_state si \<in> {WSubmitted, WPartiallyApproved, WApproved} \<longrightarrow>
     S \<noteq> {} \<and> truthy (si_submitted_by si) \<and>
     (\<forall>s \<in> S. as_status s \<in> {StepPending, StepApproved}) \<and>
     (si_state si = WApproved \<longleftrightarrow> (\<forall>s \<in> S. as_status s \<noteq> StepPending)) \<and>
     (\<forall>s \<in> S. as_status s = StepApproved \<longrightarrow>
        (\<exists>d. as_decided_by s = Some d \<and> si_submitted_by si \<noteq> Some d)))"

definition review_ok :: "ap_books \<Rightarrow> bool" where
  "review_ok bk \<longleftrightarrow> distinct (map si_id (ap_invoices bk)) \<and> distinct (map as_id (ap_steps bk)) \<and>
     (\<forall>si \<in> set (ap_invoices bk). chain_ok (steps_of (si_id si) bk) si)"

definition fresh_ids :: "(nat \<Rightarrow> ident) \<Rightarrow> ap_books \<Rightarrow> bool" where
  "fresh_ids gen bk \<longleftrightarrow> inj gen \<and> range gen \<inter> as_id ` set (ap_steps bk) = {}"

text \<open>
  The steps: the review handlers by users other than the platform operator, and the
  generic transition for the moves its documentation names.
\<close>

inductive review_step :: "ap_books \<Rightarrow> ap_books \<Rightarrow> bool" where
  submit: "fresh_ids gen bk \<Longrightarrow> ac_id u \<noteq> [] \<Longrightarrow>
     submit policies prices block gen u now i v nt bk = Inr bk' \<Longrightarrow> review_step bk bk'"
| approve: "\<not> ac_platform_admin u \<Longrightarrow> approve u now i v nt bk = Inr bk' \<Longrightarrow> review_step bk bk'"
| reject: "reject u now i v nt bk = Inr bk' \<Longrightarrow> review_step bk bk'"
| return: "return_for_correction u i v nt bk = Inr bk' \<Longrightarrow> review_step bk bk'"
| reassign: "reassign i v a sid bk = Inr bk' \<Longrightarrow> review_step bk bk'"
| move: "target \<notin> {WSubmitted, WPartiallyApproved, WApproved} \<Longrightarrow>
     transition target i v nt bk = Inr bk' \<Longrightarrow> review_step bk bk'"

inductive_cases review_stepE: "review_step bk bk'"

text \<open>
  One invoice is replaced and only its own chain changes: it is enough to look at it.
\<close>

lemma review_ok_put:
  assumes ok: "review_ok bk" and id: "si_id si' = i"
    and invs: "ap_invoices bk' = ap_invoices (put_si si' bk)"
    and ids: "distinct (map as_id (ap_steps bk'))"
    and others: "\<And>j. j \<noteq> i \<Longrightarrow> steps_of j bk' = steps_of j bk"
    and mine: "chain_ok (steps_of i bk') si'"
  shows "review_ok bk'"
proof -
  have "distinct (map si_id (ap_invoices bk'))"
    using ok unfolding invs by (simp add: review_ok_def)
  moreover have "chain_ok (steps_of (si_id x) bk') x" if "x \<in> set (ap_invoices bk')" for x
    using put_si_set [of x si' bk] that ok others [of "si_id x"] mine id
    by (auto simp: invs review_ok_def)
  ultimately show ?thesis using ids by (simp add: review_ok_def)
qed

lemma review_submit:
  assumes ok: "review_ok bk" and fresh: "fresh_ids gen bk" and u: "ac_id u \<noteq> []"
    and step: "submit policies prices block gen u now i v nt bk = Inr bk'"
  shows "review_ok bk'"
proof -
  define steps where "steps = build_chain gen i (evaluate policies (the (get_si i bk)))"
  obtain si where si: "get_si i bk = Some si"
    and bk': "bk' = notify_next steps si (emit_ap ''invoice.submitted'' i (audit_ap ''invoice.submit'' i
      (comment_ap i ''[submitted] '' nt (put_si (bump (si\<lparr>si_state := WSubmitted,
         si_submitted_by := Some (ac_id u), si_submitted_at := Some now\<rparr>))
        (drop_chain i bk\<lparr>ap_steps := ap_steps (drop_chain i bk) @ steps\<rparr>)))))"
    using step
    by (auto simp: submit_def result_iff Let_def submitted_chain steps_def load_for_Inr
        split: sum.splits if_splits)
  have new: "\<And>s. s \<in> set steps \<Longrightarrow> as_invoice s = i \<and> as_status s = StepPending \<and> as_id s \<in> range gen"
    using build_chain_new by (fastforce simp: steps_def)
  have steps': "ap_steps bk' = filter (\<lambda>s. as_invoice s \<noteq> i) (ap_steps bk) @ steps"
    by (simp add: bk' drop_chain_def)
  show ?thesis
  proof (rule review_ok_put [OF ok])
    show "si_id (bump (si\<lparr>si_state := WSubmitted, si_submitted_by := Some (ac_id u),
        si_submitted_at := Some now\<rparr>)) = i"
      using get_si_Some [OF si] by (simp add: bump_def)
    show "ap_invoices bk' = ap_invoices (put_si (bump (si\<lparr>si_state := WSubmitted,
        si_submitted_by := Some (ac_id u), si_submitted_at := Some now\<rparr>)) bk)"
      by (simp add: bk' put_si_def drop_chain_def)
    have "as_id ` set steps \<subseteq> range gen" using new by auto
    then have "as_id ` set (ap_steps bk) \<inter> as_id ` set steps = {}"
      using fresh by (auto simp: fresh_ids_def)
    then show "distinct (map as_id (ap_steps bk'))"
      using ok fresh build_chain_ids [of gen i "evaluate policies (the (get_si i bk))"]
      unfolding steps' by (auto simp: review_ok_def fresh_ids_def steps_def distinct_map intro: inj_on_subset)
    show "steps_of j bk' = steps_of j bk" if "j \<noteq> i" for j
      using that new by (auto simp: steps_of_def steps')
    have mine: "steps_of i bk' = set steps"
      using new by (auto simp: steps_of_def steps')
    obtain s where "s \<in> set steps" using build_chain_ne unfolding steps_def by (metis last_in_set)
    with new u show "chain_ok (steps_of i bk') (bump (si\<lparr>si_state := WSubmitted,
        si_submitted_by := Some (ac_id u), si_submitted_at := Some now\<rparr>))"
      unfolding mine by (auto simp: chain_ok_def bump_def truthy_def)
  qed
qed

lemma chain_ok_inactive: "si_state si \<notin> {WSubmitted, WPartiallyApproved, WApproved} \<Longrightarrow> chain_ok S si"
  by (simp add: chain_ok_def)

lemma chain_ok_same:
  "chain_ok S si \<Longrightarrow> si_state si' = si_state si \<Longrightarrow> si_submitted_by si' = si_submitted_by si \<Longrightarrow> chain_ok S si'"
  by (simp only: chain_ok_def)

lemma review_ok_get: "review_ok bk \<Longrightarrow> get_si i bk = Some si \<Longrightarrow> chain_ok (steps_of i bk) si"
  using get_si_Some [of i bk si] by (auto simp: review_ok_def)

text \<open>Moving an invoice out of the approval states, whatever happens to its own chain.\<close>

lemma review_ok_leave:
  assumes ok: "review_ok bk" and si: "get_si i bk = Some si"
    and invs: "ap_invoices bk' = ap_invoices (put_si si' bk)" and same: "si_id si' = si_id si"
    and out: "si_state si' \<notin> {WSubmitted, WPartiallyApproved, WApproved}"
    and ids: "distinct (map as_id (ap_steps bk'))"
    and others: "\<And>j. j \<noteq> i \<Longrightarrow> steps_of j bk' = steps_of j bk"
  shows "review_ok bk'"
  using get_si_Some [OF si] same
  by (intro review_ok_put [OF ok _ invs ids others] chain_ok_inactive [OF out]) auto

lemma put_si_cong: "ap_invoices bk = ap_invoices bk' \<Longrightarrow> ap_invoices (put_si si bk) = ap_invoices (put_si si bk')"
  by (simp add: put_si_def)

lemma pending_in_chain:
  "pending_step (steps_for i bk) = Some s \<Longrightarrow> s \<in> steps_of i bk \<and> as_status s = StepPending"
  using pending_step_Some [of "steps_for i bk" s] by simp

lemma review_approve:
  assumes ok: "review_ok bk" and nadm: "\<not> ac_platform_admin u"
    and step: "approve u now i v nt bk = Inr bk'"
  shows "review_ok bk'"
proof -
  obtain si s where d: "decision_step u i v bk = Inr (si, s)"
    using step by (auto simp: approve_def split: sum.splits)
  then have si: "get_si i bk = Some si" and appr: "in_approval (si_state si)"
    and pend: "pending_step (steps_for i bk) = Some s" and g: "guard_decider si u s = Inr ()"
    by (simp_all add: result_iff)
  define s' where "s' = decided u now nt StepApproved s"
  define bk1 where "bk1 = put_step s' bk"
  define ns where "ns = chain_state (steps_for i bk1)"
  define si' where "si' = approved_as u now ns si"
  have si': "si_state si' = ns" "si_submitted_by si' = si_submitted_by si" "si_id si' = si_id si"
    by (simp_all add: si'_def approved_as_def bump_def Let_def)
  have invs: "ap_invoices bk' = ap_invoices (put_si si' bk1)" and steps: "ap_steps bk' = ap_steps bk1"
    using step d
    by (auto simp: approve_def Let_def bk1_def s'_def ns_def si'_def split: sum.splits if_splits)
  have dist: "distinct (map as_id (ap_steps bk))" using ok by (simp add: review_ok_def)
  have s: "s \<in> steps_of i bk" "as_status s = StepPending" using pending_in_chain [OF pend] by auto
  have s'i: "as_id s' = as_id s" "as_invoice s' = i" "as_status s' = StepApproved" "as_decided_by s' = Some (ac_id u)"
    using s by (simp_all add: s'_def decided_def steps_of_def)
  have set1: "steps_of j bk1 = (if j = i then insert s' (steps_of i bk - {s}) else steps_of j bk)" for j
    unfolding bk1_def by (rule steps_of_put [OF dist s(1) s'i(1,2)])
  have of': "steps_of j bk' = steps_of j bk1" for j by (simp add: steps_of_def steps)
  have chain: "chain_ok (steps_of i bk) si" by (rule review_ok_get [OF ok si])
  have st: "si_state si \<in> {WSubmitted, WPartiallyApproved, WApproved}"
    using appr by (auto simp: in_approval_def)
  have other: "si_submitted_by si \<noteq> Some (ac_id u)"
    using g nadm chain st by (auto simp: guard_decider_def chain_ok_def split: if_splits)
  have ns: "ns = (if \<forall>t \<in> steps_of i bk1. as_status t \<noteq> StepPending then WApproved else WPartiallyApproved)"
    unfolding ns_def chain_state_set steps_for_set
    using chain st s'i unfolding set1 by (auto simp: chain_ok_def)
  have "chain_ok (steps_of i bk') si'"
    using chain st s'i other unfolding of' chain_ok_def si' ns by (auto simp: set1 split: if_splits)
  then show ?thesis
    using get_si_Some [OF si] si'(3) invs dist set1
    by (intro review_ok_put [OF ok, of si' i]) (auto simp: of' steps bk1_def put_si_def)
qed

lemma steps_put_other:
  assumes "distinct (map as_id (ap_steps bk))" "s \<in> steps_of i bk" "as_id s' = as_id s" "as_invoice s' = i" "j \<noteq> i"
  shows "steps_of j (put_step s' bk) = steps_of j bk"
  using steps_of_put [OF assms(1-4), of j] assms(5) by simp

lemma decided_same [simp]:
  "as_id (decided u now nt st s) = as_id s" "as_invoice (decided u now nt st s) = as_invoice s"
  by (simp_all add: decided_def)

lemma review_reject:
  assumes ok: "review_ok bk" and step: "reject u now i v nt bk = Inr bk'"
  shows "review_ok bk'"
proof -
  obtain si s where d: "decision_step u i v bk = Inr (si, s)"
    using step by (auto simp: reject_def split: sum.splits)
  then have si: "get_si i bk = Some si" and pend: "pending_step (steps_for i bk) = Some s"
    by (simp_all add: result_iff)
  have s: "s \<in> steps_of i bk" "as_invoice s = i" using pending_in_chain [OF pend] by (auto simp: steps_of_def)
  have dist: "distinct (map as_id (ap_steps bk))" using ok by (simp add: review_ok_def)
  define bk1 where "bk1 = skip_pending i (put_step (decided u now nt StepRejected s) bk)"
  have res: "ap_invoices bk' = ap_invoices (put_si (bump (si\<lparr>si_state := WRejected\<rparr>)) bk)"
    "ap_steps bk' = ap_steps bk1"
    using step d by (auto simp: reject_def bk1_def put_si_def split: sum.splits)
  have "steps_of j bk' = steps_of j bk" if "j \<noteq> i" for j
    using steps_of_skip [OF that] steps_put_other [OF dist s(1) _ _ that] s(2)
    by (simp add: steps_of_def res bk1_def)
  with dist show ?thesis
    by (intro review_ok_leave [OF ok si res(1)]) (auto simp: bump_def res bk1_def)
qed

lemma review_return:
  assumes ok: "review_ok bk" and step: "return_for_correction u i v nt bk = Inr bk'"
  shows "review_ok bk'"
proof -
  obtain si s where d: "decision_step u i v bk = Inr (si, s)"
    using step by (auto simp: return_for_correction_def split: sum.splits)
  then have si: "get_si i bk = Some si" by (simp add: result_iff)
  have res: "ap_invoices bk' = ap_invoices (put_si (bump (si\<lparr>si_state := WDraft\<rparr>)) bk)"
    "ap_steps bk' = ap_steps (skip_pending i bk)"
    using step d by (auto simp: return_for_correction_def put_si_def split: sum.splits)
  have "steps_of j bk' = steps_of j bk" if "j \<noteq> i" for j
    using steps_of_skip [OF that] by (simp add: steps_of_def res)
  then show ?thesis
    using ok by (intro review_ok_leave [OF ok si res(1)]) (auto simp: bump_def res review_ok_def)
qed

lemma review_reassign:
  assumes ok: "review_ok bk" and step: "reassign i v a sid bk = Inr bk'"
  shows "review_ok bk'"
proof -
  obtain si s where si: "get_si i bk = Some si"
    and s: "s \<in> set (steps_for i bk)" "as_status s = StepPending"
    and bk': "ap_invoices bk' = ap_invoices (put_si (bump si) bk)"
      "ap_steps bk' = ap_steps (put_step (reassigned a (email_for a bk) s) bk)"
  proof -
    obtain si where si: "load_for i v bk = Inr si"
      using step by (auto simp: reassign_def split: sum.splits)
    let ?t = "if truthy sid then find (\<lambda>s. as_id s = the sid) (steps_for i bk) else pending_step (steps_for i bk)"
    obtain s where t: "?t = Some s"
      using step si by (cases ?t) (auto simp: reassign_def Let_def)
    have "s \<in> set (steps_for i bk)"
      using t pending_in_chain [of i bk s] by (auto simp: find_filter dest!: first_of_set split: if_splits)
    moreover have "as_status s = StepPending"
      and "bk' = notify (email_for a bk) (''Approval reassigned to you: '' @ si_number si) i
        (emit_ap ''invoice.reassigned'' i (audit_ap ''invoice.reassign_approver'' i
          (put_si (bump si) (put_step (reassigned a (email_for a bk) s) bk))))"
      using step si t by (simp_all add: reassign_def Let_def split: if_splits)
    ultimately show thesis
      using si that [of si s] by (simp add: result_iff put_si_def)
  qed
  have dist: "distinct (map as_id (ap_steps bk))" using ok by (simp add: review_ok_def)
  have sets: "steps_of j bk' = (if j = i then insert (reassigned a (email_for a bk) s) (steps_of i bk - {s}) else steps_of j bk)" for j
    using steps_of_put [OF dist, of s i "reassigned a (email_for a bk) s" j] s(1)
    by (simp add: steps_of_def bk')
  have "chain_ok (steps_of i bk') (bump si)"
    using review_ok_get [OF ok si] s unfolding sets by (auto simp: chain_ok_def bump_def)
  then show ?thesis
    using get_si_Some [OF si] dist sets
    by (intro review_ok_put [OF ok, of "bump si" i]) (auto simp: bk' bump_def)
qed

lemma review_move:
  assumes ok: "review_ok bk" and out: "target \<notin> {WSubmitted, WPartiallyApproved, WApproved}"
    and step: "transition target i v nt bk = Inr bk'"
  shows "review_ok bk'"
proof -
  obtain si where l: "load_for i v bk = Inr si"
    using step by (auto simp: transition_def split: sum.splits)
  then have si: "get_si i bk = Some si" by (simp add: result_iff)
  define si1 where "si1 = (if target = WDraft
    then si\<lparr>si_locked_at := None, si_locked_by := None, si_submitted_by := None, si_submitted_at := None\<rparr>
    else if target = WPaid then si\<lparr>si_aging := Ag_paid\<rparr> else si)"
  have res: "ap_invoices bk' = ap_invoices (put_si (bump (si1\<lparr>si_state := target\<rparr>)) bk)"
    "ap_steps bk' = ap_steps (if target = WDraft then drop_chain i bk else bk)"
    using step l by (auto simp: transition_def si1_def Let_def put_si_def split: sum.splits if_splits)
  have "steps_of j bk' = steps_of j bk" if "j \<noteq> i" for j
    using that by (auto simp: steps_of_def res drop_chain_def)
  moreover have "distinct (map as_id (ap_steps bk'))"
    using ok by (auto simp: review_ok_def res drop_chain_def distinct_map intro: inj_on_subset)
  ultimately show ?thesis
    using out by (intro review_ok_leave [OF ok si res(1)]) (auto simp: bump_def si1_def)
qed

lemma review_step_ok: "review_step bk bk' \<Longrightarrow> review_ok bk \<Longrightarrow> review_ok bk'"
  by (erule review_stepE)
     (blast intro: review_submit review_approve review_reject review_return review_reassign review_move)+

inductive review_reachable :: "ap_books \<Rightarrow> ap_books \<Rightarrow> bool" for bk0 where
  start: "review_reachable bk0 bk0"
| step: "review_reachable bk0 bk \<Longrightarrow> review_step bk bk' \<Longrightarrow> review_reachable bk0 bk'"

lemma reachable_review_ok: "review_reachable bk0 bk \<Longrightarrow> review_ok bk0 \<Longrightarrow> review_ok bk"
  by (induction rule: review_reachable.induct) (auto intro: review_step_ok)

section \<open>Properties\<close>


definition sample_step :: "nat \<Rightarrow> step_status \<Rightarrow> ident \<Rightarrow> approval_step" where
  "sample_step n st a = \<lparr>as_id = [char_of (65 + n)], as_invoice = ''ap-1'', as_policy = None, as_seq = n,
     as_kind = KindApprover, as_approver = Some a, as_status = st,
     as_decided_by = (if st = StepApproved then Some a else None), as_decided_at = None, as_note = None,
     as_approver_email = None, as_decided_email = None\<rparr>"

definition sample_chain :: "workflow_state \<Rightarrow> approval_step list \<Rightarrow> ap_books" where
  "sample_chain st steps =
     sample_ap_books\<lparr>ap_invoices := [sample_si\<lparr>si_state := st\<rparr>], ap_steps := steps\<rparr>"

lemmas sample_chain_defs = sample_chain_def sample_ap_books_def sample_si_def sample_step_def

lemma sample_chain_simps [simp]:
  "get_si ''ap-1'' (sample_chain st steps) = Some (sample_si\<lparr>si_state := st\<rparr>)"
  "ap_steps (sample_chain st steps) = steps"
  "ap_invoices (sample_chain st steps) = [sample_si\<lparr>si_state := st\<rparr>]"
  by (simp_all add: sample_chain_def sample_ap_books_def get_si_def) (simp add: sample_si_def)

lemma sample_decision:
  "\<exists>bk' si'. approve \<lparr>ac_id = ''a-1'', ac_email = ''a@x'', ac_platform_admin = False\<rparr> 7 ''ap-1'' 1 None
     (sample_chain WSubmitted [sample_step 0 StepPending ''a-1'']) = Inr bk' \<and>
     ap_invoices bk' = [si'] \<and> si_id si' = ''ap-1'' \<and> si_state si' = WApproved \<and>
     si_submitted_by si' = Some ''u-1'' \<and> (\<exists>s. ap_steps bk' = [s] \<and> as_invoice s = ''ap-1'')"
  (is "\<exists>bk' si'. approve ?u _ _ _ _ ?bk = _ \<and> _")
proof -
  have d: "decision_step ?u ''ap-1'' 1 ?bk =
      Inr (sample_si\<lparr>si_state := WSubmitted\<rparr>, sample_step 0 StepPending ''a-1'')"
    by (simp add: decision_step_Inr in_approval_def guard_decider_def is_assigned_approver_def
        pending_step_def steps_for_def sample_step_def) (simp add: sample_si_def)
  have steps: "ap_steps (put_step (decided ?u 7 None StepApproved (sample_step 0 StepPending ''a-1'')) ?bk)
      = [decided ?u 7 None StepApproved (sample_step 0 StepPending ''a-1'')]"
    by (simp add: put_step_def)
  have c: "chain_state (steps_for ''ap-1'' (put_step (decided ?u 7 None StepApproved
      (sample_step 0 StepPending ''a-1'')) ?bk)) = WApproved"
    by (simp add: steps_for_def steps chain_state_def) (simp add: decided_def sample_step_def)
  have t: "assert_transition WSubmitted WApproved = Inr ()"
    by (simp add: assert_transition_def workflow_defs)
  show ?thesis
    using d c t
    by (simp add: approve_def Let_def steps put_si_def approved_as_def bump_def)
       (simp add: put_step_def sample_si_def sample_step_def)
qed


text \<open>
  A chain of three or more cannot be finished. When an invoice is partially approved
  and two of its steps are still pending, whoever decides, the approval is refused: the
  derived state is again partially approved, and the table has no move from that state to
  itself. (A chain of two steps never meets the case.)
\<close>

theorem long_chain_stalls:
  assumes si: "get_si i bk = Some si" "si_state si = WPartiallyApproved"
    and ids: "distinct (map as_id (ap_steps bk))"
    and two: "p \<in> steps_of i bk" "p' \<in> steps_of i bk" "p \<noteq> p'"
      "as_status p = StepPending" "as_status p' = StepPending"
    and live: "\<forall>s \<in> steps_of i bk. as_status s \<noteq> StepRejected"
    and decider: "decision_step u i v bk = Inr (si, s)"
  shows "approve u now i v nt bk =
    Inl (ApWorkflow (IllegalMove WPartiallyApproved WPartiallyApproved))"
proof -
  let ?s = "decided u now nt StepApproved s"
  have s: "s \<in> steps_of i bk" "as_invoice s = i"
    using decider pending_in_chain [of i bk s] by (auto simp: result_iff steps_of_def)
  have set1: "steps_of i (put_step ?s bk) = insert ?s (steps_of i bk - {s})"
    using steps_of_put [OF ids s(1), of ?s i] s(2) by simp
  have st: "as_status ?s = StepApproved" by (simp add: decided_def)
  have "\<exists>t \<in> steps_of i bk - {s}. as_status t = StepPending" using two by auto
  then have "chain_state (steps_for i (put_step ?s bk)) = WPartiallyApproved"
    unfolding chain_state_set steps_for_set set1 using live st by auto
  then show ?thesis
    using decider si(2) by (simp add: approve_def assert_transition_def workflow_defs)
qed

theorem long_chain_stalls_witness:
  "approve \<lparr>ac_id = ''a-2'', ac_email = ''b@x'', ac_platform_admin = False\<rparr> 0 ''ap-1'' 1 None
     (sample_chain WPartiallyApproved [sample_step 0 StepApproved ''a-1'',
        sample_step 1 StepPending ''a-2'', sample_step 2 StepPending ''a-3''])
   = Inl (ApWorkflow (IllegalMove WPartiallyApproved WPartiallyApproved))"
  (is "approve ?u _ _ _ _ ?bk = _")
proof (rule long_chain_stalls [where si = "sample_si\<lparr>si_state := WPartiallyApproved\<rparr>"
      and p = "sample_step 1 StepPending ''a-2''" and p' = "sample_step 2 StepPending ''a-3''"
      and s = "sample_step 1 StepPending ''a-2''"])
  show "decision_step ?u ''ap-1'' 1 ?bk =
      Inr (sample_si\<lparr>si_state := WPartiallyApproved\<rparr>, sample_step 1 StepPending ''a-2'')"
    by (simp add: decision_step_Inr in_approval_def guard_decider_def is_assigned_approver_def
        pending_step_def steps_for_def sample_step_def) (simp add: sample_si_def)
qed (auto simp: steps_of_def sample_step_def sample_si_def)

lemma transition_route_values:
  "transition_route ''approved'' = transition WApproved" "transition_route ''submitted'' = transition WSubmitted"
  by (intro ext; simp add: transition_route_def state_of_value_def WORKFLOW_STATES_def state_value_def)+

text \<open>
  The generic transition skips the review. An invoice whose chain is waiting for its
  decisions is moved to approved by the transition handler, for any caller who knows its
  version: no step is decided, nobody is recorded, and the record is not locked. From
  draft the same handler submits without lines, reconciliation or a chain.
\<close>

theorem transition_skips_review:
  assumes si: "get_si i bk = Some si" "si_version si = v"
  shows "(in_approval (si_state si) \<longrightarrow>
      (\<exists>bk' si'. transition_route ''approved'' i v None bk = Inr bk' \<and> get_si i bk' = Some si' \<and>
         si_state si' = WApproved \<and> ap_steps bk' = ap_steps bk \<and> si_locked_at si' = si_locked_at si)) \<and>
    (si_state si = WDraft \<longrightarrow>
      (\<exists>bk' si'. transition_route ''submitted'' i v None bk = Inr bk' \<and> get_si i bk' = Some si' \<and>
         si_state si' = WSubmitted \<and> ap_steps bk' = ap_steps bk \<and> si_lines si' = si_lines si))"
proof -
  have id: "si_id si = i" using get_si_Some [OF si(1)] by simp
  have put: "get_si i (put_si (bump (si\<lparr>si_state := t\<rparr>)) bk) = Some (bump (si\<lparr>si_state := t\<rparr>))" for t
    using get_put_si [of "bump (si\<lparr>si_state := t\<rparr>)" bk si] si(1) id by (simp add: bump_def)
  have get: "get_si i (audit_ap a j (comment_ap j' p n bk1)) = get_si i bk1" for a j j' p n bk1
    by (simp add: get_si_def)
  have run: "\<exists>bk' si'. transition t i v None bk = Inr bk' \<and> get_si i bk' = Some si' \<and>
      si_state si' = t \<and> ap_steps bk' = ap_steps bk \<and> si_locked_at si' = si_locked_at si \<and>
      si_lines si' = si_lines si"
    if "can_transition (si_state si) t" "t \<in> {WApproved, WSubmitted}" for t
    using that si put [of t]
    by (auto simp: transition_def load_for_def assert_version_def assert_transition_def Let_def get bump_def)
  have "can_transition (si_state si) WApproved" if "in_approval (si_state si)"
    using that by (auto simp: in_approval_def workflow_defs)
  moreover have "can_transition (si_state si) WSubmitted" if "si_state si = WDraft"
    using that by (simp add: workflow_defs)
  ultimately show ?thesis unfolding transition_route_values by (blast dest: run)
qed

theorem transition_skips_review_witness:
  "\<exists>bk' si'. transition_route ''approved'' ''ap-1'' 1 None
     (sample_chain WSubmitted [sample_step 0 StepPending ''a-1'']) = Inr bk' \<and>
     get_si ''ap-1'' bk' = Some si' \<and> si_state si' = WApproved \<and>
     ap_steps bk' = [sample_step 0 StepPending ''a-1'']"
  using transition_skips_review [of "''ap-1''" "sample_chain WSubmitted [sample_step 0 StepPending ''a-1'']"
      "sample_si\<lparr>si_state := WSubmitted\<rparr>" 1]
  by (auto simp: in_approval_def sample_si_def)

text \<open>The pending step is the one no other pending step precedes.\<close>

lemma pending_step_iff:
  assumes uniq: "inj_on as_seq (set xs)"
  shows "pending_step xs = Some s \<longleftrightarrow> s \<in> set xs \<and> as_status s = StepPending \<and>
    (\<forall>e \<in> set xs. as_status e = StepPending \<longrightarrow> as_seq s \<le> as_seq e)"
proof -
  define ys where "ys = sort_key as_seq (filter (\<lambda>s. as_status s = StepPending) xs)"
  have p: "pending_step xs = first_of ys"
    by (simp add: pending_step_def find_filter ys_def filter_sort)
  have ys: "set ys = {s \<in> set xs. as_status s = StepPending}" "sorted (map as_seq ys)"
    by (auto simp: ys_def)
  show ?thesis
  proof (cases ys)
    case Nil
    with ys(1) show ?thesis by (auto simp: p first_of_def)
  next
    case (Cons t ts)
    have t: "t \<in> set xs" "as_status t = StepPending" "\<forall>e \<in> set ys. as_seq t \<le> as_seq e"
      using ys Cons by auto
    then have "first_of ys = Some s \<longleftrightarrow> s \<in> set ys \<and> (\<forall>e \<in> set ys. as_seq s \<le> as_seq e)"
    proof (intro iffI)
      assume "first_of ys = Some s"
      with t Cons show "s \<in> set ys \<and> (\<forall>e \<in> set ys. as_seq s \<le> as_seq e)"
        by (simp add: first_of_def)
    next
      assume s: "s \<in> set ys \<and> (\<forall>e \<in> set ys. as_seq s \<le> as_seq e)"
      then have "as_seq s \<le> as_seq t" "as_seq t \<le> as_seq s" using t(3) Cons by auto
      then have "as_seq s = as_seq t" by (rule order_antisym)
      moreover have "s \<in> set xs" using s ys(1) by auto
      ultimately have "s = t" using uniq t(1) by (auto dest: inj_onD)
      with Cons show "first_of ys = Some s" by (simp add: first_of_def)
    qed
    then show ?thesis by (auto simp: p ys(1))
  qed
qed

text \<open>
  The inbox and the route agree. For a user who is not the platform operator and may
  approve, the SQL of the inbox selects a step exactly when the decision handlers would
  let that user decide it now (at the invoice's current version).
\<close>

theorem inbox_agrees_with_route:
  assumes "s \<in> set (ap_steps bk)" and uniq: "inj_on as_seq (steps_of (as_invoice s) bk)"
    and "\<not> ac_platform_admin u" and "ac_id u \<noteq> []"
  shows "inbox_step bk (ac_id u) True s \<longleftrightarrow>
    (\<exists>si. get_si (as_invoice s) bk = Some si \<and>
       decision_step u (as_invoice s) (si_version si) bk = Inr (si, s))"
proof -
  have earlier: "(\<exists>e \<in> set (ap_steps bk). as_invoice e = as_invoice s \<and> as_status e = StepPending \<and>
      as_seq e < as_seq s) \<longleftrightarrow>
    \<not> (\<forall>e \<in> steps_of (as_invoice s) bk. as_status e = StepPending \<longrightarrow> as_seq s \<le> as_seq e)"
    by (auto simp: steps_of_def not_le)
  have mem: "s \<in> steps_of (as_invoice s) bk" using assms(1) by (simp add: steps_of_def)
  have guard: "guard_decider si u s = Inr () \<longleftrightarrow>
      si_submitted_by si \<noteq> Some (ac_id u) \<and> (as_approver s = Some (ac_id u) \<or> as_approver s = None)" for si
    using assms(3,4) by (auto simp: guard_decider_def is_assigned_approver_def truthy_def split: option.splits)
  show ?thesis
    using mem uniq
    by (auto simp: inbox_step_def earlier decision_step_Inr guard pending_step_iff split: option.splits)
qed

theorem inbox_agrees_with_route_witness:
  "inbox_step (sample_chain WSubmitted [sample_step 0 StepPending ''a-1'']) ''a-1'' True
     (sample_step 0 StepPending ''a-1'')"
proof -
  let ?bk = "sample_chain WSubmitted [sample_step 0 StepPending ''a-1'']"
  let ?u = "\<lparr>ac_id = ''a-1'', ac_email = ''a@x'', ac_platform_admin = False\<rparr>"
  have inv: "as_invoice (sample_step 0 StepPending ''a-1'') = ''ap-1''" by (simp add: sample_step_def)
  have "decision_step ?u ''ap-1'' 1 ?bk =
      Inr (sample_si\<lparr>si_state := WSubmitted\<rparr>, sample_step 0 StepPending ''a-1'')"
    by (simp add: decision_step_Inr in_approval_def guard_decider_def is_assigned_approver_def
        pending_step_def steps_for_def sample_step_def) (simp add: sample_si_def)
  moreover have "si_version (sample_si\<lparr>si_state := WSubmitted\<rparr>) = 1" by (simp add: sample_si_def)
  ultimately show ?thesis
    using inbox_agrees_with_route [of "sample_step 0 StepPending ''a-1''" ?bk ?u] inv
    by (simp add: steps_of_def inj_on_def)
qed

end
