(* ===== verification/Vendors.thy ===== *)
theory Vendors
  imports BankId
begin

text \<open>
  \<open>services/vendors.py\<close>: the single write path for suppliers. A stored IBAN or tax id
  is never overwritten by an update; the change waits as a request that a second user
  applies. The audit meta and the collision read models are left out (the audit actions
  are kept); ids, time and the documents of the workspace are arguments.
\<close>

section \<open>State\<close>

datatype vendor_field = F_tax_id | F_country | F_category | F_iban | F_bic
datatype vendor_status = VendorActive | VendorProvisional
datatype request_status = CrPending | CrApproved | CrRejected

record vendor =
  vd_id :: ident
  vd_name :: string
  vd_field :: "vendor_field \<Rightarrow> string option"
  vd_version :: int
  vd_status :: vendor_status

record change_request =
  cr_id :: ident
  cr_vendor :: ident
  cr_field :: vendor_field
  cr_old :: "string option"
  cr_new :: "string option"
  cr_status :: request_status
  cr_requested_by :: ident
  cr_document :: "ident option"
  cr_decided_by :: "ident option"
  cr_decided_at :: "instant option"
  cr_note :: "string option"

record vendor_books =
  vb_vendors :: "vendor list"
  vb_requests :: "change_request list"
  vb_trail :: "(string \<times> ident) list"

datatype vendor_error =
    VendorNotFound | VendorExists | BadField bank_error | StaleVendor | InvalidSourceDocument
  | DuplicateChangeRequest | RequestNotFound | RequestDecided | MakerIsChecker

definition PROTECTED_FIELDS :: "vendor_field list" where
  "PROTECTED_FIELDS = [F_iban, F_tax_id]"

definition get_vendor :: "ident \<Rightarrow> vendor_books \<Rightarrow> vendor option" where
  "get_vendor i bk = find (\<lambda>v. vd_id v = i) (vb_vendors bk)"

definition put_vendor :: "vendor \<Rightarrow> vendor_books \<Rightarrow> vendor_books" where
  "put_vendor v bk = bk\<lparr>vb_vendors := map (\<lambda>x. if vd_id x = vd_id v then v else x) (vb_vendors bk)\<rparr>"

definition set_field :: "vendor_field \<Rightarrow> string option \<Rightarrow> vendor \<Rightarrow> vendor" where
  "set_field f x v = v\<lparr>vd_field := (vd_field v)(f := x)\<rparr>"

definition audit_vb :: "string \<Rightarrow> ident \<Rightarrow> vendor_books \<Rightarrow> vendor_books" where
  "audit_vb action target bk = bk\<lparr>vb_trail := vb_trail bk @ [(action, target)]\<rparr>"

section \<open>Operations\<close>

definition none_if_empty :: "string \<Rightarrow> string option" where
  "none_if_empty s = (if s = [] then None else Some s)"

definition normalize :: "vendor_field \<Rightarrow> string option \<Rightarrow> vendor_error + string option" where
  "normalize f x =
     (case x of
        None \<Rightarrow> Inr None
      | Some s \<Rightarrow>
          (case f of
             F_iban \<Rightarrow> (case assert_iban s of Inl e \<Rightarrow> Inl (BadField e) | Inr w \<Rightarrow> Inr (Some w))
           | F_bic \<Rightarrow> (case assert_bic s of Inl e \<Rightarrow> Inl (BadField e) | Inr w \<Rightarrow> Inr (Some w))
           | F_country \<Rightarrow> Inr (Some (py_upper s))
           | _ \<Rightarrow> Inr (none_if_empty (py_strip s))))"

fun normalize_all ::
  "(vendor_field \<times> string option) list \<Rightarrow> (vendor_field \<Rightarrow> string option) \<Rightarrow>
   vendor_error + (vendor_field \<Rightarrow> string option)" where
  "normalize_all [] fs = Inr fs"
| "normalize_all ((f, x) # rest) fs =
     (case normalize f x of Inl e \<Rightarrow> Inl e | Inr y \<Rightarrow> normalize_all rest (fs(f := y)))"

definition normalized_body :: "(vendor_field \<Rightarrow> string option) \<Rightarrow> vendor_error + (vendor_field \<Rightarrow> string option)" where
  "normalized_body body =
     normalize_all (map (\<lambda>f. (f, body f)) [F_iban, F_bic, F_tax_id, F_country, F_category]) (\<lambda>_. None)"

definition new_vendor :: "ident \<Rightarrow> string \<Rightarrow> (vendor_field \<Rightarrow> string option) \<Rightarrow> vendor" where
  "new_vendor vid name fs =
     \<lparr>vd_id = vid, vd_name = py_strip name, vd_field = fs, vd_version = 1,
      vd_status = (if truthy (fs F_iban) \<or> truthy (fs F_tax_id) then VendorProvisional else VendorActive)\<rparr>"

definition create_vendor ::
  "ident \<Rightarrow> string \<Rightarrow> (vendor_field \<Rightarrow> string option) \<Rightarrow> vendor_books \<Rightarrow> vendor_error + vendor_books" where
  "create_vendor vid name body bk =
     (if \<exists>v \<in> set (vb_vendors bk). vd_name v = py_strip name then Inl VendorExists
      else
        (case normalized_body body of
           Inl e \<Rightarrow> Inl e
         | Inr fs \<Rightarrow>
             Inr (audit_vb ''vendor.create'' vid
               (bk\<lparr>vb_vendors := vb_vendors bk @ [new_vendor vid name fs]\<rparr>))))"

definition get_or_create_vendor :: "ident \<Rightarrow> string \<Rightarrow> vendor_books \<Rightarrow> vendor_books \<times> vendor" where
  "get_or_create_vendor vid name bk =
     (case find (\<lambda>v. vd_name v = py_strip name) (vb_vendors bk) of
        Some v \<Rightarrow> (bk, v)
      | None \<Rightarrow>
          let v = \<lparr>vd_id = vid, vd_name = py_strip name, vd_field = (\<lambda>_. None), vd_version = 1,
                   vd_status = VendorActive\<rparr>
          in (bk\<lparr>vb_vendors := vb_vendors bk @ [v]\<rparr>, v))"

definition open_request :: "ident \<Rightarrow> vendor_field \<Rightarrow> change_request list \<Rightarrow> change_request option" where
  "open_request vid f rs = find (\<lambda>r. cr_vendor r = vid \<and> cr_field r = f \<and> cr_status r = CrPending) rs"

text \<open>
  The loop over the submitted fields: the vendor as updated so far, the requests with
  those filed so far, and whether any field was written.
\<close>

fun update_fields ::
  "(vendor_field \<Rightarrow> ident) \<Rightarrow> ident \<Rightarrow> ident option \<Rightarrow> (vendor_field \<times> string option) list \<Rightarrow>
   vendor \<times> vendor_books \<times> bool \<Rightarrow> vendor_error + (vendor \<times> vendor_books \<times> bool)" where
  "update_fields gen actor doc [] st = Inr st"
| "update_fields gen actor doc ((f, raw) # rest) (v, bk, changed) =
     (case normalize f raw of
        Inl e \<Rightarrow> Inl e
      | Inr new \<Rightarrow>
          let old = vd_field v f in
          if new = old then update_fields gen actor doc rest (v, bk, changed)
          else if f \<in> set PROTECTED_FIELDS \<and> truthy old
          then
            (if open_request (vd_id v) f (vb_requests bk) \<noteq> None then Inl DuplicateChangeRequest
             else update_fields gen actor doc rest
               (v, audit_vb ''vendor.change_request'' (gen f) (bk\<lparr>vb_requests := vb_requests bk @
                  [\<lparr>cr_id = gen f, cr_vendor = vd_id v, cr_field = f, cr_old = old, cr_new = new,
                    cr_status = CrPending, cr_requested_by = actor, cr_document = doc,
                    cr_decided_by = None, cr_decided_at = None, cr_note = None\<rparr>]\<rparr>), changed))
          else update_fields gen actor doc rest (set_field f new v, bk, True))"

definition update_vendor ::
  "(vendor_field \<Rightarrow> ident) \<Rightarrow> ident list \<Rightarrow> ident \<Rightarrow> ident \<Rightarrow> int option \<Rightarrow> ident option \<Rightarrow>
   (vendor_field \<times> string option) list \<Rightarrow> vendor_books \<Rightarrow> vendor_error + vendor_books" where
  "update_vendor gen docs actor vid version doc fs bk =
     (case get_vendor vid bk of
        None \<Rightarrow> Inl VendorNotFound
      | Some v \<Rightarrow>
          if version \<noteq> None \<and> version \<noteq> Some (vd_version v) then Inl StaleVendor
          else if doc \<noteq> None \<and> the doc \<notin> set docs then Inl InvalidSourceDocument
          else
            (case update_fields gen actor doc fs (v, bk, False) of
               Inl e \<Rightarrow> Inl e
             | Inr (v', bk', changed) \<Rightarrow>
                 Inr (if changed
                      then audit_vb ''vendor.update'' vid
                        (put_vendor (v'\<lparr>vd_version := vd_version v' + 1\<rparr>) bk')
                      else bk')))"

definition get_request :: "ident \<Rightarrow> vendor_books \<Rightarrow> change_request option" where
  "get_request i bk = find (\<lambda>r. cr_id r = i) (vb_requests bk)"

definition put_request :: "change_request \<Rightarrow> vendor_books \<Rightarrow> vendor_books" where
  "put_request r bk = bk\<lparr>vb_requests := map (\<lambda>x. if cr_id x = cr_id r then r else x) (vb_requests bk)\<rparr>"

definition decided_request ::
  "request_status \<Rightarrow> ident \<Rightarrow> instant \<Rightarrow> string option \<Rightarrow> change_request \<Rightarrow> change_request" where
  "decided_request st who now nt r = r\<lparr>cr_status := st, cr_decided_by := Some who,
     cr_decided_at := Some now, cr_note := nt\<rparr>"

definition approve_change ::
  "ident \<Rightarrow> instant \<Rightarrow> string option \<Rightarrow> ident \<Rightarrow> vendor_books \<Rightarrow> vendor_error + vendor_books" where
  "approve_change approver now nt rid bk =
     (case get_request rid bk of
        None \<Rightarrow> Inl RequestNotFound
      | Some r \<Rightarrow>
          if cr_status r \<noteq> CrPending then Inl RequestDecided
          else if cr_requested_by r = approver then Inl MakerIsChecker
          else
            (case get_vendor (cr_vendor r) bk of
               None \<Rightarrow> Inl VendorNotFound
             | Some v \<Rightarrow>
                 (case (if cr_field r = F_iban then normalize F_iban (cr_new r) else Inr (cr_new r)) of
                    Inl e \<Rightarrow> Inl e
                  | Inr x \<Rightarrow>
                      let v' = set_field (cr_field r) x v in
                      Inr (audit_vb ''vendor.change_approve'' (vd_id v)
                        (put_request (decided_request CrApproved approver now nt r)
                          (put_vendor (v'\<lparr>vd_version := vd_version v' + 1\<rparr>) bk))))))"

definition reject_change ::
  "ident \<Rightarrow> instant \<Rightarrow> string option \<Rightarrow> ident \<Rightarrow> vendor_books \<Rightarrow> vendor_error + vendor_books" where
  "reject_change approver now nt rid bk =
     (case get_request rid bk of
        None \<Rightarrow> Inl RequestNotFound
      | Some r \<Rightarrow>
          if cr_status r \<noteq> CrPending then Inl RequestDecided
          else Inr (audit_vb ''vendor.change_reject'' rid
            (put_request (decided_request CrRejected approver now nt r) bk)))"

definition pending_requests_for :: "ident list \<Rightarrow> vendor_books \<Rightarrow> ident \<Rightarrow> change_request list" where
  "pending_requests_for vids bk vid =
     (if vid \<in> set vids
      then filter (\<lambda>r. cr_vendor r = vid \<and> cr_status r = CrPending) (vb_requests bk) else [])"

definition pending_change_count :: "ident \<Rightarrow> vendor_books \<Rightarrow> nat" where
  "pending_change_count requester bk =
     length (filter (\<lambda>r. cr_status r = CrPending \<and> cr_requested_by r \<noteq> requester) (vb_requests bk))"

section \<open>The steps and their invariant\<close>

definition fresh_vendor :: "ident \<Rightarrow> vendor_books \<Rightarrow> bool" where
  "fresh_vendor vid bk \<longleftrightarrow> vid \<notin> vd_id ` set (vb_vendors bk) \<and> vid \<notin> cr_vendor ` set (vb_requests bk)"

definition fresh_requests :: "(vendor_field \<Rightarrow> ident) \<Rightarrow> vendor_books \<Rightarrow> bool" where
  "fresh_requests gen bk \<longleftrightarrow> inj gen \<and> range gen \<inter> cr_id ` set (vb_requests bk) = {}"

text \<open>A step names the user who takes it.\<close>

inductive vendor_step :: "ident \<Rightarrow> vendor_books \<Rightarrow> vendor_books \<Rightarrow> bool" where
  create: "fresh_vendor vid bk \<Longrightarrow> create_vendor vid name body bk = Inr bk' \<Longrightarrow> vendor_step a bk bk'"
| capture: "fresh_vendor vid bk \<Longrightarrow> get_or_create_vendor vid name bk = (bk', v) \<Longrightarrow> vendor_step a bk bk'"
| update: "fresh_requests gen bk \<Longrightarrow> distinct (map fst fs) \<Longrightarrow>
     update_vendor gen docs a vid version doc fs bk = Inr bk' \<Longrightarrow> vendor_step a bk bk'"
| approve: "approve_change a now nt rid bk = Inr bk' \<Longrightarrow> vendor_step a bk bk'"
| reject: "reject_change a now nt rid bk = Inr bk' \<Longrightarrow> vendor_step a bk bk'"

inductive vendor_reachable :: "vendor_books \<Rightarrow> bool" where
  start: "vendor_reachable \<lparr>vb_vendors = [], vb_requests = [], vb_trail = []\<rparr>"
| step: "vendor_reachable bk \<Longrightarrow> vendor_step a bk bk' \<Longrightarrow> vendor_reachable bk'"

definition canonical_iban :: "string option \<Rightarrow> bool" where
  "canonical_iban x \<longleftrightarrow> (case x of None \<Rightarrow> True | Some w \<Rightarrow> is_valid_iban w \<and> normalize_iban w = w)"

definition pending_ok :: "vendor_books \<Rightarrow> change_request \<Rightarrow> bool" where
  "pending_ok bk r \<longleftrightarrow> (cr_status r = CrPending \<longrightarrow>
     cr_field r \<in> set PROTECTED_FIELDS \<and> (cr_field r = F_iban \<longrightarrow> canonical_iban (cr_new r)) \<and>
     (\<exists>v \<in> set (vb_vendors bk). vd_id v = cr_vendor r \<and> vd_field v (cr_field r) = cr_old r \<and> truthy (cr_old r)) \<and>
     (\<forall>r' \<in> set (vb_requests bk). cr_vendor r' = cr_vendor r \<longrightarrow> cr_field r' = cr_field r \<longrightarrow>
        cr_status r' = CrPending \<longrightarrow> r' = r))"

definition vendors_ok :: "vendor_books \<Rightarrow> bool" where
  "vendors_ok bk \<longleftrightarrow> distinct (map vd_id (vb_vendors bk)) \<and> distinct (map cr_id (vb_requests bk)) \<and>
     (\<forall>v \<in> set (vb_vendors bk). canonical_iban (vd_field v F_iban)) \<and>
     (\<forall>r \<in> set (vb_requests bk). pending_ok bk r)"

section \<open>Lemmas\<close>

lemma get_vendor_Some: "get_vendor i bk = Some v \<Longrightarrow> v \<in> set (vb_vendors bk) \<and> vd_id v = i"
  by (auto simp: get_vendor_def find_Some_iff in_set_conv_nth)

lemma get_request_Some: "get_request i bk = Some r \<Longrightarrow> r \<in> set (vb_requests bk) \<and> cr_id r = i"
  by (auto simp: get_request_def find_Some_iff in_set_conv_nth)

lemma open_request_None:
  "open_request vid f rs = None \<longleftrightarrow>
     (\<forall>r \<in> set rs. cr_vendor r = vid \<longrightarrow> cr_field r = f \<longrightarrow> cr_status r \<noteq> CrPending)"
  by (auto simp: open_request_def find_None_iff)

lemma vendor_book_simps [simp]:
  "vb_vendors (audit_vb a t bk) = vb_vendors bk" "vb_requests (audit_vb a t bk) = vb_requests bk"
  "vb_requests (put_vendor v bk) = vb_requests bk" "vb_vendors (put_request r bk) = vb_vendors bk"
  "map vd_id (vb_vendors (put_vendor v bk)) = map vd_id (vb_vendors bk)"
  "map cr_id (vb_requests (put_request r bk)) = map cr_id (vb_requests bk)"
  by (simp_all add: audit_vb_def put_vendor_def put_request_def o_def)

lemma set_field_simps [simp]:
  "vd_field (set_field f x v) g = (if g = f then x else vd_field v g)"
  "vd_id (set_field f x v) = vd_id v" "vd_version (set_field f x v) = vd_version v"
  by (simp_all add: set_field_def)

lemma normalize_iban_canonical: "normalize F_iban x = Inr y \<Longrightarrow> canonical_iban y"
  by (auto simp: normalize_def canonical_iban_def assert_iban_Inr split: option.splits sum.splits)

lemma put_vendor_set:
  "distinct (map vd_id (vb_vendors bk)) \<Longrightarrow> v \<in> set (vb_vendors bk) \<Longrightarrow> vd_id v' = vd_id v \<Longrightarrow>
     set (vb_vendors (put_vendor v' bk)) = insert v' (set (vb_vendors bk) - {v})"
  by (auto simp: put_vendor_def distinct_map inj_on_def image_iff split: if_splits)

lemma put_request_set:
  "distinct (map cr_id (vb_requests bk)) \<Longrightarrow> r \<in> set (vb_requests bk) \<Longrightarrow> cr_id r' = cr_id r \<Longrightarrow>
     set (vb_requests (put_request r' bk)) = insert r' (set (vb_requests bk) - {r})"
  by (auto simp: put_request_def distinct_map inj_on_def image_iff split: if_splits)

lemma normalize_canonical: "canonical_iban x \<Longrightarrow> normalize F_iban x = Inr x"
  by (auto simp: normalize_def canonical_iban_def assert_iban_def Let_def split: option.splits)

text \<open>Replacing a vendor whose pending fields are untouched.\<close>

lemma vendors_ok_put:
  assumes ok: "vendors_ok bk" and v: "v \<in> set (vb_vendors bk)" and id: "vd_id v' = vd_id v"
    and can: "canonical_iban (vd_field v' F_iban)"
    and keep: "\<And>r. r \<in> set (vb_requests bk) \<Longrightarrow> cr_status r = CrPending \<Longrightarrow> cr_vendor r = vd_id v \<Longrightarrow>
      vd_field v' (cr_field r) = vd_field v (cr_field r)"
  shows "vendors_ok (put_vendor v' bk)"
proof -
  have dist: "distinct (map vd_id (vb_vendors bk))" using ok by (simp add: vendors_ok_def)
  have set1: "set (vb_vendors (put_vendor v' bk)) = insert v' (set (vb_vendors bk) - {v})"
    by (rule put_vendor_set [OF dist v id])
  have "pending_ok (put_vendor v' bk) r" if "r \<in> set (vb_requests bk)" for r
  proof (cases "cr_status r = CrPending")
    case False
    then show ?thesis by (simp add: pending_ok_def)
  next
    case True
    have r: "pending_ok bk r" using ok that by (simp add: vendors_ok_def)
    then obtain w where w: "w \<in> set (vb_vendors bk)" "vd_id w = cr_vendor r"
      "vd_field w (cr_field r) = cr_old r" "truthy (cr_old r)"
      using True by (auto simp: pending_ok_def)
    have "\<exists>w \<in> set (vb_vendors (put_vendor v' bk)). vd_id w = cr_vendor r \<and> vd_field w (cr_field r) = cr_old r"
    proof (cases "w = v")
      case True
      with w keep [OF that \<open>cr_status r = CrPending\<close>] id set1 show ?thesis by auto
    next
      case False
      with w set1 show ?thesis by auto
    qed
    with r w(4) show ?thesis by (auto simp: pending_ok_def)
  qed
  then show ?thesis
    using ok can set1 by (auto simp: vendors_ok_def)
qed

lemma update_fields_ok:
  assumes "update_fields gen actor doc fs (v, bk, ch) = Inr (v', bk', ch')"
    and "vendors_ok bk" and "v0 \<in> set (vb_vendors bk)" and "vd_id v = vd_id v0"
    and "distinct (map fst fs)" and "inj gen"
    and "\<forall>f \<in> fst ` set fs. gen f \<notin> cr_id ` set (vb_requests bk) \<and> vd_field v f = vd_field v0 f"
    and "\<forall>f \<in> set PROTECTED_FIELDS. truthy (vd_field v0 f) \<longrightarrow> vd_field v f = vd_field v0 f"
    and "canonical_iban (vd_field v F_iban)"
  shows "vendors_ok bk' \<and> vb_vendors bk' = vb_vendors bk \<and> vd_id v' = vd_id v0 \<and>
    (\<forall>f \<in> set PROTECTED_FIELDS. truthy (vd_field v0 f) \<longrightarrow> vd_field v' f = vd_field v0 f) \<and>
    canonical_iban (vd_field v' F_iban)"
  using assms
proof (induction fs arbitrary: v bk ch)
  case Nil
  then show ?case by simp
next
  case (Cons p fs)
  obtain f raw where p: "p = (f, raw)" by (cases p)
  obtain new where new: "normalize f raw = Inr new"
    using Cons.prems(1) by (cases "normalize f raw") (auto simp: p)
  let ?old = "vd_field v f"
  consider "new = ?old" | "new \<noteq> ?old" "f \<in> set PROTECTED_FIELDS" "truthy ?old"
    | "new \<noteq> ?old" "\<not> (f \<in> set PROTECTED_FIELDS \<and> truthy ?old)" by blast
  then show ?case
  proof cases
    case 1
    then show ?thesis
      using Cons.IH [of v bk ch] Cons.prems by (simp add: p new)
  next
    case 2
    have free: "open_request (vd_id v) f (vb_requests bk) = None"
      using Cons.prems(1) 2 by (auto simp: p new Let_def split: if_splits)
    define r where "r = \<lparr>cr_id = gen f, cr_vendor = vd_id v, cr_field = f, cr_old = ?old, cr_new = new,
      cr_status = CrPending, cr_requested_by = actor, cr_document = doc, cr_decided_by = None,
      cr_decided_at = None, cr_note = None\<rparr>"
    define bk1 where "bk1 = audit_vb ''vendor.change_request'' (gen f) (bk\<lparr>vb_requests := vb_requests bk @ [r]\<rparr>)"
    have bk1: "vb_vendors bk1 = vb_vendors bk" "vb_requests bk1 = vb_requests bk @ [r]"
      by (simp_all add: bk1_def)
    have step: "update_fields gen actor doc fs (v, bk1, ch) = Inr (v', bk', ch')"
      using Cons.prems(1) 2 free by (simp add: p new bk1_def r_def)
    have old: "?old = vd_field v0 f" and fresh: "gen f \<notin> cr_id ` set (vb_requests bk)"
      using Cons.prems(7) by (auto simp: p)
    have can: "f = F_iban \<Longrightarrow> canonical_iban new"
      using new normalize_iban_canonical by blast
    have mine: "pending_ok bk1 r"
      using 2 old can free Cons.prems(3,4)
      by (auto simp: pending_ok_def bk1 r_def open_request_None)
    have others: "pending_ok bk1 r'" if "r' \<in> set (vb_requests bk)" for r'
    proof -
      have "pending_ok bk r'" using Cons.prems(2) that by (simp add: vendors_ok_def)
      moreover have "cr_status r' = CrPending \<Longrightarrow> cr_vendor r' = vd_id v \<Longrightarrow> cr_field r' \<noteq> f"
        using free that by (auto simp: open_request_None)
      ultimately show ?thesis by (auto simp: pending_ok_def bk1 r_def)
    qed
    have "vendors_ok bk1"
      using Cons.prems(2) mine others fresh by (auto simp: vendors_ok_def bk1) (simp add: r_def)+
    moreover have "\<forall>g \<in> fst ` set fs. gen g \<notin> cr_id ` set (vb_requests bk1) \<and> vd_field v g = vd_field v0 g"
      using Cons.prems(5-7) by (auto simp: p bk1 r_def dest: injD)
    ultimately show ?thesis
      using Cons.IH [OF step] Cons.prems by (simp add: bk1 p)
  next
    case 3
    have step: "update_fields gen actor doc fs (set_field f new v, bk, True) = Inr (v', bk', ch')"
      using Cons.prems(1) 3 by (auto simp: p new Let_def split: if_splits)
    have old: "?old = vd_field v0 f" using Cons.prems(7) by (auto simp: p)
    have "canonical_iban (vd_field (set_field f new v) F_iban)"
      using Cons.prems(9) new normalize_iban_canonical by auto
    moreover have "\<forall>g \<in> fst ` set fs. gen g \<notin> cr_id ` set (vb_requests bk) \<and>
        vd_field (set_field f new v) g = vd_field v0 g"
      using Cons.prems(5,7) by (auto simp: p)
    moreover have "\<forall>g \<in> set PROTECTED_FIELDS. truthy (vd_field v0 g) \<longrightarrow>
        vd_field (set_field f new v) g = vd_field v0 g"
      using Cons.prems(8) 3 old by auto
    ultimately show ?thesis
      using Cons.IH [OF step] Cons.prems by (simp add: p)
  qed
qed

section \<open>Every step keeps the invariant and protects the payee\<close>

definition payee_effect :: "ident \<Rightarrow> vendor_books \<Rightarrow> vendor_books \<Rightarrow> bool" where
  "payee_effect a bk bk' \<longleftrightarrow>
     (\<forall>v \<in> set (vb_vendors bk). \<forall>f \<in> set PROTECTED_FIELDS. truthy (vd_field v f) \<longrightarrow>
        (\<exists>v' \<in> set (vb_vendors bk'). vd_id v' = vd_id v \<and>
           (vd_field v' f = vd_field v f \<or>
            (\<exists>r \<in> set (vb_requests bk). cr_status r = CrPending \<and> cr_vendor r = vd_id v \<and>
               cr_field r = f \<and> cr_old r = vd_field v f \<and> cr_requested_by r \<noteq> a \<and>
               vd_field v' f = cr_new r))))"

lemma payee_effect_same:
  "set (vb_vendors bk) \<subseteq> set (vb_vendors bk') \<Longrightarrow> payee_effect a bk bk'"
  unfolding payee_effect_def by blast

lemma vendors_ok_append:
  assumes ok: "vendors_ok bk" and new: "fresh_vendor (vd_id v) bk"
    and can: "canonical_iban (vd_field v F_iban)"
    and bk': "vb_vendors bk' = vb_vendors bk @ [v]" "vb_requests bk' = vb_requests bk"
  shows "vendors_ok bk'"
proof -
  have "pending_ok bk' r" if "r \<in> set (vb_requests bk)" for r
    using ok that by (auto simp: vendors_ok_def pending_ok_def bk')
  then show ?thesis
    using ok new can by (auto simp: vendors_ok_def fresh_vendor_def bk')
qed

lemma create_ok:
  assumes ok: "vendors_ok bk" and new: "fresh_vendor vid bk"
    and step: "create_vendor vid name body bk = Inr bk'"
  shows "vendors_ok bk' \<and> payee_effect a bk bk'"
proof -
  obtain fs where fs: "normalized_body body = Inr fs"
    and bk': "vb_vendors bk' = vb_vendors bk @ [new_vendor vid name fs]" "vb_requests bk' = vb_requests bk"
    using step by (auto simp: create_vendor_def split: if_splits sum.splits)
  have "canonical_iban (vd_field (new_vendor vid name fs) F_iban)"
    using fs by (auto simp: normalized_body_def new_vendor_def split: sum.splits dest: normalize_iban_canonical)
  then show ?thesis
    using vendors_ok_append [OF ok _ _ bk'] new payee_effect_same [of bk bk' a] bk'
    by (auto simp: new_vendor_def)
qed

lemma capture_ok:
  assumes ok: "vendors_ok bk" and new: "fresh_vendor vid bk"
    and step: "get_or_create_vendor vid name bk = (bk', v)"
  shows "vendors_ok bk' \<and> payee_effect a bk bk'"
proof (cases "find (\<lambda>v. vd_name v = py_strip name) (vb_vendors bk)")
  case None
  with step have bk': "vb_vendors bk' = vb_vendors bk @ [v]" "vb_requests bk' = vb_requests bk"
    and v: "vd_id v = vid" "vd_field v F_iban = None"
    by (auto simp: get_or_create_vendor_def Let_def)
  have "canonical_iban (vd_field v F_iban)" by (simp add: canonical_iban_def v)
  then show ?thesis
    using vendors_ok_append [OF ok _ _ bk'] new v payee_effect_same [of bk bk' a] bk' by auto
next
  case (Some w)
  with step ok show ?thesis by (auto simp: get_or_create_vendor_def intro: payee_effect_same)
qed

lemma update_ok:
  assumes ok: "vendors_ok bk" and fresh: "fresh_requests gen bk" and once: "distinct (map fst fs)"
    and step: "update_vendor gen docs a vid version doc fs bk = Inr bk'"
  shows "vendors_ok bk' \<and> payee_effect a bk bk'"
proof -
  obtain v0 where v0: "get_vendor vid bk = Some v0"
    using step by (auto simp: update_vendor_def split: option.splits)
  obtain v' bk1 ch where run: "update_fields gen a doc fs (v0, bk, False) = Inr (v', bk1, ch)"
    and bk': "bk' = (if ch then audit_vb ''vendor.update'' vid (put_vendor (v'\<lparr>vd_version := vd_version v' + 1\<rparr>) bk1)
      else bk1)"
    using step v0 by (auto simp: update_vendor_def split: if_splits sum.splits)
  have mem: "v0 \<in> set (vb_vendors bk)" "vd_id v0 = vid" using get_vendor_Some [OF v0] by auto
  have res: "vendors_ok bk1 \<and> vb_vendors bk1 = vb_vendors bk \<and> vd_id v' = vd_id v0 \<and>
    (\<forall>f \<in> set PROTECTED_FIELDS. truthy (vd_field v0 f) \<longrightarrow> vd_field v' f = vd_field v0 f) \<and>
    canonical_iban (vd_field v' F_iban)"
    using ok fresh mem
    by (intro update_fields_ok [OF run ok mem(1) refl once]) (auto simp: fresh_requests_def vendors_ok_def)
  define w where "w = v'\<lparr>vd_version := vd_version v' + 1\<rparr>"
  have w: "vd_id w = vd_id v0" "\<And>f. vd_field w f = vd_field v' f" using res by (simp_all add: w_def)
  have keep: "vd_field w (cr_field r) = vd_field v0 (cr_field r)"
    if "r \<in> set (vb_requests bk1)" "cr_status r = CrPending" "cr_vendor r = vd_id v0" for r
  proof -
    have "pending_ok bk1 r" using res that(1) by (simp add: vendors_ok_def)
    with that(2) obtain u where "cr_field r \<in> set PROTECTED_FIELDS" "u \<in> set (vb_vendors bk1)"
      "vd_id u = cr_vendor r" "vd_field u (cr_field r) = cr_old r" "truthy (cr_old r)"
      by (auto simp: pending_ok_def)
    moreover from this have "u = v0"
      using that(3) mem res ok by (auto simp: vendors_ok_def distinct_map inj_on_def)
    ultimately show ?thesis using res w by auto
  qed
  have put: "vendors_ok (put_vendor w bk1)"
    using res mem w keep by (intro vendors_ok_put [of bk1 v0 w]) auto
  then have "vendors_ok bk'"
    using res unfolding bk' w_def [symmetric]
    by (auto simp: vendors_ok_def pending_ok_def)
  moreover have "payee_effect a bk bk'"
  proof -
    have "set (vb_vendors (put_vendor w bk1)) = insert w (set (vb_vendors bk) - {v0})"
      using put_vendor_set [of bk1 v0 w] ok mem res w by (simp add: vendors_ok_def)
    then show ?thesis
      using res w mem unfolding bk' w_def [symmetric] payee_effect_def by auto
  qed
  ultimately show ?thesis by simp
qed

lemma decide_ok:
  assumes ok: "vendors_ok bk" and r: "r \<in> set (vb_requests bk)" and st: "cr_status r' \<noteq> CrPending"
    and id: "cr_id r' = cr_id r"
  shows "vendors_ok (put_request r' bk)"
proof -
  have set1: "set (vb_requests (put_request r' bk)) = insert r' (set (vb_requests bk) - {r})"
    using ok r id by (intro put_request_set) (auto simp: vendors_ok_def)
  have "pending_ok (put_request r' bk) q" if "q \<in> set (vb_requests (put_request r' bk))" for q
    using that ok st set1 by (auto simp: vendors_ok_def pending_ok_def)
  then show ?thesis using ok by (auto simp: vendors_ok_def)
qed

lemma reject_ok:
  assumes ok: "vendors_ok bk" and step: "reject_change a now nt rid bk = Inr bk'"
  shows "vendors_ok bk' \<and> payee_effect a bk bk'"
proof -
  obtain r where r: "get_request rid bk = Some r"
    and bk': "bk' = audit_vb ''vendor.change_reject'' rid (put_request (decided_request CrRejected a now nt r) bk)"
    using step by (auto simp: reject_change_def split: option.splits if_splits)
  have "vendors_ok (put_request (decided_request CrRejected a now nt r) bk)"
    using get_request_Some [OF r] by (intro decide_ok [OF ok, of r]) (auto simp: decided_request_def)
  then show ?thesis
    by (auto simp: bk' vendors_ok_def pending_ok_def intro: payee_effect_same)
qed

lemma approve_ok:
  assumes ok: "vendors_ok bk" and step: "approve_change a now nt rid bk = Inr bk'"
  shows "vendors_ok bk' \<and> payee_effect a bk bk'"
proof -
  obtain r where r: "get_request rid bk = Some r" "cr_status r = CrPending" "cr_requested_by r \<noteq> a"
    using step by (auto simp: approve_change_def split: option.splits if_splits)
  have rm: "r \<in> set (vb_requests bk)" using get_request_Some [OF r(1)] by simp
  have pend: "pending_ok bk r" using ok rm by (simp add: vendors_ok_def)
  obtain v where v: "get_vendor (cr_vendor r) bk = Some v"
    using step r by (auto simp: approve_change_def split: option.splits)
  have vm: "v \<in> set (vb_vendors bk)" "vd_id v = cr_vendor r" using get_vendor_Some [OF v] by auto
  have norm: "(if cr_field r = F_iban then normalize F_iban (cr_new r) else Inr (cr_new r)) = Inr (cr_new r)"
    using pend r(2) normalize_canonical by (auto simp: pending_ok_def)
  define w where "w = (set_field (cr_field r) (cr_new r) v)\<lparr>vd_version := vd_version v + 1\<rparr>"
  define r' where "r' = decided_request CrApproved a now nt r"
  have bk': "bk' = audit_vb ''vendor.change_approve'' (vd_id v) (put_request r' (put_vendor w bk))"
    using step r v norm by (simp add: approve_change_def Let_def w_def r'_def)
  have w: "vd_id w = vd_id v" "\<And>f. vd_field w f = (if f = cr_field r then cr_new r else vd_field v f)"
    by (simp_all add: w_def)
  have stored: "vd_field v (cr_field r) = cr_old r"
    using pend r(2) vm ok by (auto simp: pending_ok_def vendors_ok_def distinct_map inj_on_def)
  define bk1 where "bk1 = put_request r' bk"
  have ok1: "vendors_ok bk1"
    unfolding bk1_def r'_def by (rule decide_ok [OF ok rm]) (simp_all add: decided_request_def)
  have set1: "set (vb_requests bk1) = insert r' (set (vb_requests bk) - {r})"
    unfolding bk1_def r'_def
    using ok rm by (intro put_request_set) (auto simp: vendors_ok_def decided_request_def)
  have decd: "cr_status r' = CrApproved" by (simp add: r'_def decided_request_def)
  have keep: "vd_field w (cr_field q) = vd_field v (cr_field q)"
    if "q \<in> set (vb_requests bk1)" "cr_status q = CrPending" "cr_vendor q = vd_id v" for q
  proof -
    have "q \<in> set (vb_requests bk)" "q \<noteq> r"
      using that(1,2) set1 decd by auto
    then have "cr_field q \<noteq> cr_field r"
      using pend r(2) vm(2) that(2,3) by (auto simp: pending_ok_def)
    then show ?thesis by (simp add: w)
  qed
  have can: "canonical_iban (vd_field w F_iban)"
    using ok vm(1) pend r(2) w(2) [of F_iban] by (auto simp: vendors_ok_def pending_ok_def)
  have "vendors_ok (put_vendor w bk1)"
    using vm can keep w(1) by (intro vendors_ok_put [OF ok1, of v]) (auto simp: bk1_def)
  moreover have "vb_vendors (put_vendor w bk1) = vb_vendors bk'" "vb_requests (put_vendor w bk1) = vb_requests bk'"
    by (simp_all add: bk' bk1_def put_vendor_def put_request_def)
  ultimately have "vendors_ok bk'" by (auto simp: vendors_ok_def pending_ok_def)
  moreover have set': "set (vb_vendors bk') = insert w (set (vb_vendors bk) - {v})"
    using put_vendor_set [of bk v w] ok vm w(1) by (simp add: bk' vendors_ok_def)
  have "payee_effect a bk bk'"
    unfolding payee_effect_def
  proof (intro ballI impI)
    fix u f assume u: "u \<in> set (vb_vendors bk)" "truthy (vd_field u f)"
    let ?P = "\<lambda>v'. vd_id v' = vd_id u \<and> (vd_field v' f = vd_field u f \<or>
      (\<exists>r \<in> set (vb_requests bk). cr_status r = CrPending \<and> cr_vendor r = vd_id u \<and> cr_field r = f \<and>
         cr_old r = vd_field u f \<and> cr_requested_by r \<noteq> a \<and> vd_field v' f = cr_new r))"
    show "\<exists>v' \<in> set (vb_vendors bk'). ?P v'"
    proof (cases "u = v")
      case True
      have "?P w" unfolding True using w vm stored rm r(2,3) by (cases "f = cr_field r") auto
      then show ?thesis using set' by blast
    next
      case False
      then show ?thesis using u(1) set' by blast
    qed
  qed
  ultimately show ?thesis by simp
qed

lemma vendor_step_ok:
  assumes "vendor_step a bk bk'" and ok: "vendors_ok bk"
  shows "vendors_ok bk' \<and> payee_effect a bk bk'"
  using assms(1)
proof (cases rule: vendor_step.cases)
  case create
  then show ?thesis by (intro create_ok [OF ok])
next
  case capture
  then show ?thesis by (intro capture_ok [OF ok])
next
  case update
  then show ?thesis by (intro update_ok [OF ok])
next
  case approve
  then show ?thesis by (intro approve_ok [OF ok])
next
  case reject
  then show ?thesis by (intro reject_ok [OF ok])
qed

lemma reachable_vendors_ok: "vendor_reachable bk \<Longrightarrow> vendors_ok bk"
proof (induction rule: vendor_reachable.induct)
  case start
  show ?case by (simp add: vendors_ok_def)
next
  case (step bk a bk')
  with vendor_step_ok show ?case by blast
qed

section \<open>Properties\<close>

text \<open>
  C4: no single account redirects a payment. In every reachable state, whoever takes the
  next step, a stored IBAN or tax id of an existing vendor either stays as it is or becomes
  exactly the value of a pending request that names the old value and was filed by a
  different user; and every stored IBAN is valid and in canonical form.
\<close>

theorem payee_change_needs_two:
  assumes "vendor_reachable bk" and "vendor_step a bk bk'"
    and "v \<in> set (vb_vendors bk)" and "f \<in> {F_iban, F_tax_id}" and "truthy (vd_field v f)"
  shows "(\<exists>v' \<in> set (vb_vendors bk'). vd_id v' = vd_id v \<and>
      (vd_field v' f = vd_field v f \<or>
       (\<exists>r \<in> set (vb_requests bk). cr_status r = CrPending \<and> cr_vendor r = vd_id v \<and> cr_field r = f \<and>
          cr_old r = vd_field v f \<and> cr_requested_by r \<noteq> a \<and> vd_field v' f = cr_new r))) \<and>
    (\<forall>w \<in> set (vb_vendors bk'). canonical_iban (vd_field w F_iban))"
proof -
  have ok: "vendors_ok bk' \<and> payee_effect a bk bk'"
    by (rule vendor_step_ok [OF assms(2) reachable_vendors_ok [OF assms(1)]])
  have "f \<in> set PROTECTED_FIELDS" using assms(4) by (auto simp: PROTECTED_FIELDS_def)
  with ok assms(3,5) show ?thesis unfolding payee_effect_def vendors_ok_def by blast
qed

definition sample_vendor_books :: vendor_books where
  "sample_vendor_books = \<lparr>vb_vendors = [new_vendor ''v-1'' ''Acme'' ((\<lambda>_. None)(F_tax_id := Some ''LV1''))],
     vb_requests = [], vb_trail = [(''vendor.create'', ''v-1'')]\<rparr>"

lemma sample_vendor_reachable: "vendor_reachable sample_vendor_books"
proof (rule vendor_reachable.step [OF vendor_reachable.start vendor_step.create])
  show "fresh_vendor ''v-1'' \<lparr>vb_vendors = [], vb_requests = [], vb_trail = []\<rparr>"
    by (simp add: fresh_vendor_def)
  have "py_strip ''LV1'' = ''LV1''" by code_simp
  then show "create_vendor ''v-1'' ''Acme'' ((\<lambda>_. None)(F_tax_id := Some ''LV1''))
      \<lparr>vb_vendors = [], vb_requests = [], vb_trail = []\<rparr> = Inr sample_vendor_books"
    by (simp add: create_vendor_def normalized_body_def normalize_def none_if_empty_def audit_vb_def
        sample_vendor_books_def fun_upd_def new_vendor_def cong: if_cong)
      (auto simp: fun_eq_iff)
qed

theorem payee_change_needs_two_witness:
  "\<exists>bk'. update_vendor (\<lambda>f. (case f of F_tax_id \<Rightarrow> ''r-1'' | F_iban \<Rightarrow> ''r-2'' | F_bic \<Rightarrow> ''r-3'' |
        F_country \<Rightarrow> ''r-4'' | F_category \<Rightarrow> ''r-5'')) [] ''u-1'' ''v-1'' (Some 1) None
       [(F_tax_id, Some ''EE2'')] sample_vendor_books = Inr bk' \<and>
     (\<exists>v' \<in> set (vb_vendors bk'). vd_id v' = ''v-1'' \<and> vd_field v' F_tax_id = Some ''LV1'')"
  (is "\<exists>bk'. update_vendor ?gen [] ?u ?v _ None ?fs ?bk = Inr bk' \<and> _")
proof -
  have strip: "py_strip ''EE2'' = ''EE2''" by code_simp
  obtain bk' where step: "update_vendor ?gen [] ?u ?v (Some 1) None ?fs ?bk = Inr bk'"
    by (simp add: update_vendor_def get_vendor_def sample_vendor_books_def new_vendor_def normalize_def
        none_if_empty_def strip PROTECTED_FIELDS_def open_request_def Let_def)
  have "inj ?gen" by (rule injI) (auto split: vendor_field.splits)
  then have "vendor_step ?u ?bk bk'"
    by (intro vendor_step.update [OF _ _ step]) (auto simp: fresh_requests_def sample_vendor_books_def)
  from payee_change_needs_two [OF sample_vendor_reachable this,
      of "new_vendor ''v-1'' ''Acme'' ((\<lambda>_. None)(F_tax_id := Some ''LV1''))" F_tax_id]
  show ?thesis using step by (auto simp: sample_vendor_books_def new_vendor_def)
qed

end
