(* ===== verification/PaymentRun.thy ===== *)
theory PaymentRun
  imports SupplierInvoice Vendors CsvSafety "HOL-Library.List_Lexorder" "HOL-Library.Char_ord"
begin

text \<open>
  Supplier payment runs: \<open>services/payment_run.py\<close> (group, approve, pay, cancel, export)
  with the handlers of \<open>api/routes/payment_runs.py\<close>, and the bank file of
  \<open>services/sepa.py\<close> as the record of the fields it serializes. Ids, dates and times are
  arguments; a row lock is the atomicity of a step.
\<close>

section \<open>State\<close>

datatype run_status = RunOpen | RunApproved | RunPaid | RunCancelled

record payment_run =
  pr_id :: ident
  pr_reference :: "string option"
  pr_method :: string
  pr_status :: run_status
  pr_note :: "string option"
  pr_total_eur :: decimal
  pr_paid_at :: "instant option"
  pr_created_by :: "string option"
  pr_created_by_id :: "ident option"
  pr_approved_by :: "string option"
  pr_approved_by_id :: "ident option"
  pr_approved_at :: "instant option"
  pr_exported_at :: "instant option"
  pr_export_count :: nat
  pr_last_msg_id :: "string option"
  pr_version :: int

record pay_books =
  pb_ap :: ap_books
  pb_vendors :: vendor_books
  pb_runs :: "payment_run list"

record run_actor =
  ra_id :: "ident option"
  ra_email :: "string option"
  ra_platform_admin :: bool

datatype sod_role = RoleCreator | RoleApprover

datatype run_error =
    RunNotFound | StaleRun | NothingSelected | InvoicesNotFound "ident list"
  | NotScheduled ident | AlreadyInRun ident
  | VendorChangePending ident | VendorNotConfirmed ident | NoEurValue ident
  | WrongRunStatus run_status | RunMakerIsChecker sod_role | RunEmpty | RunInvoice ap_error
  | RunNotExportable | AlreadyExported nat | SkippedPayees "string list" | SepaRefused

definition EXPORTABLE_STATUSES :: "run_status list" where
  "EXPORTABLE_STATUSES = [RunApproved, RunPaid]"

definition get_run :: "ident \<Rightarrow> pay_books \<Rightarrow> payment_run option" where
  "get_run i bk = find (\<lambda>r. pr_id r = i) (pb_runs bk)"

definition put_run :: "payment_run \<Rightarrow> pay_books \<Rightarrow> pay_books" where
  "put_run r bk = bk\<lparr>pb_runs := map (\<lambda>x. if pr_id x = pr_id r then r else x) (pb_runs bk)\<rparr>"

section \<open>Segregation of duties\<close>

definition same_handle :: "string option \<Rightarrow> string option \<Rightarrow> bool" where
  "same_handle a b \<longleftrightarrow> truthy a \<and> truthy b \<and> a = b"

definition sod_conflict :: "payment_run \<Rightarrow> run_actor \<Rightarrow> bool \<Rightarrow> sod_role option" where
  "sod_conflict r u include_approver =
     (if same_handle (ra_id u) (pr_created_by_id r) \<or> same_handle (ra_email u) (pr_created_by r)
      then Some RoleCreator
      else if include_approver \<and>
        (same_handle (ra_id u) (pr_approved_by_id r) \<or> same_handle (ra_email u) (pr_approved_by r))
      then Some RoleApprover
      else None)"

text \<open>The audit entries an override leaves, or the refusal.\<close>

definition enforce_sod ::
  "payment_run \<Rightarrow> run_actor \<Rightarrow> bool \<Rightarrow> bool \<Rightarrow> run_error + (string \<times> ident) list" where
  "enforce_sod r u override_sod include_approver =
     (case sod_conflict r u include_approver of
        None \<Rightarrow> Inr []
      | Some rl \<Rightarrow>
          if ra_platform_admin u \<and> override_sod then Inr [(''payment_run.sod_override'', pr_id r)]
          else Inl (RunMakerIsChecker rl))"

definition audit_all :: "(string \<times> ident) list \<Rightarrow> ap_books \<Rightarrow> ap_books" where
  "audit_all es bk = bk\<lparr>ap_trail := ap_trail bk @ es\<rparr>"

section \<open>The fraud gate and the EUR value\<close>

definition vendor_gate :: "vendor_books \<Rightarrow> bool \<Rightarrow> ident list \<Rightarrow> ident \<Rightarrow> run_error option" where
  "vendor_gate vb allow_provisional vids vid =
     (case get_vendor vid vb of
        None \<Rightarrow> None
      | Some v \<Rightarrow>
          if pending_requests_for vids vb vid \<noteq> [] then Some (VendorChangePending vid)
          else if vd_status v = VendorProvisional \<and> \<not> allow_provisional then Some (VendorNotConfirmed vid)
          else None)"

definition assert_vendors_payable ::
  "vendor_books \<Rightarrow> bool \<Rightarrow> supplier_invoice list \<Rightarrow> run_error + unit" where
  "assert_vendors_payable vb allow_provisional invoices =
     (let vids = sort (remdups (filter (\<lambda>v. v \<noteq> []) (map si_vendor invoices)))
      in (case List.map_filter (vendor_gate vb allow_provisional vids) vids of
            [] \<Rightarrow> Inr ()
          | e # _ \<Rightarrow> Inl e))"

definition eur_of :: "supplier_invoice \<Rightarrow> run_error + decimal" where
  "eur_of si =
     (case si_total_eur si of
        Some v \<Rightarrow> Inr (q2 v)
      | None \<Rightarrow>
          if py_upper (if si_currency si = [] then ''EUR'' else si_currency si) = ''EUR''
          then Inr (q2 (si_total si))
          else Inl (NoEurValue (si_id si)))"

definition eur_or_none :: "supplier_invoice \<Rightarrow> decimal option" where
  "eur_or_none si = (case eur_of si of Inl _ \<Rightarrow> None | Inr v \<Rightarrow> Some v)"

fun eur_sum :: "supplier_invoice list \<Rightarrow> run_error + decimal" where
  "eur_sum [] = Inr 0"
| "eur_sum (si # rest) =
     (case eur_of si of
        Inl e \<Rightarrow> Inl e
      | Inr v \<Rightarrow> (case eur_sum rest of Inl e \<Rightarrow> Inl e | Inr s \<Rightarrow> Inr (v + s)))"

section \<open>Reads\<close>

definition payable_invoices :: "pay_books \<Rightarrow> supplier_invoice list" where
  "payable_invoices bk =
     filter (\<lambda>si. si_state si = WScheduled \<and> si_run si = None) (ap_invoices (pb_ap bk))"

definition runs_awaiting_check :: "ident \<Rightarrow> pay_books \<Rightarrow> nat" where
  "runs_awaiting_check checker bk =
     length (filter (\<lambda>r. pr_status r = RunOpen \<and>
       (pr_created_by_id r = None \<or> pr_created_by_id r \<noteq> Some checker)) (pb_runs bk))"

definition run_invoices :: "ident \<Rightarrow> ap_books \<Rightarrow> supplier_invoice list" where
  "run_invoices rid ap = sort_key si_number (filter (\<lambda>si. si_run si = Some rid) (ap_invoices ap))"

section \<open>Operations\<close>

definition link_run :: "ident option \<Rightarrow> (supplier_invoice \<Rightarrow> bool) \<Rightarrow> ap_books \<Rightarrow> ap_books" where
  "link_run rid P ap =
     ap\<lparr>ap_invoices := map (\<lambda>si. if P si then si\<lparr>si_run := rid\<rparr> else si) (ap_invoices ap)\<rparr>"

fun check_candidates :: "supplier_invoice list \<Rightarrow> run_error + unit" where
  "check_candidates [] = Inr ()"
| "check_candidates (si # rest) =
     (if si_state si \<noteq> WScheduled then Inl (NotScheduled (si_id si))
      else if truthy (si_run si) then Inl (AlreadyInRun (si_id si))
      else check_candidates rest)"

definition new_run :: "ident \<Rightarrow> string \<Rightarrow> string option \<Rightarrow> run_actor \<Rightarrow> decimal \<Rightarrow> payment_run" where
  "new_run rid meth nt u total_eur =
     \<lparr>pr_id = rid, pr_reference = None, pr_method = meth, pr_status = RunOpen, pr_note = nt,
      pr_total_eur = total_eur, pr_paid_at = None, pr_created_by = ra_email u,
      pr_created_by_id = ra_id u, pr_approved_by = None, pr_approved_by_id = None,
      pr_approved_at = None, pr_exported_at = None, pr_export_count = 0, pr_last_msg_id = None,
      pr_version = 1\<rparr>"

definition create_run ::
  "ident \<Rightarrow> ident list \<Rightarrow> string \<Rightarrow> string option \<Rightarrow> run_actor \<Rightarrow> bool \<Rightarrow> pay_books \<Rightarrow>
   run_error + pay_books" where
  "create_run rid ids meth nt u confirm_provisional bk =
     (if ids = [] then Inl NothingSelected
      else
        let invoices = filter (\<lambda>si. si_id si \<in> set ids) (ap_invoices (pb_ap bk));
            missing = filter (\<lambda>i. i \<notin> si_id ` set invoices) ids
        in if missing \<noteq> [] then Inl (InvoicesNotFound missing)
           else
             (case check_candidates invoices of
                Inl e \<Rightarrow> Inl e
              | Inr _ \<Rightarrow>
                  (case assert_vendors_payable (pb_vendors bk) confirm_provisional invoices of
                     Inl e \<Rightarrow> Inl e
                   | Inr _ \<Rightarrow>
                       (case eur_sum invoices of
                          Inl e \<Rightarrow> Inl e
                        | Inr s \<Rightarrow>
                            Inr (bk\<lparr>pb_runs := pb_runs bk @ [new_run rid meth nt u (q2 s)],
                                    pb_ap := audit_ap ''ap.run_create'' rid
                                      (link_run (Some rid) (\<lambda>si. si_id si \<in> set ids) (pb_ap bk))\<rparr>)))))"

definition load_run :: "ident \<Rightarrow> int option \<Rightarrow> pay_books \<Rightarrow> run_error + payment_run" where
  "load_run rid version bk =
     (case get_run rid bk of
        None \<Rightarrow> Inl RunNotFound
      | Some r \<Rightarrow> if version \<noteq> None \<and> version \<noteq> Some (pr_version r) then Inl StaleRun else Inr r)"

definition approve_run ::
  "run_actor \<Rightarrow> bool \<Rightarrow> instant \<Rightarrow> ident \<Rightarrow> int \<Rightarrow> pay_books \<Rightarrow> run_error + pay_books" where
  "approve_run u override_sod now rid version bk =
     (case load_run rid (Some version) bk of
        Inl e \<Rightarrow> Inl e
      | Inr r \<Rightarrow>
          if pr_status r \<noteq> RunOpen then Inl (WrongRunStatus (pr_status r))
          else
            (case enforce_sod r u override_sod False of
               Inl e \<Rightarrow> Inl e
             | Inr es \<Rightarrow>
                 Inr (put_run (r\<lparr>pr_approved_by := ra_email u, pr_approved_by_id := ra_id u,
                        pr_approved_at := Some now, pr_status := RunApproved,
                        pr_version := pr_version r + 1\<rparr>)
                   (bk\<lparr>pb_ap := audit_all (es @ [(''ap.run_approve'', rid)]) (pb_ap bk)\<rparr>))))"

text \<open>One invoice of a run: settled in full through the ledger, then moved to paid.\<close>

definition settle_one ::
  "(ident \<Rightarrow> ident) \<Rightarrow> ident \<Rightarrow> string \<Rightarrow> string option \<Rightarrow> date \<Rightarrow> supplier_invoice \<Rightarrow> ap_books \<Rightarrow>
   ap_error + ap_books" where
  "settle_one gen rid meth ref today si ap =
     (let (si1, e) = ap_set_cumulative (gen (si_id si)) si (q2 (si_total si)) (Some today) meth ref None
                       (Some rid) today
      in (case advance_to WPaid si1 of
            Inl err \<Rightarrow> Inl err
          | Inr si2 \<Rightarrow> Inr (add_entry e (put_si si2 ap))))"

fun settle_all ::
  "(ident \<Rightarrow> ident) \<Rightarrow> ident \<Rightarrow> string \<Rightarrow> string option \<Rightarrow> date \<Rightarrow> supplier_invoice list \<Rightarrow> ap_books \<Rightarrow>
   ap_error + ap_books" where
  "settle_all gen rid meth ref today [] ap = Inr ap"
| "settle_all gen rid meth ref today (si # rest) ap =
     (case settle_one gen rid meth ref today si ap of
        Inl e \<Rightarrow> Inl e
      | Inr ap' \<Rightarrow> settle_all gen rid meth ref today rest ap')"

fun emit_paid :: "supplier_invoice list \<Rightarrow> ap_books \<Rightarrow> ap_books" where
  "emit_paid [] ap = ap"
| "emit_paid (si # rest) ap = emit_paid rest (emit_ap ''invoice.paid'' (si_id si) ap)"

definition paid_run ::
  "string option \<Rightarrow> string option \<Rightarrow> instant \<Rightarrow> decimal \<Rightarrow> payment_run \<Rightarrow> payment_run" where
  "paid_run ref meth now s r =
     r\<lparr>pr_method := (if truthy meth then the meth else pr_method r), pr_reference := ref,
       pr_status := RunPaid, pr_paid_at := Some now, pr_total_eur := q2 s,
       pr_version := pr_version r + 1\<rparr>"

definition mark_paid ::
  "(ident \<Rightarrow> ident) \<Rightarrow> run_actor \<Rightarrow> bool \<Rightarrow> string option \<Rightarrow> string option \<Rightarrow> instant \<Rightarrow> date \<Rightarrow> ident \<Rightarrow>
   int \<Rightarrow> pay_books \<Rightarrow> run_error + pay_books" where
  "mark_paid gen u override_sod ref meth now today rid version bk =
     (case load_run rid (Some version) bk of
        Inl e \<Rightarrow> Inl e
      | Inr r \<Rightarrow>
          if pr_status r \<noteq> RunApproved then Inl (WrongRunStatus (pr_status r))
          else
            (case enforce_sod r u override_sod True of
               Inl e \<Rightarrow> Inl e
             | Inr es \<Rightarrow>
                 let invoices = run_invoices rid (pb_ap bk) in
                 if invoices = [] then Inl RunEmpty
                 else
                   (case assert_vendors_payable (pb_vendors bk) True invoices of
                      Inl e \<Rightarrow> Inl e
                    | Inr _ \<Rightarrow>
                        (case eur_sum invoices of
                           Inl e \<Rightarrow> Inl e
                         | Inr s \<Rightarrow>
                             let r' = paid_run ref meth now s r
                             in (case settle_all gen rid (pr_method r') ref today invoices
                                        (audit_all es (pb_ap bk)) of
                                   Inl e \<Rightarrow> Inl (RunInvoice e)
                                 | Inr ap \<Rightarrow>
                                     Inr (put_run r' (bk\<lparr>pb_ap := emit_paid invoices
                                       (audit_ap ''ap.run_paid'' rid ap)\<rparr>)))))))"

definition cancel_run :: "ident \<Rightarrow> pay_books \<Rightarrow> run_error + pay_books" where
  "cancel_run rid bk =
     (case load_run rid None bk of
        Inl e \<Rightarrow> Inl e
      | Inr r \<Rightarrow>
          if pr_status r \<notin> {RunOpen, RunApproved} then Inl (WrongRunStatus (pr_status r))
          else Inr (put_run (r\<lparr>pr_status := RunCancelled, pr_version := pr_version r + 1\<rparr>)
                 (bk\<lparr>pb_ap := audit_ap ''ap.run_cancel'' rid
                   (link_run None (\<lambda>si. si_run si = Some rid) (pb_ap bk))\<rparr>)))"

definition assert_exportable :: "payment_run \<Rightarrow> bool \<Rightarrow> run_error + unit" where
  "assert_exportable r confirm_reexport =
     (if pr_status r \<notin> set EXPORTABLE_STATUSES then Inl RunNotExportable
      else if pr_export_count r \<noteq> 0 \<and> \<not> confirm_reexport then Inl (AlreadyExported (pr_export_count r))
      else Inr ())"

definition record_export :: "string option \<Rightarrow> instant \<Rightarrow> payment_run \<Rightarrow> payment_run" where
  "record_export msg_id now r =
     r\<lparr>pr_exported_at := (case pr_exported_at r of None \<Rightarrow> Some now | Some t \<Rightarrow> Some t),
       pr_export_count := pr_export_count r + 1,
       pr_last_msg_id := (if truthy msg_id then msg_id else pr_last_msg_id r)\<rparr>"

record csv_row =
  cw_reference :: string
  cw_number :: string
  cw_amount :: decimal
  cw_currency :: string
  cw_eur :: "decimal option"
  cw_method :: string

definition export_csv :: "payment_run \<Rightarrow> supplier_invoice list \<Rightarrow> csv_row list" where
  "export_csv r invoices =
     map (\<lambda>si. \<lparr>cw_reference = sanitize_cell (Some (str_or (pr_reference r) (pr_id r))),
       cw_number = sanitize_cell (Some (si_number si)), cw_amount = q2 (si_total si),
       cw_currency = si_currency si, cw_eur = eur_or_none si, cw_method = pr_method r\<rparr>) invoices"

definition export_run :: "bool \<Rightarrow> instant \<Rightarrow> ident \<Rightarrow> pay_books \<Rightarrow> run_error + (pay_books \<times> csv_row list)" where
  "export_run confirm_reexport now rid bk =
     (case load_run rid None bk of
        Inl e \<Rightarrow> Inl e
      | Inr r \<Rightarrow>
          (case assert_exportable r confirm_reexport of
             Inl e \<Rightarrow> Inl e
           | Inr _ \<Rightarrow>
               Inr (put_run (record_export None now r)
                      (bk\<lparr>pb_ap := audit_ap ''payment_run.exported'' rid (pb_ap bk)\<rparr>),
                    export_csv r (run_invoices rid (pb_ap bk)))))"

section \<open>Steps, reachability and invariant\<close>

definition actor_ok :: "run_actor \<Rightarrow> bool" where
  "actor_ok u \<longleftrightarrow> truthy (ra_id u)"

inductive run_step :: "pay_books \<Rightarrow> pay_books \<Rightarrow> bool" where
  create: "rid \<notin> pr_id ` set (pb_runs bk) \<Longrightarrow> actor_ok u \<Longrightarrow>
     create_run rid ids meth nt u cp bk = Inr bk' \<Longrightarrow> run_step bk bk'"
| approve: "actor_ok u \<Longrightarrow> approve_run u False now rid v bk = Inr bk' \<Longrightarrow> run_step bk bk'"
| pay: "mark_paid gen u ov ref meth now today rid v bk = Inr bk' \<Longrightarrow> run_step bk bk'"
| cancel: "cancel_run rid bk = Inr bk' \<Longrightarrow> run_step bk bk'"
| export: "export_run c now rid bk = Inr (bk', rows) \<Longrightarrow> run_step bk bk'"

inductive run_steps :: "pay_books \<Rightarrow> pay_books \<Rightarrow> bool" for bk0 where
  refl: "run_steps bk0 bk0"
| step: "run_steps bk0 bk \<Longrightarrow> run_step bk bk' \<Longrightarrow> run_steps bk0 bk'"

definition run_ok :: "payment_run \<Rightarrow> bool" where
  "run_ok r \<longleftrightarrow> truthy (pr_created_by_id r) \<and>
     (pr_status r \<in> {RunApproved, RunPaid} \<longrightarrow>
        truthy (pr_approved_by_id r) \<and> pr_approved_by_id r \<noteq> pr_created_by_id r)"

definition runs_ok :: "pay_books \<Rightarrow> bool" where
  "runs_ok bk \<longleftrightarrow> distinct (map pr_id (pb_runs bk)) \<and> (\<forall>r \<in> set (pb_runs bk). run_ok r)"

text \<open>No step forgets a run or resets its export counter.\<close>

definition counters_grow :: "pay_books \<Rightarrow> pay_books \<Rightarrow> bool" where
  "counters_grow bk bk' \<longleftrightarrow>
     (\<forall>r \<in> set (pb_runs bk). \<exists>r' \<in> set (pb_runs bk'). pr_id r' = pr_id r \<and> pr_export_count r \<le> pr_export_count r')"

section \<open>Lemmas\<close>

lemma get_run_Some: "get_run i bk = Some r \<Longrightarrow> r \<in> set (pb_runs bk) \<and> pr_id r = i"
  by (auto simp: get_run_def find_Some_iff in_set_conv_nth)

lemma get_run_mem:
  "distinct (map pr_id (pb_runs bk)) \<Longrightarrow> r \<in> set (pb_runs bk) \<Longrightarrow> get_run (pr_id r) bk = Some r"
  by (simp add: get_run_def find_filter filter_key_unique first_of_def)

lemma get_si_mem:
  "distinct (map si_id (ap_invoices ap)) \<Longrightarrow> si \<in> set (ap_invoices ap) \<Longrightarrow> get_si (si_id si) ap = Some si"
  by (simp add: get_si_def find_filter filter_key_unique first_of_def)

lemma put_run_simps [simp]:
  "pb_ap (put_run r bk) = pb_ap bk" "pb_vendors (put_run r bk) = pb_vendors bk"
  "map pr_id (pb_runs (put_run r bk)) = map pr_id (pb_runs bk)"
  by (simp_all add: put_run_def o_def)

lemma load_run_Inr [result_iff]:
  "load_run rid v bk = Inr r \<longleftrightarrow> get_run rid bk = Some r \<and> (v = None \<or> v = Some (pr_version r))"
  by (auto simp: load_run_def split: option.splits)

lemma get_run_put: "get_run (pr_id r') bk = Some r \<Longrightarrow> get_run (pr_id r') (put_run r' bk) = Some r'"
proof -
  have "find (\<lambda>x. pr_id x = pr_id r') rs = Some r \<Longrightarrow>
      find (\<lambda>x. pr_id x = pr_id r') (map (\<lambda>x. if pr_id x = pr_id r' then r' else x) rs) = Some r'" for rs
    by (induction rs) (auto split: if_splits)
  then show "get_run (pr_id r') bk = Some r \<Longrightarrow> get_run (pr_id r') (put_run r' bk) = Some r'"
    by (simp add: get_run_def put_run_def)
qed

lemma runs_ok_put:
  assumes ok: "runs_ok bk" and r: "get_run rid bk = Some r" and id: "pr_id r' = pr_id r" and r': "run_ok r'"
    and runs: "pb_runs bk' = pb_runs (put_run r' bk)"
    and cnt: "pr_export_count r \<le> pr_export_count r'"
  shows "runs_ok bk' \<and> counters_grow bk bk'"
proof -
  have mem: "r \<in> set (pb_runs bk)" using get_run_Some [OF r] by simp
  have only: "x = r" if "x \<in> set (pb_runs bk)" "pr_id x = pr_id r" for x
    using ok that mem by (auto simp: runs_ok_def distinct_map inj_on_def)
  have set1: "set (pb_runs bk') = insert r' (set (pb_runs bk) - {r})"
    unfolding runs put_run_def using mem id only by (auto simp: image_iff split: if_splits)
  have "distinct (map pr_id (pb_runs bk'))"
    unfolding runs using ok by (simp add: runs_ok_def)
  then have "runs_ok bk'" using ok r' set1 by (auto simp: runs_ok_def)
  moreover have "counters_grow bk bk'"
    unfolding counters_grow_def set1 using cnt id only by (metis DiffI insert_iff order_refl singletonD)
  ultimately show ?thesis by simp
qed

lemma sod_creator:
  "sod_conflict r u inc = None \<Longrightarrow> truthy (ra_id u) \<Longrightarrow> truthy (pr_created_by_id r) \<Longrightarrow>
     ra_id u \<noteq> pr_created_by_id r"
  by (auto simp: sod_conflict_def same_handle_def split: if_splits)

lemma sod_approver:
  "sod_conflict r u True = None \<Longrightarrow> truthy (ra_id u) \<Longrightarrow> truthy (pr_approved_by_id r) \<Longrightarrow>
     ra_id u \<noteq> pr_approved_by_id r"
  by (auto simp: sod_conflict_def same_handle_def split: if_splits)

lemma enforce_sod_Inr: "enforce_sod r u False inc = Inr es \<longleftrightarrow> sod_conflict r u inc = None \<and> es = []"
  by (auto simp: enforce_sod_def split: option.splits)

lemma approve_run_Inr:
  assumes "approve_run u ov now rid v bk = Inr bk'"
  shows "\<exists>r es. get_run rid bk = Some r \<and> pr_status r = RunOpen \<and> enforce_sod r u ov False = Inr es \<and>
    pb_runs bk' = pb_runs (put_run (r\<lparr>pr_approved_by := ra_email u, pr_approved_by_id := ra_id u,
      pr_approved_at := Some now, pr_status := RunApproved, pr_version := pr_version r + 1\<rparr>) bk)"
  using assms
  by (auto simp: approve_run_def load_run_Inr put_run_def split: sum.splits if_splits)

lemma put_run_runs: "pb_runs (put_run r (bk\<lparr>pb_ap := ap\<rparr>)) = pb_runs (put_run r bk)"
  by (simp add: put_run_def)

lemma mark_paid_Inr:
  assumes "mark_paid gen u ov ref meth now today rid v bk = Inr bk'"
  shows "\<exists>r es s ap. get_run rid bk = Some r \<and> v = pr_version r \<and> pr_status r = RunApproved \<and>
    enforce_sod r u ov True = Inr es \<and> run_invoices rid (pb_ap bk) \<noteq> [] \<and>
    eur_sum (run_invoices rid (pb_ap bk)) = Inr s \<and>
    settle_all gen rid (pr_method (paid_run ref meth now s r)) ref today (run_invoices rid (pb_ap bk)) (audit_all es (pb_ap bk)) = Inr ap \<and>
    bk' = put_run (paid_run ref meth now s r) (bk\<lparr>pb_ap := emit_paid (run_invoices rid (pb_ap bk)) (audit_ap ''ap.run_paid'' rid ap)\<rparr>)"
  using assms
  by (auto simp: mark_paid_def load_run_Inr Let_def split: sum.splits if_splits)

lemma run_step_ok:
  assumes "run_step bk bk'" and ok: "runs_ok bk"
  shows "runs_ok bk' \<and> counters_grow bk bk'"
  using assms(1)
proof (cases rule: run_step.cases)
  case (create rid u ids meth nt cp)
  then obtain s where "pb_runs bk' = pb_runs bk @ [new_run rid meth nt u s]"
    by (auto simp: create_run_def Let_def split: if_splits sum.splits)
  with create ok show ?thesis
    by (auto simp: runs_ok_def run_ok_def new_run_def actor_ok_def counters_grow_def)
next
  case (approve u now rid v)
  from approve_run_Inr [OF approve(2)] obtain r es where r: "get_run rid bk = Some r" "pr_status r = RunOpen"
    "enforce_sod r u False False = Inr es"
    and runs: "pb_runs bk' = pb_runs (put_run (r\<lparr>pr_approved_by := ra_email u, pr_approved_by_id := ra_id u,
      pr_approved_at := Some now, pr_status := RunApproved, pr_version := pr_version r + 1\<rparr>) bk)" by blast
  have rok: "run_ok r" using ok get_run_Some [OF r(1)] by (simp add: runs_ok_def)
  have "ra_id u \<noteq> pr_created_by_id r"
    using sod_creator [of r u False] r(3) approve(1) rok by (simp add: enforce_sod_Inr actor_ok_def run_ok_def)
  with rok approve(1) show ?thesis
    by (intro runs_ok_put [OF ok r(1) _ _ runs]) (auto simp: run_ok_def actor_ok_def)
next
  case (pay gen u ov ref meth now today rid v)
  from mark_paid_Inr [OF this] obtain r s where r: "get_run rid bk = Some r" "pr_status r = RunApproved"
    and runs: "pb_runs bk' = pb_runs (put_run (paid_run ref meth now s r) bk)" using put_run_runs by metis
  have "run_ok r" using ok get_run_Some [OF r(1)] by (simp add: runs_ok_def)
  with r show ?thesis
    by (intro runs_ok_put [OF ok r(1) _ _ runs]) (auto simp: run_ok_def paid_run_def)
next
  case (cancel rid)
  then obtain r where r: "get_run rid bk = Some r"
    and runs: "pb_runs bk' = pb_runs (put_run (r\<lparr>pr_status := RunCancelled, pr_version := pr_version r + 1\<rparr>) bk)"
    by (auto simp: cancel_run_def load_run_Inr put_run_def split: sum.splits if_splits)
  have "run_ok r" using ok get_run_Some [OF r(1)] by (simp add: runs_ok_def)
  then show ?thesis
    by (intro runs_ok_put [OF ok r(1) _ _ runs]) (auto simp: run_ok_def)
next
  case (export c now rid rows)
  then obtain r where r: "get_run rid bk = Some r"
    and runs: "pb_runs bk' = pb_runs (put_run (record_export None now r) bk)"
    by (auto simp: export_run_def load_run_Inr put_run_def split: sum.splits if_splits)
  have "run_ok r" using ok get_run_Some [OF r(1)] by (simp add: runs_ok_def)
  then show ?thesis
    by (intro runs_ok_put [OF ok r(1) _ _ runs]) (auto simp: run_ok_def record_export_def)
qed

lemma counters_grow_trans: "counters_grow a b \<Longrightarrow> counters_grow b c \<Longrightarrow> counters_grow a c"
  unfolding counters_grow_def by (metis le_trans)

lemma run_steps_ok: "run_steps bk bk' \<Longrightarrow> runs_ok bk \<Longrightarrow> runs_ok bk' \<and> counters_grow bk bk'"
proof (induction rule: run_steps.induct)
  case refl
  then show ?case by (auto simp: counters_grow_def)
next
  case (step bk1 bk2)
  then show ?case using run_step_ok counters_grow_trans by blast
qed

text \<open>Settling a list of invoices of the books, each once.\<close>

lemma settle_one_Inr:
  assumes "settle_one gen rid meth ref today si ap = Inr ap'" and get: "get_si (si_id si) ap = Some si"
    and ok: "ap_cache_ok ap"
  shows "ap_cache_ok ap' \<and> (\<forall>j. j \<noteq> si_id si \<longrightarrow> get_si j ap' = get_si j ap) \<and>
    (\<exists>si'. get_si (si_id si) ap' = Some si' \<and> si_state si' = WPaid \<and> ap_paid_of si' = q2 (si_total si))"
proof -
  obtain si1 e where set: "ap_set_cumulative (gen (si_id si)) si (q2 (si_total si)) (Some today) meth ref None
      (Some rid) today = (si1, e)" by (cases "ap_set_cumulative (gen (si_id si)) si (q2 (si_total si))
      (Some today) meth ref None (Some rid) today")
  with assms(1) obtain si2 where adv: "advance_to WPaid si1 = Inr si2"
    and ap': "ap' = add_entry e (put_si si2 ap)"
    by (auto simp: settle_one_def split: sum.splits)
  have si1: "si_id si1 = si_id si" "ap_paid_of si1 = q2 (si_total si)"
    using ap_set_cumulative_fields [OF set] by (simp_all add: ap_paid_of_def)
  have si2: "si_id si2 = si_id si" "si_state si2 = WPaid" "ap_paid_of si2 = ap_paid_of si1"
    using adv si1 by (simp_all add: advance_to_Inr ap_paid_of_def)
  have "ap_cache_ok ap'"
    unfolding ap' by (rule ap_post_cache [OF ok get set si2(1,3)])
  moreover have "get_si j ap' = get_si j ap" if "j \<noteq> si_id si" for j
    using get_put_other [of j si2 ap] that si2(1) by (simp add: ap' get_si_def)
  moreover have "get_si (si_id si) ap' = Some si2"
    using get_put_si [of si2 ap si] get si2(1) by (simp add: ap' get_si_def)
  ultimately show ?thesis using si1 si2 by auto
qed

lemma settle_all_Inr:
  assumes "settle_all gen rid meth ref today sis ap = Inr ap'" and "ap_cache_ok ap"
    and "distinct (map si_id sis)" and "\<forall>si \<in> set sis. get_si (si_id si) ap = Some si"
  shows "ap_cache_ok ap' \<and> (\<forall>j. j \<notin> si_id ` set sis \<longrightarrow> get_si j ap' = get_si j ap) \<and>
    (\<forall>si \<in> set sis. \<exists>si'. get_si (si_id si) ap' = Some si' \<and> si_state si' = WPaid \<and>
       ap_paid_of si' = q2 (si_total si))"
  using assms
proof (induction sis arbitrary: ap)
  case (Cons si sis)
  then obtain ap1 where one: "settle_one gen rid meth ref today si ap = Inr ap1"
    and rest: "settle_all gen rid meth ref today sis ap1 = Inr ap'"
    by (auto split: sum.splits)
  have r1: "ap_cache_ok ap1 \<and> (\<forall>j. j \<noteq> si_id si \<longrightarrow> get_si j ap1 = get_si j ap) \<and>
    (\<exists>si'. get_si (si_id si) ap1 = Some si' \<and> si_state si' = WPaid \<and> ap_paid_of si' = q2 (si_total si))"
    using Cons.prems by (intro settle_one_Inr [OF one]) auto
  have new: "si_id si \<notin> si_id ` set sis" "distinct (map si_id sis)" using Cons.prems(3) by auto
  have "get_si (si_id x) ap1 = Some x" if "x \<in> set sis" for x
  proof -
    have "si_id x \<noteq> si_id si" using new(1) that by (metis imageI)
    with r1 Cons.prems(4) that show ?thesis by simp
  qed
  then have r2: "ap_cache_ok ap' \<and> (\<forall>j. j \<notin> si_id ` set sis \<longrightarrow> get_si j ap' = get_si j ap1) \<and>
    (\<forall>si \<in> set sis. \<exists>si'. get_si (si_id si) ap' = Some si' \<and> si_state si' = WPaid \<and>
       ap_paid_of si' = q2 (si_total si))"
    using r1 new(2) by (intro Cons.IH [OF rest]) auto
  have "get_si (si_id si) ap' = get_si (si_id si) ap1" using r2 new(1) by blast
  with r1 r2 show ?case by simp
qed simp

lemma emit_paid_simps [simp]:
  "ap_invoices (emit_paid sis ap) = ap_invoices ap" "ap_ledger (emit_paid sis ap) = ap_ledger ap"
  by (induction sis arbitrary: ap) simp_all

lemma audit_all_simps [simp]:
  "ap_invoices (audit_all es ap) = ap_invoices ap" "ap_ledger (audit_all es ap) = ap_ledger ap"
  by (simp_all add: audit_all_def)

section \<open>Properties\<close>

text \<open>
  C3: paying a run takes three people. In every state reached from books without runs
  by steps in which nobody uses the platform override at approval, an accepted payment
  without the override is made by a user who is neither the creator nor the approver, and
  those two are different users.
\<close>

theorem paying_takes_three:
  assumes "run_steps bk0 bk" and "pb_runs bk0 = []"
    and "actor_ok u" and "mark_paid gen u False ref meth now today rid v bk = Inr bk'"
  shows "\<exists>r. get_run rid bk = Some r \<and> pr_status r = RunApproved \<and>
    truthy (pr_created_by_id r) \<and> truthy (pr_approved_by_id r) \<and>
    distinct [pr_created_by_id r, pr_approved_by_id r, ra_id u]"
proof -
  have "runs_ok bk0" by (simp add: runs_ok_def assms(2))
  with assms(1) have ok: "runs_ok bk" using run_steps_ok by blast
  from mark_paid_Inr [OF assms(4)] obtain r es where r: "get_run rid bk = Some r" "pr_status r = RunApproved"
    "enforce_sod r u False True = Inr es" by blast
  have "run_ok r" using ok get_run_Some [OF r(1)] by (simp add: runs_ok_def)
  with r assms(3) sod_creator [of r u True] sod_approver [of r u] show ?thesis
    by (auto simp: run_ok_def enforce_sod_Inr actor_ok_def)
qed

definition sample_vb :: vendor_books where
  "sample_vb = \<lparr>vb_vendors = [], vb_requests = [], vb_trail = []\<rparr>"

definition sample_pay :: pay_books where
  "sample_pay = \<lparr>pb_ap = sample_ap_books, pb_vendors = sample_vb, pb_runs = []\<rparr>"

definition maker :: run_actor where
  "maker = \<lparr>ra_id = Some ''u-1'', ra_email = Some ''a@x'', ra_platform_admin = False\<rparr>"

definition checker :: run_actor where
  "checker = \<lparr>ra_id = Some ''u-2'', ra_email = Some ''b@x'', ra_platform_admin = False\<rparr>"

definition payer :: run_actor where
  "payer = \<lparr>ra_id = Some ''u-3'', ra_email = Some ''c@x'', ra_platform_admin = False\<rparr>"

definition sample_run :: payment_run where
  "sample_run = new_run ''run-1'' ''sepa'' None maker 100"

definition sample_approved :: payment_run where
  "sample_approved = sample_run\<lparr>pr_approved_by := Some ''b@x'', pr_approved_by_id := Some ''u-2'',
     pr_approved_at := Some 0, pr_status := RunApproved, pr_version := 2\<rparr>"

lemmas run_sample_defs = sample_pay_def sample_vb_def sample_ap_books_def sample_si_def sample_run_def
  sample_approved_def new_run_def maker_def checker_def payer_def

definition linked_si :: supplier_invoice where
  "linked_si = sample_si\<lparr>si_run := Some ''run-1''\<rparr>"

lemma no_vendors_gate: "assert_vendors_payable sample_vb ap sis = Inr ()"
  by (simp add: assert_vendors_payable_def Let_def vendor_gate_def get_vendor_def sample_vb_def
      List.map_filter_def)

lemma sample_created: "create_run ''run-1'' [''ap-1''] ''sepa'' None maker False sample_pay =
    Inr \<lparr>pb_ap = sample_ap_books\<lparr>ap_invoices := [linked_si], ap_trail := [(''ap.run_create'', ''run-1'')]\<rparr>,
         pb_vendors = sample_vb, pb_runs = [sample_run]\<rparr>"
proof -
  have inv: "filter (\<lambda>si. si_id si \<in> set [''ap-1'']) (ap_invoices sample_ap_books) = [sample_si]"
    by (simp add: sample_ap_books_def sample_si_def)
  have chk: "check_candidates [sample_si] = Inr ()" "eur_sum [sample_si] = Inr 100"
    by (simp_all add: sample_si_def eur_of_def cents.rnd_fix)
  have link: "audit_ap ''ap.run_create'' ''run-1''
      (link_run (Some ''run-1'') (\<lambda>si. si_id si \<in> set [''ap-1'']) sample_ap_books) =
    sample_ap_books\<lparr>ap_invoices := [linked_si], ap_trail := [(''ap.run_create'', ''run-1'')]\<rparr>"
    by (simp add: link_run_def audit_ap_def sample_ap_books_def linked_si_def) (simp add: sample_si_def)
  have id: "si_id sample_si = ''ap-1''" by (simp add: sample_si_def)
  have q: "q2 100 = 100" by (simp add: cents.rnd_fix)
  show ?thesis
    unfolding create_run_def Let_def sample_pay_def pay_books.select_convs inv link
    by (simp add: chk id no_vendors_gate q sample_run_def del: eur_sum.simps check_candidates.simps)
qed

lemma sample_approval: "approve_run checker False 0 ''run-1'' 1
    \<lparr>pb_ap = ap, pb_vendors = sample_vb, pb_runs = [sample_run]\<rparr> =
    Inr \<lparr>pb_ap = ap\<lparr>ap_trail := ap_trail ap @ [(''ap.run_approve'', ''run-1'')]\<rparr>, pb_vendors = sample_vb,
         pb_runs = [sample_approved]\<rparr>"
  by (simp add: approve_run_def load_run_def get_run_def enforce_sod_def sod_conflict_def same_handle_def
      put_run_def audit_all_def run_sample_defs)

definition sample_approved_books :: pay_books where
  "sample_approved_books = \<lparr>pb_ap = sample_ap_books\<lparr>ap_invoices := [linked_si],
     ap_trail := [(''ap.run_create'', ''run-1''), (''ap.run_approve'', ''run-1'')]\<rparr>,
     pb_vendors = sample_vb, pb_runs = [sample_approved]\<rparr>"

lemma sample_approved_steps: "run_steps sample_pay sample_approved_books"
proof -
  let ?bk = "\<lparr>pb_ap = sample_ap_books\<lparr>ap_invoices := [linked_si], ap_trail := [(''ap.run_create'', ''run-1'')]\<rparr>,
         pb_vendors = sample_vb, pb_runs = [sample_run]\<rparr>"
  have "run_step sample_pay ?bk"
    by (rule run_step.create [OF _ _ sample_created]) (simp_all add: run_sample_defs actor_ok_def)
  moreover have "run_step ?bk sample_approved_books"
    by (rule run_step.approve [of checker 0 "''run-1''" 1])
      (simp_all add: checker_def actor_ok_def sample_approval [unfolded checker_def] sample_approved_books_def)
  ultimately show ?thesis by (blast intro: run_steps.intros)
qed

lemma sample_get_run: "get_run ''run-1'' sample_approved_books = Some sample_approved"
  by (simp add: get_run_def sample_approved_books_def) (simp add: run_sample_defs)

lemma sample_payment: "\<exists>bk'. mark_paid (\<lambda>i. i) payer False None None 0 7 ''run-1'' 2 sample_approved_books = Inr bk'"
proof -
  have inv: "run_invoices ''run-1'' (pb_ap sample_approved_books) = [linked_si]"
    by (simp add: run_invoices_def sample_approved_books_def linked_si_def)
  have eur: "eur_of linked_si = Inr 100" by (simp add: eur_of_def linked_si_def sample_si_def cents.rnd_fix)
  have one: "\<exists>ap'. settle_one (\<lambda>i. i) ''run-1'' m None 7 linked_si ap = Inr ap'" for m ap
    by (simp add: settle_one_def ap_set_cumulative_def advance_to_def assert_transition_def Let_def
        linked_si_def sample_si_def workflow_defs)
  have sod: "enforce_sod sample_approved payer False True = Inr []"
    by (simp add: enforce_sod_def sod_conflict_def same_handle_def run_sample_defs)
  have load: "load_run ''run-1'' (Some 2) sample_approved_books = Inr sample_approved"
    by (simp add: load_run_def get_run_def sample_approved_books_def) (simp add: run_sample_defs)
  have st: "pr_status sample_approved = RunApproved" by (simp add: run_sample_defs)
  have vend: "pb_vendors sample_approved_books = sample_vb" by (simp add: sample_approved_books_def)
  obtain ap' where "settle_one (\<lambda>i. i) ''run-1'' (pr_method (paid_run None None 0 100 sample_approved)) None 7
      linked_si (audit_all [] (pb_ap sample_approved_books)) = Inr ap'"
    using one by blast
  then show ?thesis
    by (simp add: mark_paid_def load st sod inv vend no_vendors_gate eur Let_def)
qed

theorem paying_takes_three_witness:
  "\<exists>bk'. mark_paid (\<lambda>i. i) payer False None None 0 7 ''run-1'' 2 sample_approved_books = Inr bk' \<and>
     get_run ''run-1'' sample_approved_books = Some sample_approved \<and>
     pr_approved_by_id sample_approved \<noteq> ra_id payer"
proof -
  obtain bk' where p: "mark_paid (\<lambda>i. i) payer False None None 0 7 ''run-1'' 2 sample_approved_books = Inr bk'"
    using sample_payment by blast
  have "pb_runs sample_pay = []" "actor_ok payer"
    by (simp_all add: run_sample_defs actor_ok_def)
  with paying_takes_three [OF sample_approved_steps _ _ p] p sample_get_run show ?thesis by auto
qed

text \<open>
  C5: paying a run settles it exactly, once. An accepted payment keeps every payables
  cache equal to its ledger, brings every invoice of the run to paid with its full total,
  leaves every other invoice untouched, and no further payment of that run is accepted,
  whoever asks and whichever override they use.
\<close>

theorem run_payment_settles_once:
  assumes ok: "ap_cache_ok (pb_ap bk)" and "mark_paid gen u ov ref meth now today rid v bk = Inr bk'"
  shows "ap_cache_ok (pb_ap bk') \<and>
    (\<forall>si \<in> set (run_invoices rid (pb_ap bk)). \<exists>si'. get_si (si_id si) (pb_ap bk') = Some si' \<and>
       si_state si' = WPaid \<and> ap_paid_of si' = q2 (si_total si)) \<and>
    (\<forall>j. j \<notin> si_id ` set (run_invoices rid (pb_ap bk)) \<longrightarrow> get_si j (pb_ap bk') = get_si j (pb_ap bk)) \<and>
    (\<forall>gen' u' ov' ref' meth' now' today' v'.
       \<exists>e. mark_paid gen' u' ov' ref' meth' now' today' rid v' bk' = Inl e)"
proof -
  let ?sis = "run_invoices rid (pb_ap bk)"
  from mark_paid_Inr [OF assms(2)] obtain r es s ap where r: "get_run rid bk = Some r"
    and settle: "settle_all gen rid (pr_method (paid_run ref meth now s r)) ref today ?sis
      (audit_all es (pb_ap bk)) = Inr ap"
    and bk': "bk' = put_run (paid_run ref meth now s r)
      (bk\<lparr>pb_ap := emit_paid ?sis (audit_ap ''ap.run_paid'' rid ap)\<rparr>)" by blast
  have dist: "distinct (map si_id (ap_invoices (pb_ap bk)))" using ok by (simp add: ap_cache_ok_def)
  have cong: "get_si j (audit_all es (pb_ap bk)) = get_si j (pb_ap bk)" for j by (simp add: get_si_def)
  have sub: "set ?sis \<subseteq> set (ap_invoices (pb_ap bk))" by (auto simp: run_invoices_def)
  have "mset (map si_id ?sis) = mset (map si_id (filter (\<lambda>si. si_run si = Some rid) (ap_invoices (pb_ap bk))))"
    by (simp add: run_invoices_def)
  moreover have "distinct (map si_id (filter (\<lambda>si. si_run si = Some rid) (ap_invoices (pb_ap bk))))"
    using dist by (rule distinct_map_filter)
  ultimately have dsis: "distinct (map si_id ?sis)" by (metis mset_eq_imp_distinct_iff)
  have res: "ap_cache_ok ap \<and> (\<forall>j. j \<notin> si_id ` set ?sis \<longrightarrow> get_si j ap = get_si j (audit_all es (pb_ap bk))) \<and>
    (\<forall>si \<in> set ?sis. \<exists>si'. get_si (si_id si) ap = Some si' \<and> si_state si' = WPaid \<and> ap_paid_of si' = q2 (si_total si))"
    using ok dsis get_si_mem [OF dist] sub cong ap_cache_ok_cong [of "audit_all es (pb_ap bk)" "pb_ap bk"]
    by (intro settle_all_Inr [OF settle]) auto
  have pb: "pb_ap bk' = emit_paid ?sis (audit_ap ''ap.run_paid'' rid ap)" by (simp add: bk')
  have get: "get_si j (pb_ap bk') = get_si j ap" for j by (simp add: pb get_si_def)
  have "ap_cache_ok (pb_ap bk')" using res ap_cache_ok_cong [of "pb_ap bk'" ap] by (simp add: pb)
  moreover have run': "get_run rid bk' = Some (paid_run ref meth now s r)"
    using get_run_put [of "paid_run ref meth now s r" bk r] get_run_Some [OF r] r
    by (simp add: bk' paid_run_def get_run_def put_run_runs)
  have "\<exists>e. mark_paid gen' u' ov' ref' meth' now' today' rid v' bk' = Inl e"
    for gen' u' ov' ref' meth' now' today' v'
  proof (cases "mark_paid gen' u' ov' ref' meth' now' today' rid v' bk'")
    case (Inr b)
    from mark_paid_Inr [OF this] run' show ?thesis by (auto simp: paid_run_def)
  qed auto
  ultimately show ?thesis using res by (simp add: get cong)
qed

theorem run_payment_settles_once_witness:
  "\<exists>bk' si'. mark_paid (\<lambda>i. i) payer False None None 0 7 ''run-1'' 2 sample_approved_books = Inr bk' \<and>
     get_si ''ap-1'' (pb_ap bk') = Some si' \<and> si_state si' = WPaid"
proof -
  obtain bk' where p: "mark_paid (\<lambda>i. i) payer False None None 0 7 ''run-1'' 2 sample_approved_books = Inr bk'"
    using sample_payment by blast
  have "ap_cache_ok (pb_ap sample_approved_books)"
    by (simp add: sample_approved_books_def ap_cache_ok_def run_sample_defs linked_si_def ap_paid_of_def)
  moreover have "linked_si \<in> set (run_invoices ''run-1'' (pb_ap sample_approved_books))" "si_id linked_si = ''ap-1''"
    by (simp_all add: run_invoices_def sample_approved_books_def linked_si_def sample_si_def)
  ultimately show ?thesis using run_payment_settles_once [OF _ p] p by fastforce
qed

text \<open>
  A bank file leaves once. A successful export is of an approved or paid run, lists
  exactly its invoices with no cell that a spreadsheet would run as a formula, and after
  it, whatever happens to the books, no export of that run succeeds again unless it is
  confirmed explicitly.
\<close>

theorem exported_once:
  assumes ok: "runs_ok bk" and exp: "export_run confirm now rid bk = Inr (bk1, rows)"
    and later: "run_steps bk1 bk2"
  shows "(\<exists>r. get_run rid bk = Some r \<and> pr_status r \<in> {RunApproved, RunPaid}) \<and>
    length rows = length (run_invoices rid (pb_ap bk)) \<and>
    (\<forall>row \<in> set rows. \<not> live_formula (cw_reference row) \<and> \<not> live_formula (cw_number row)) \<and>
    (\<forall>now'. \<exists>e. export_run False now' rid bk2 = Inl e)"
proof -
  obtain r where r: "get_run rid bk = Some r" "assert_exportable r confirm = Inr ()"
    and rows: "rows = export_csv r (run_invoices rid (pb_ap bk))"
    and runs: "pb_runs bk1 = pb_runs (put_run (record_export None now r) bk)"
    using exp by (auto simp: export_run_def load_run_Inr put_run_runs split: sum.splits)
  have st: "pr_status r \<in> {RunApproved, RunPaid}"
    using r(2) by (auto simp: assert_exportable_def EXPORTABLE_STATUSES_def split: if_splits)
  have id: "pr_id r = rid" using get_run_Some [OF r(1)] by simp
  have r1: "get_run rid bk1 = Some (record_export None now r)"
    using get_run_put [of "record_export None now r" bk r] r(1) id
    by (simp add: record_export_def get_run_def runs)
  have ok1: "runs_ok bk1"
    using run_step_ok [OF run_step.export [OF exp] ok] by simp
  then have grow: "counters_grow bk1 bk2" "runs_ok bk2" using run_steps_ok [OF later] by auto
  have "record_export None now r \<in> set (pb_runs bk1)" using get_run_Some [OF r1] by simp
  then obtain r2 where r2: "r2 \<in> set (pb_runs bk2)" "pr_id r2 = pr_id (record_export None now r)"
    "pr_export_count (record_export None now r) \<le> pr_export_count r2"
    using grow(1) unfolding counters_grow_def by blast
  then have r2: "r2 \<in> set (pb_runs bk2)" "pr_id r2 = rid" "pr_export_count r2 \<noteq> 0"
    by (simp_all add: record_export_def id)
  have "get_run rid bk2 = Some r2"
    using get_run_mem [of bk2 r2] grow(2) r2 by (simp add: runs_ok_def)
  then have "\<exists>e. export_run False now' rid bk2 = Inl e" for now'
    using r2(3) by (auto simp: export_run_def load_run_def assert_exportable_def)
  then show ?thesis
    using r st by (auto simp: rows export_csv_def sanitize_inert)
qed

theorem exported_once_witness:
  "\<exists>bk1 rows. export_run False 0 ''run-1'' sample_approved_books = Inr (bk1, rows) \<and>
     (\<exists>e. export_run False 9 ''run-1'' bk1 = Inl e)"
proof -
  have ok: "runs_ok sample_approved_books"
    using run_steps_ok [OF sample_approved_steps] by (simp add: runs_ok_def sample_pay_def)
  note sample_get_run
  moreover have "assert_exportable sample_approved False = Inr ()"
    by (simp add: assert_exportable_def EXPORTABLE_STATUSES_def run_sample_defs)
  ultimately obtain bk1 rows where e: "export_run False 0 ''run-1'' sample_approved_books = Inr (bk1, rows)"
    by (simp add: export_run_def load_run_def)
  with exported_once [OF ok e run_steps.refl] show ?thesis by blast
qed

end
