(* ===== verification/Sepa.thy ===== *)
theory Sepa
  imports PaymentRun
begin

text \<open>
  \<open>services/sepa.py\<close>: a payment run as an ISO 20022 pain.001 file. The document is the
  record of the fields that are serialized, in the order of the elements; the random part
  of a message id and the issuer profile are arguments.
\<close>

record credit_transfer =
  ct_end_to_end :: string
  ct_amount :: decimal
  ct_creditor_name :: string
  ct_creditor_iban :: string
  ct_creditor_bic :: "string option"
  ct_remittance :: string
  ct_currency :: string

record pain_tx =
  tx_end_to_end :: string
  tx_amount :: decimal
  tx_ccy :: string
  tx_bic :: "string option"
  tx_name :: string
  tx_iban :: string
  tx_ustrd :: string

record pain001 =
  pn_msg_id :: string
  pn_count :: nat
  pn_ctrl_sum :: decimal
  pn_exec_date :: date
  pn_debtor_name :: string
  pn_debtor_iban :: string
  pn_debtor_bic :: "string option"
  pn_txs :: "pain_tx list"

record issuer =
  is_legal_name :: "string option"
  is_iban :: "string option"
  is_bic :: "string option"

datatype sepa_error =
    MsgIdTooLong | NoDebtorIban | NoCreditor | BadDebtorIban | BadDebtorBic
  | NotEur string | BadCreditorIban string | BadCreditorBic string
  | SepaRun run_error | SkippedNotAcknowledged "string list"

definition MSG_ID_MAX :: nat where
  "MSG_ID_MAX = 35"

definition new_msg_id :: "string \<Rightarrow> string \<Rightarrow> string \<Rightarrow> nat \<Rightarrow> sepa_error + string" where
  "new_msg_id prefix ref_id rnd generation =
     (let mid = prefix @ ''-'' @ take 8 ref_id @ ''-'' @ str_nat generation @ ''-'' @ take 8 rnd
      in if MSG_ID_MAX < length mid then Inl MsgIdTooLong else Inr mid)"

definition assert_skipped_acknowledged :: "string list \<Rightarrow> bool \<Rightarrow> sepa_error + unit" where
  "assert_skipped_acknowledged skipped ack =
     (if skipped \<noteq> [] \<and> \<not> ack then Inl (SkippedNotAcknowledged skipped) else Inr ())"

fun check_transfers :: "credit_transfer list \<Rightarrow> sepa_error + unit" where
  "check_transfers [] = Inr ()"
| "check_transfers (t # ts) =
     (if ct_currency t \<noteq> ''EUR'' then Inl (NotEur (ct_end_to_end t))
      else if \<not> is_valid_iban (ct_creditor_iban t) then Inl (BadCreditorIban (ct_creditor_name t))
      else if truthy (ct_creditor_bic t) \<and> \<not> is_valid_bic (the (ct_creditor_bic t))
      then Inl (BadCreditorBic (ct_creditor_name t))
      else check_transfers ts)"

definition pain_tx_of :: "credit_transfer \<Rightarrow> pain_tx" where
  "pain_tx_of t =
     \<lparr>tx_end_to_end = take 35 (if ct_end_to_end t = [] then ''NOTPROVIDED'' else ct_end_to_end t),
      tx_amount = q2 (ct_amount t), tx_ccy = ct_currency t,
      tx_bic = (if truthy (ct_creditor_bic t) then ct_creditor_bic t else None),
      tx_name = take 70 (ct_creditor_name t), tx_iban = ct_creditor_iban t,
      tx_ustrd = take 140 (if ct_remittance t = [] then ct_end_to_end t else ct_remittance t)\<rparr>"

definition build_pain001 ::
  "string \<Rightarrow> date \<Rightarrow> string \<Rightarrow> string option \<Rightarrow> string option \<Rightarrow> credit_transfer list \<Rightarrow> sepa_error + pain001" where
  "build_pain001 msg_id exec_date debtor_name debtor_iban debtor_bic transfers =
     (if msg_id = [] \<or> MSG_ID_MAX < length msg_id then Inl MsgIdTooLong
      else if \<not> truthy debtor_iban then Inl NoDebtorIban
      else if transfers = [] then Inl NoCreditor
      else if \<not> is_valid_iban (the debtor_iban) then Inl BadDebtorIban
      else if truthy debtor_bic \<and> \<not> is_valid_bic (the debtor_bic) then Inl BadDebtorBic
      else
        (case check_transfers transfers of
           Inl e \<Rightarrow> Inl e
         | Inr _ \<Rightarrow>
             Inr \<lparr>pn_msg_id = msg_id, pn_count = length transfers,
                  pn_ctrl_sum = q2 (sum_list (map ct_amount transfers)), pn_exec_date = exec_date,
                  pn_debtor_name = debtor_name, pn_debtor_iban = the debtor_iban,
                  pn_debtor_bic = (if truthy debtor_bic then debtor_bic else None),
                  pn_txs = map pain_tx_of transfers\<rparr>))"

text \<open>
  The loop over the invoices of a run: the transfers and the names of the payees skipped
  for want of an IBAN.
\<close>

fun collect_transfers ::
  "vendor_books \<Rightarrow> supplier_invoice list \<Rightarrow> sepa_error + (credit_transfer list \<times> string list)" where
  "collect_transfers vb [] = Inr ([], [])"
| "collect_transfers vb (si # rest) =
     (case get_vendor (si_vendor si) vb of
        None \<Rightarrow>
          (case collect_transfers vb rest of
             Inl e \<Rightarrow> Inl e
           | Inr (ts, sk) \<Rightarrow> Inr (ts, (''invoice '' @ si_number si) # sk))
      | Some v \<Rightarrow>
          if \<not> truthy (vd_field v F_iban)
          then (case collect_transfers vb rest of
                  Inl e \<Rightarrow> Inl e
                | Inr (ts, sk) \<Rightarrow> Inr (ts, vd_name v # sk))
          else
            (case eur_of si of
               Inl e \<Rightarrow> Inl (SepaRun e)
             | Inr amount \<Rightarrow>
                 (case collect_transfers vb rest of
                    Inl e \<Rightarrow> Inl e
                  | Inr (ts, sk) \<Rightarrow>
                      Inr (\<lparr>ct_end_to_end = si_number si, ct_amount = amount, ct_creditor_name = vd_name v,
                            ct_creditor_iban = the (vd_field v F_iban), ct_creditor_bic = vd_field v F_bic,
                            ct_remittance = ''Invoice '' @ si_number si, ct_currency = ''EUR''\<rparr> # ts, sk))))"

definition payment_run_sepa ::
  "issuer option \<Rightarrow> string \<Rightarrow> bool \<Rightarrow> date \<Rightarrow> ident \<Rightarrow> pay_books \<Rightarrow> sepa_error + (pain001 \<times> string list)" where
  "payment_run_sepa iss msg_id ack exec_date rid bk =
     (let debtor_name = (case iss of None \<Rightarrow> ''Our company'' | Some i \<Rightarrow> str_or (is_legal_name i) ''Our company'')
      in (case collect_transfers (pb_vendors bk) (run_invoices rid (pb_ap bk)) of
            Inl e \<Rightarrow> Inl e
          | Inr (transfers, skipped) \<Rightarrow>
              (case (if transfers = [] then Inr () else assert_skipped_acknowledged skipped ack) of
                 Inl e \<Rightarrow> Inl e
               | Inr _ \<Rightarrow>
                   (case build_pain001 msg_id exec_date debtor_name (Option.bind iss is_iban)
                           (Option.bind iss is_bic) transfers of
                      Inl e \<Rightarrow> Inl e
                    | Inr xml \<Rightarrow> Inr (xml, skipped)))))"

section \<open>Lemmas\<close>

lemma check_transfers_Inr:
  "check_transfers ts = Inr u \<longleftrightarrow> (\<forall>t \<in> set ts. ct_currency t = ''EUR'' \<and> is_valid_iban (ct_creditor_iban t) \<and>
     (truthy (ct_creditor_bic t) \<longrightarrow> is_valid_bic (the (ct_creditor_bic t))))"
  by (induction ts) auto

lemma eur_grid: "eur_of si = Inr v \<Longrightarrow> on_cents v"
  by (auto simp: eur_of_def split: option.splits if_splits)

lemma collect_amounts:
  "collect_transfers vb sis = Inr (ts, sk) \<Longrightarrow>
     (\<forall>t \<in> set ts. on_cents (ct_amount t)) \<and> length ts + length sk = length sis"
proof (induction sis arbitrary: ts sk)
  case (Cons si sis)
  have grid: "on_cents v" if "eur_of si = Inr v" for v
    using that by (rule eur_grid)
  from Cons show ?case
    by (auto split: option.splits if_splits sum.splits) (use grid in \<open>simp_all\<close>)
qed simp

text \<open>With nobody skipped, the transfers are the run's EUR total.\<close>

lemma collect_total:
  "collect_transfers vb sis = Inr (ts, []) \<Longrightarrow> eur_sum sis = Inr (sum_list (map ct_amount ts))"
  by (induction sis arbitrary: ts) (auto split: option.splits if_splits sum.splits)

lemma payment_run_sepa_Inr:
  assumes "payment_run_sepa iss msg_id ack exec_date rid bk = Inr (xml, skipped)"
  shows "\<exists>ts. collect_transfers (pb_vendors bk) (run_invoices rid (pb_ap bk)) = Inr (ts, skipped) \<and> ts \<noteq> [] \<and>
    (skipped = [] \<or> ack) \<and> check_transfers ts = Inr () \<and> msg_id \<noteq> [] \<and> length msg_id \<le> 35 \<and>
    is_valid_iban (pn_debtor_iban xml) \<and> pn_msg_id xml = msg_id \<and> pn_count xml = length ts \<and>
    pn_ctrl_sum xml = q2 (sum_list (map ct_amount ts)) \<and> pn_txs xml = map pain_tx_of ts"
  using assms
  by (auto simp: payment_run_sepa_def build_pain001_def assert_skipped_acknowledged_def MSG_ID_MAX_def
      Let_def not_less split: sum.splits if_splits)

section \<open>Properties\<close>

text \<open>
  C7: the bank file pays what the run says. A produced file has a message id within the
  35 characters of the standard, a valid debtor account, only valid creditor accounts and
  only EUR amounts of whole cents, and a control sum that is the sum of its instructed
  amounts; payees are left out only when acknowledged, and when none is, the control sum
  is the run's EUR total as \<open>mark_paid\<close> stamps it.
\<close>

theorem sepa_file_sound:
  assumes "payment_run_sepa iss msg_id ack exec_date rid bk = Inr (xml, skipped)"
  shows "length (pn_msg_id xml) \<le> 35 \<and> is_valid_iban (pn_debtor_iban xml) \<and>
    pn_count xml = length (pn_txs xml) \<and> pn_txs xml \<noteq> [] \<and>
    (\<forall>tx \<in> set (pn_txs xml). is_valid_iban (tx_iban tx) \<and> tx_ccy tx = ''EUR'' \<and> on_cents (tx_amount tx) \<and>
       length (tx_end_to_end tx) \<le> 35 \<and> length (tx_name tx) \<le> 70) \<and>
    pn_ctrl_sum xml = sum_list (map tx_amount (pn_txs xml)) \<and>
    length (pn_txs xml) + length skipped = length (run_invoices rid (pb_ap bk)) \<and>
    (\<not> ack \<longrightarrow> skipped = []) \<and>
    (skipped = [] \<longrightarrow> (\<exists>s. eur_sum (run_invoices rid (pb_ap bk)) = Inr s \<and> pn_ctrl_sum xml = q2 s))"
proof -
  obtain ts where coll: "collect_transfers (pb_vendors bk) (run_invoices rid (pb_ap bk)) = Inr (ts, skipped)"
    and ne: "ts \<noteq> []" and ack: "skipped = [] \<or> ack" and chk: "check_transfers ts = Inr ()"
    and doc: "msg_id \<noteq> []" "length msg_id \<le> 35" "is_valid_iban (pn_debtor_iban xml)"
      "pn_msg_id xml = msg_id" "pn_count xml = length ts"
      "pn_ctrl_sum xml = q2 (sum_list (map ct_amount ts))" "pn_txs xml = map pain_tx_of ts"
    using payment_run_sepa_Inr [OF assms] by blast
  have grid: "\<forall>t \<in> set ts. on_cents (ct_amount t)" and len: "length ts + length skipped = length (run_invoices rid (pb_ap bk))"
    using collect_amounts [OF coll] by auto
  have amounts: "map (tx_amount \<circ> pain_tx_of) ts = map ct_amount ts"
    using grid by (simp add: pain_tx_of_def cents.rnd_fix)
  have "q2 (sum_list (map ct_amount ts)) = sum_list (map ct_amount ts)"
    using grid by (intro cents.rnd_sum_list) auto
  then have sum: "pn_ctrl_sum xml = sum_list (map tx_amount (pn_txs xml))"
    unfolding doc list.map_comp amounts .
  have "\<forall>tx \<in> set (pn_txs xml). is_valid_iban (tx_iban tx) \<and> tx_ccy tx = ''EUR'' \<and> on_cents (tx_amount tx) \<and>
       length (tx_end_to_end tx) \<le> 35 \<and> length (tx_name tx) \<le> 70"
    using chk by (auto simp: doc(7) pain_tx_of_def check_transfers_Inr)
  then show ?thesis
    using doc sum ne ack len collect_total coll by auto
qed

definition sepa_books :: pay_books where
  "sepa_books = sample_approved_books\<lparr>pb_vendors := \<lparr>vb_vendors =
     [new_vendor ''v-1'' ''Acme'' ((\<lambda>_. None)(F_iban := Some ''DE89370400440532013000''))],
     vb_requests = [], vb_trail = []\<rparr>\<rparr>"

definition sample_issuer :: issuer where
  "sample_issuer = \<lparr>is_legal_name = None, is_iban = Some ''DE89370400440532013000'', is_bic = None\<rparr>"

lemma sample_iban_valid: "is_valid_iban ''DE89370400440532013000''"
  by code_simp

theorem sepa_file_sound_witness:
  "\<exists>xml. payment_run_sepa (Some sample_issuer) ''RUN-1'' False 7 ''run-1'' sepa_books = Inr (xml, []) \<and>
     pn_ctrl_sum xml = 100"
proof -
  have inv: "run_invoices ''run-1'' (pb_ap sepa_books) = [linked_si]"
    by (simp add: run_invoices_def sepa_books_def sample_approved_books_def linked_si_def)
  have eur: "eur_of linked_si = Inr 100" by (simp add: eur_of_def linked_si_def sample_si_def cents.rnd_fix)
  have v: "get_vendor (si_vendor linked_si) (pb_vendors sepa_books) =
      Some (new_vendor ''v-1'' ''Acme'' ((\<lambda>_. None)(F_iban := Some ''DE89370400440532013000'')))"
    by (simp add: get_vendor_def sepa_books_def linked_si_def sample_si_def new_vendor_def)
  obtain ts where "collect_transfers (pb_vendors sepa_books) [linked_si] = Inr (ts, [])" "ts \<noteq> []"
    and chk: "check_transfers ts = Inr ()"
    by (simp add: v eur new_vendor_def sample_iban_valid)
  then obtain xml where xml: "payment_run_sepa (Some sample_issuer) ''RUN-1'' False 7 ''run-1'' sepa_books = Inr (xml, [])"
    by (simp add: payment_run_sepa_def inv build_pain001_def assert_skipped_acknowledged_def MSG_ID_MAX_def
        sample_issuer_def sample_iban_valid Let_def)
  from sepa_file_sound [OF this] inv eur have "pn_ctrl_sum xml = q2 100" by simp
  with xml show ?thesis by (simp add: cents.rnd_fix)
qed

text \<open>
  Message ids always fit. For the run prefix, any run id and random part and up to
  ninety-nine million exports, the generated id is accepted.
\<close>

theorem msg_id_fits:
  assumes "generation < 10 ^ 8"
  shows "\<exists>mid. new_msg_id ''RUN'' ref_id rnd generation = Inr mid \<and> length mid \<le> 35"
proof -
  have "length (str_nat generation) \<le> 8"
    by (rule str_nat_length) (use assms in simp_all)
  then show ?thesis by (simp add: new_msg_id_def Let_def MSG_ID_MAX_def)
qed

theorem msg_id_fits_witness: "\<exists>mid. new_msg_id ''RUN'' ''0123456789'' ''abcdef01'' 1 = Inr mid \<and> length mid \<le> 35"
  by (rule msg_id_fits) simp

end
