(* ===== verification/Jobs.thy ===== *)
theory Jobs
  imports Prelude
begin

text \<open>
  \<open>services/jobs.py\<close> (with \<open>models/job.py\<close>): the job
  queue kept in a table. A worker leases the oldest ready row by a guarded update, runs
  its handler, and completes or fails it; leases that expire go back to the queue. The
  queue is the list of rows; a time is in seconds; a handler, which is code of another
  component, appears by the outcome of the run. Between the SELECT and the UPDATE of a
  claim other workers may act: that is the argument \<open>env\<close>.
\<close>

section \<open>Rows\<close>

datatype job_status = Queued | Running | Succeeded | FailedJob | Dead

record job =
  jb_id :: ident
  jb_org :: ident
  jb_kind :: string
  jb_payload :: string
  jb_key :: "string option"
  jb_status :: job_status
  jb_attempts :: nat
  jb_max :: nat
  jb_run_after :: instant
  jb_created :: instant
  jb_locked_at :: "instant option"
  jb_locked_by :: "string option"
  jb_error :: "string option"
  jb_result :: "string option"

type_synonym queue = "job list"

datatype job_error = JobNotFound | JobNotRetryable job_status

text \<open>How a handler ends: with a result, or with an error that may carry a hint or be permanent.\<close>

datatype outcome = Done string | Raised string "instant option" bool

definition STALE_LEASE_SECONDS :: instant where "STALE_LEASE_SECONDS = 300"
definition BACKOFF_BASE :: nat where "BACKOFF_BASE = 30"
definition BACKOFF_CAP :: nat where "BACKOFF_CAP = 3600"
definition RETRY_AFTER_CAP :: instant where "RETRY_AFTER_CAP = 86400"
definition TERMINAL_JOB :: "job_status list" where "TERMINAL_JOB = [Succeeded, Dead]"
definition RETRYABLE :: "job_status list" where "RETRYABLE = [Dead, FailedJob, Queued]"

definition backoff :: "nat \<Rightarrow> nat" where
  "backoff attempts = min BACKOFF_CAP (BACKOFF_BASE * 2 ^ (attempts - 1))"

definition get_job :: "ident \<Rightarrow> queue \<Rightarrow> job option" where
  "get_job i qu = find (\<lambda>j. jb_id j = i) qu"

definition update_job :: "(job \<Rightarrow> job) \<Rightarrow> ident \<Rightarrow> queue \<Rightarrow> queue" where
  "update_job f i qu = map (\<lambda>j. if jb_id j = i then f j else j) qu"

section \<open>Enqueueing\<close>

definition same_key :: "ident \<Rightarrow> string \<Rightarrow> string option \<Rightarrow> job \<Rightarrow> bool" where
  "same_key org kind key j \<longleftrightarrow> jb_org j = org \<and> jb_kind j = kind \<and> jb_key j = key"

definition new_job ::
  "ident \<Rightarrow> ident \<Rightarrow> string \<Rightarrow> string \<Rightarrow> string option \<Rightarrow> nat \<Rightarrow> instant option \<Rightarrow> instant \<Rightarrow> job" where
  "new_job i org kind payload key max_attempts run_after now =
     \<lparr>jb_id = i, jb_org = org, jb_kind = kind, jb_payload = payload, jb_key = key,
      jb_status = Queued, jb_attempts = 0, jb_max = max_attempts,
      jb_run_after = (case run_after of None \<Rightarrow> now | Some t \<Rightarrow> t), jb_created = now,
      jb_locked_at = None, jb_locked_by = None, jb_error = None, jb_result = None\<rparr>"

text \<open>
  The pre-check looks at live rows; the unique index on tenant, kind and key catches
  the finished ones, and the row that holds the key is returned.
\<close>

definition enqueue_with_outcome ::
  "ident \<Rightarrow> ident \<Rightarrow> string \<Rightarrow> string \<Rightarrow> string option \<Rightarrow> nat \<Rightarrow> instant option \<Rightarrow> instant \<Rightarrow> queue \<Rightarrow>
   (job \<times> bool) \<times> queue" where
  "enqueue_with_outcome i org kind payload key max_attempts run_after now qu =
     (let live = (if key = None then None
                  else find (\<lambda>j. same_key org kind key j \<and> jb_status j \<in> {Queued, Running}) qu);
          holder = (if key = None then None else find (same_key org kind key) qu);
          j = new_job i org kind payload key max_attempts run_after now
      in case live of
           Some e \<Rightarrow> ((e, False), qu)
         | None \<Rightarrow> (case holder of
             Some e \<Rightarrow> ((e, False), qu)
           | None \<Rightarrow> ((j, True), qu @ [j])))"

section \<open>Claiming\<close>

definition in_lane :: "string list \<Rightarrow> string list \<Rightarrow> job \<Rightarrow> bool" where
  "in_lane kinds exclude j \<longleftrightarrow>
     (kinds = [] \<or> jb_kind j \<in> set kinds) \<and> (exclude = [] \<or> jb_kind j \<notin> set exclude)"

definition ready :: "instant \<Rightarrow> job \<Rightarrow> bool" where
  "ready now j \<longleftrightarrow> jb_status j = Queued \<and> jb_run_after j \<le> now"

definition candidate :: "string list \<Rightarrow> string list \<Rightarrow> instant \<Rightarrow> queue \<Rightarrow> job option" where
  "candidate kinds exclude now qu =
     first_of (sort_key jb_run_after (sort_key jb_created
       (filter (\<lambda>j. ready now j \<and> in_lane kinds exclude j) qu)))"

definition leased :: "instant \<Rightarrow> string \<Rightarrow> job \<Rightarrow> job" where
  "leased now worker j =
     j\<lparr>jb_status := Running, jb_attempts := jb_attempts j + 1, jb_locked_at := Some now,
       jb_locked_by := Some worker\<rparr>"

text \<open>The guarded update: it matches the row only while it is queued.\<close>

definition take_lease :: "instant \<Rightarrow> string \<Rightarrow> ident \<Rightarrow> queue \<Rightarrow> (job \<times> queue) option" where
  "take_lease now worker i qu =
     (case get_job i qu of
        None \<Rightarrow> None
      | Some j \<Rightarrow>
          if jb_status j = Queued
          then Some (leased now worker j, update_job (leased now worker) i qu)
          else None)"

fun claim_loop ::
  "(nat \<Rightarrow> queue \<Rightarrow> queue) \<Rightarrow> nat \<Rightarrow> string list \<Rightarrow> string list \<Rightarrow> instant \<Rightarrow> string \<Rightarrow> queue \<Rightarrow>
   job option \<times> queue" where
  "claim_loop env 0 kinds exclude now worker qu = (None, qu)"
| "claim_loop env (Suc n) kinds exclude now worker qu =
     (case candidate kinds exclude now qu of
        None \<Rightarrow> (None, qu)
      | Some c \<Rightarrow>
          (case take_lease now worker (jb_id c) (env n qu) of
             Some (j, qu') \<Rightarrow> (Some j, qu')
           | None \<Rightarrow> claim_loop env n kinds exclude now worker (env n qu)))"

definition claim ::
  "(nat \<Rightarrow> queue \<Rightarrow> queue) \<Rightarrow> string list \<Rightarrow> string list \<Rightarrow> instant \<Rightarrow> string \<Rightarrow> queue \<Rightarrow>
   job option \<times> queue" where
  "claim env kinds exclude now worker qu = claim_loop env 10 kinds exclude now worker qu"

definition renew_lease :: "instant \<Rightarrow> string \<Rightarrow> ident \<Rightarrow> ident \<Rightarrow> queue \<Rightarrow> bool \<times> queue" where
  "renew_lease now worker org i qu =
     (let mine = (\<lambda>j. jb_id j = i \<and> jb_org j = org \<and> jb_status j = Running \<and>
                      jb_locked_by j = Some worker)
      in (\<exists>j \<in> set qu. mine j,
          map (\<lambda>j. if mine j then j\<lparr>jb_locked_at := Some now\<rparr> else j) qu))"

section \<open>Finishing\<close>

definition released :: "job \<Rightarrow> job" where
  "released j = j\<lparr>jb_locked_at := None, jb_locked_by := None\<rparr>"

definition completed :: "string \<Rightarrow> job \<Rightarrow> job" where
  "completed result j =
     released (j\<lparr>jb_status := Succeeded, jb_result := Some result, jb_error := None\<rparr>)"

definition retry_delay :: "nat \<Rightarrow> instant option \<Rightarrow> instant" where
  "retry_delay attempts hint =
     (let d = of_nat (backoff attempts)
      in case hint of None \<Rightarrow> d | Some h \<Rightarrow> max d (min h RETRY_AFTER_CAP))"

definition failed_as :: "string \<Rightarrow> instant \<Rightarrow> instant option \<Rightarrow> bool \<Rightarrow> job \<Rightarrow> job" where
  "failed_as err now hint permanent j =
     (let j1 = released (j\<lparr>jb_error := Some (take 2000 err)\<rparr>)
      in if permanent \<or> jb_max j \<le> jb_attempts j then j1\<lparr>jb_status := Dead\<rparr>
         else j1\<lparr>jb_status := Queued, jb_run_after := now + retry_delay (jb_attempts j) hint\<rparr>)"

definition complete :: "string \<Rightarrow> ident \<Rightarrow> queue \<Rightarrow> queue" where
  "complete result i qu = update_job (completed result) i qu"

definition fail :: "string \<Rightarrow> instant \<Rightarrow> instant option \<Rightarrow> bool \<Rightarrow> ident \<Rightarrow> queue \<Rightarrow> queue" where
  "fail err now hint permanent i qu = update_job (failed_as err now hint permanent) i qu"

definition unhandled :: "job \<Rightarrow> job" where
  "unhandled j =
     released (j\<lparr>jb_status := Dead,
       jb_error := Some (''no handler registered for kind '' @ [CHR 0x27] @ jb_kind j @ [CHR 0x27])\<rparr>)"

definition finish :: "outcome \<Rightarrow> instant \<Rightarrow> ident \<Rightarrow> queue \<Rightarrow> queue" where
  "finish out now i qu =
     (case out of
        Done result \<Rightarrow> complete result i qu
      | Raised err hint permanent \<Rightarrow> fail err now hint permanent i qu)"

text \<open>\<open>registered\<close> are the kinds that have a handler; \<open>run j\<close> is what the handler of \<open>j\<close> does.\<close>

definition run_once ::
  "string list \<Rightarrow> (job \<Rightarrow> outcome) \<Rightarrow> (nat \<Rightarrow> queue \<Rightarrow> queue) \<Rightarrow> string list \<Rightarrow> string list \<Rightarrow> instant \<Rightarrow>
   instant \<Rightarrow> string \<Rightarrow> queue \<Rightarrow> job option \<times> queue" where
  "run_once registered run env kinds exclude now later worker qu =
     (case claim env kinds exclude now worker qu of
        (None, qu') \<Rightarrow> (None, qu')
      | (Some j, qu') \<Rightarrow>
          let qu'' = (if jb_kind j \<notin> set registered then update_job unhandled (jb_id j) qu'
                      else finish (run j) later (jb_id j) qu')
          in (get_job (jb_id j) qu'', qu''))"

section \<open>Expired leases and manual retries\<close>

definition stale :: "instant \<Rightarrow> job \<Rightarrow> bool" where
  "stale now j \<longleftrightarrow> jb_status j = Running \<and>
     (case jb_locked_at j of None \<Rightarrow> True | Some t \<Rightarrow> t < now - STALE_LEASE_SECONDS)"

definition reclaimed :: "instant \<Rightarrow> job \<Rightarrow> job" where
  "reclaimed now j =
     (let j1 = released (j\<lparr>jb_error := Some ''lease expired: the worker died mid-run''\<rparr>)
      in if jb_max j \<le> jb_attempts j then j1\<lparr>jb_status := Dead\<rparr>
         else j1\<lparr>jb_status := Queued, jb_run_after := now + of_nat (backoff (jb_attempts j))\<rparr>)"

definition reclaim_stale :: "instant \<Rightarrow> queue \<Rightarrow> nat \<times> queue" where
  "reclaim_stale now qu =
     (length (filter (stale now) qu), map (\<lambda>j. if stale now j then reclaimed now j else j) qu)"

definition retry :: "instant \<Rightarrow> ident \<Rightarrow> queue \<Rightarrow> job_error + queue" where
  "retry now i qu =
     (case get_job i qu of
        None \<Rightarrow> Inl JobNotFound
      | Some j \<Rightarrow>
          if jb_status j \<notin> set RETRYABLE then Inl (JobNotRetryable (jb_status j))
          else Inr (update_job (\<lambda>j. released (j\<lparr>jb_status := Queued, jb_attempts := 0,
                 jb_run_after := now, jb_error := None\<rparr>)) i qu))"

section \<open>The queue as a transition system\<close>

text \<open>
  What happens to the queue, with the worker that did it where there is one. A worker
  finishes or renews only a job whose lease it holds: \<open>run_once\<close> does so as long as the
  lease has not expired under it.
\<close>

datatype job_event = Enqueued ident | Took string ident | Ended string ident | Swept | Requeued ident

definition holds_lease :: "string \<Rightarrow> ident \<Rightarrow> queue \<Rightarrow> bool" where
  "holds_lease w i qu \<longleftrightarrow>
     (\<exists>j \<in> set qu. jb_id j = i \<and> jb_status j = Running \<and> jb_locked_by j = Some w)"

inductive job_step :: "queue \<Rightarrow> job_event list \<Rightarrow> queue \<Rightarrow> bool" where
  enqueue: "i \<notin> jb_id ` set qu \<Longrightarrow> 0 < max_attempts \<Longrightarrow>
     enqueue_with_outcome i org kind payload key max_attempts run_after now qu = (r, qu') \<Longrightarrow>
     job_step qu [Enqueued i] qu'"
| take: "take_lease now w i qu = Some (j, qu') \<Longrightarrow> job_step qu [Took w i] qu'"
| renew: "renew_lease now w org i qu = (b, qu') \<Longrightarrow> job_step qu [] qu'"
| finish: "holds_lease w i qu \<Longrightarrow> job_step qu [Ended w i] (finish out now i qu)"
| unhandled: "holds_lease w i qu \<Longrightarrow> job_step qu [Ended w i] (update_job unhandled i qu)"
| reclaim: "reclaim_stale now qu = (n, qu') \<Longrightarrow> job_step qu [Swept] qu'"
| retry: "retry now i qu = Inr qu' \<Longrightarrow> job_step qu [Requeued i] qu'"

inductive job_run :: "queue \<Rightarrow> job_event list \<Rightarrow> queue \<Rightarrow> bool" where
  start: "job_run qu [] qu"
| step: "job_run qu es qu' \<Longrightarrow> job_step qu' e qu'' \<Longrightarrow> job_run qu (es @ e) qu''"

definition took :: "string \<Rightarrow> ident \<Rightarrow> job_event list \<Rightarrow> nat" where
  "took w i es = length (filter (\<lambda>e. e = Took w i) es)"

definition taken :: "job_event list \<Rightarrow> nat" where
  "taken es = length (filter (\<lambda>e. case e of Took _ _ \<Rightarrow> True | _ \<Rightarrow> False) es)"

fun last_taker :: "ident \<Rightarrow> job_event list \<Rightarrow> string option" where
  "last_taker i [] = None"
| "last_taker i (e # es) =
     (case last_taker i es of
        Some w \<Rightarrow> Some w
      | None \<Rightarrow> (case e of Took w j \<Rightarrow> (if j = i then Some w else None) | _ \<Rightarrow> None))"

definition job_ok :: "job \<Rightarrow> bool" where
  "job_ok j \<longleftrightarrow> jb_attempts j \<le> jb_max j \<and> jb_status j \<noteq> FailedJob \<and> 0 < jb_max j \<and>
     (jb_status j = Queued \<longrightarrow> jb_attempts j < jb_max j) \<and>
     (jb_status j = Running \<longleftrightarrow> jb_locked_by j \<noteq> None) \<and>
     (jb_status j = Running \<longleftrightarrow> jb_locked_at j \<noteq> None)"

definition job_name :: "job \<Rightarrow> (ident \<times> string \<times> string option)" where
  "job_name j = (jb_org j, jb_kind j, jb_key j)"

definition queue_ok :: "queue \<Rightarrow> bool" where
  "queue_ok qu \<longleftrightarrow> distinct (map jb_id qu) \<and> (\<forall>j \<in> set qu. job_ok j) \<and>
     distinct (map job_name (filter (\<lambda>j. jb_key j \<noteq> None) qu))"

section \<open>Lemmas\<close>

lemmas job_edit_defs = leased_def released_def completed_def failed_as_def unhandled_def reclaimed_def Let_def

lemma job_edit_simps [simp]:
  "jb_id (leased n w j) = jb_id j" "job_name (leased n w j) = job_name j" "jb_key (leased n w j) = jb_key j"
  "jb_id (completed r j) = jb_id j" "job_name (completed r j) = job_name j" "jb_key (completed r j) = jb_key j"
  "jb_id (failed_as e n h p j) = jb_id j" "job_name (failed_as e n h p j) = job_name j"
  "jb_key (failed_as e n h p j) = jb_key j"
  "jb_id (unhandled j) = jb_id j" "job_name (unhandled j) = job_name j" "jb_key (unhandled j) = jb_key j"
  "jb_id (reclaimed n j) = jb_id j" "job_name (reclaimed n j) = job_name j" "jb_key (reclaimed n j) = jb_key j"
  by (simp_all add: job_edit_defs job_name_def)

lemma edit_max [simp]:
  "jb_max (leased n w j) = jb_max j" "jb_max (completed r j) = jb_max j" "jb_max (failed_as e n h p j) = jb_max j"
  "jb_max (unhandled j) = jb_max j" "jb_max (reclaimed n j) = jb_max j"
  by (simp_all add: job_edit_defs)

lemma edit_ok:
  "job_ok j \<Longrightarrow> jb_status j = Queued \<Longrightarrow> job_ok (leased n w j)"
  "job_ok j \<Longrightarrow> job_ok (completed r j)"
  "job_ok j \<Longrightarrow> job_ok (failed_as e n h p j)"
  "job_ok j \<Longrightarrow> job_ok (unhandled j)"
  "job_ok j \<Longrightarrow> job_ok (reclaimed n j)"
  by (auto simp: job_ok_def job_edit_defs)

text \<open>An edit of rows that keeps ids and keys keeps the queue well formed.\<close>

lemma queue_ok_map:
  assumes ok: "queue_ok qu" and f: "\<And>j. j \<in> set qu \<Longrightarrow> job_ok (f j)"
    and same: "\<And>j. jb_id (f j) = jb_id j" "\<And>j. job_name (f j) = job_name j"
  shows "queue_ok (map f qu)"
proof -
  have key: "jb_key (f j) = jb_key j" for j using same(2) [of j] by (simp add: job_name_def)
  have "map jb_id (map f qu) = map jb_id qu" by (simp add: same(1))
  moreover have "map job_name (filter (\<lambda>j. jb_key j \<noteq> None) (map f qu))
      = map job_name (filter (\<lambda>j. jb_key j \<noteq> None) qu)"
    by (simp add: filter_map comp_def same(2) key)
  moreover have "\<forall>j \<in> set (map f qu). job_ok j" using f by auto
  ultimately show ?thesis using ok unfolding queue_ok_def by metis
qed

lemma queue_okD: "queue_ok qu \<Longrightarrow> j \<in> set qu \<Longrightarrow> job_ok j"
  by (simp add: queue_ok_def)

lemma queue_ok_update:
  assumes "queue_ok qu" and "\<And>j. j \<in> set qu \<Longrightarrow> jb_id j = i \<Longrightarrow> job_ok (f j)"
    and "\<And>j. jb_id (f j) = jb_id j" "\<And>j. job_name (f j) = job_name j"
  shows "queue_ok (update_job f i qu)"
  unfolding update_job_def using assms
  by (intro queue_ok_map) (auto simp: queue_ok_def)

lemma get_job_Some: "get_job i qu = Some j \<Longrightarrow> j \<in> set qu \<and> jb_id j = i"
  unfolding get_job_def by (drule find_mem) simp

lemma get_job_update:
  "(\<And>j. jb_id (f j) = jb_id j) \<Longrightarrow>
     get_job i (update_job f k qu) = (if i = k then map_option f (get_job i qu) else get_job i qu)"
  unfolding get_job_def update_job_def by (rule find_update)

lemma same_id: "queue_ok qu \<Longrightarrow> j \<in> set qu \<Longrightarrow> k \<in> set qu \<Longrightarrow> jb_id j = jb_id k \<Longrightarrow> j = k"
  by (auto simp: queue_ok_def distinct_map inj_on_def)

lemma holds_leaseI:
  "get_job i qu = Some j \<Longrightarrow> jb_status j = Running \<Longrightarrow> jb_locked_by j = Some w \<Longrightarrow> holds_lease w i qu"
  using get_job_Some [of i qu j] by (auto simp: holds_lease_def)

lemma take_ok:
  assumes ok: "queue_ok qu" and step: "take_lease now w i qu = Some (j, qu')"
  shows "queue_ok qu'"
proof -
  obtain k where k: "get_job i qu = Some k" "jb_status k = Queued" "qu' = update_job (leased now w) i qu"
    using step by (auto simp: take_lease_def split: option.splits if_splits)
  have "job_ok (leased now w x)" if "x \<in> set qu" "jb_id x = i" for x
  proof -
    have "x = k" using same_id [OF ok, of x k] get_job_Some [OF k(1)] that by auto
    then show ?thesis using ok that k(2) by (auto simp: queue_ok_def intro: edit_ok)
  qed
  with ok show ?thesis unfolding k(3) by (intro queue_ok_update) auto
qed

lemma enqueue_ok:
  assumes ok: "queue_ok qu" and i: "i \<notin> jb_id ` set qu" and m: "0 < max_attempts"
    and step: "enqueue_with_outcome i org kind payload key max_attempts run_after now qu = (r, qu')"
  shows "queue_ok qu'"
proof -
  have "qu' = qu \<or> qu' = qu @ [new_job i org kind payload key max_attempts run_after now] \<and>
      (key = None \<or> find (same_key org kind key) qu = None)"
    using step by (auto simp: enqueue_with_outcome_def Let_def split: if_splits option.splits)
  moreover have "(org, kind, key) \<notin> job_name ` set qu" if "find (same_key org kind key) qu = None"
    using that by (auto simp: find_None_iff same_key_def job_name_def)
  ultimately show ?thesis
    using ok i m by (auto simp: queue_ok_def job_ok_def new_job_def job_name_def)
qed

lemma retry_ok:
  assumes ok: "queue_ok qu" and step: "retry now i qu = Inr qu'"
  shows "queue_ok qu'"
proof -
  let ?f = "\<lambda>j. released (j\<lparr>jb_status := Queued, jb_attempts := 0, jb_run_after := now, jb_error := None\<rparr>)"
  have "qu' = update_job ?f i qu"
    using step by (auto simp: retry_def split: option.splits if_splits)
  moreover have "job_ok (?f j)" if "j \<in> set qu" for j
    using ok that by (auto simp: queue_ok_def job_ok_def released_def)
  ultimately show ?thesis
    using ok by (auto intro!: queue_ok_update simp: released_def job_name_def)
qed

lemma renew_ok:
  assumes ok: "queue_ok qu" and step: "renew_lease now w org i qu = (b, qu')"
  shows "queue_ok qu'"
proof -
  define f :: "job \<Rightarrow> job" where "f = (\<lambda>j. if jb_id j = i \<and> jb_org j = org \<and> jb_status j = Running \<and>
    jb_locked_by j = Some w then j\<lparr>jb_locked_at := Some now\<rparr> else j)"
  have "qu' = map f qu" using step by (simp add: renew_lease_def Let_def f_def)
  moreover have "job_ok (f j)" if "j \<in> set qu" for j
    using queue_okD [OF ok that] by (auto simp: job_ok_def f_def)
  ultimately show ?thesis
    using queue_ok_map [OF ok, of f] by (simp add: f_def job_name_def)
qed

lemma finish_ok: "queue_ok qu \<Longrightarrow> queue_ok (finish out now i qu)"
  unfolding finish_def complete_def fail_def
  by (cases out) (simp_all add: queue_ok_update queue_okD edit_ok)

lemma reclaim_ok:
  assumes "queue_ok qu" and "reclaim_stale now qu = (n, qu')"
  shows "queue_ok qu'"
proof -
  have "job_ok (if stale now j then reclaimed now j else j)" if "j \<in> set qu" for j
    using assms(1) that edit_ok(5) [of j now] by (simp add: queue_ok_def)
  then show ?thesis
    using queue_ok_map [OF assms(1), of "\<lambda>j. if stale now j then reclaimed now j else j"] assms(2)
    by (simp add: reclaim_stale_def)
qed

lemma unhandled_ok: "queue_ok qu \<Longrightarrow> queue_ok (update_job unhandled i qu)"
  by (simp add: queue_ok_update queue_okD edit_ok)

lemma job_step_ok:
  "job_step qu e qu' \<Longrightarrow> queue_ok qu \<Longrightarrow> queue_ok qu'"
proof (induction rule: job_step.induct)
  case enqueue
  then show ?case using enqueue_ok by blast
next
  case take
  then show ?case using take_ok by blast
next
  case renew
  then show ?case using renew_ok by blast
next
  case finish
  then show ?case using finish_ok by blast
next
  case unhandled
  then show ?case using unhandled_ok by blast
next
  case reclaim
  then show ?case using reclaim_ok by blast
next
  case retry
  then show ?case using retry_ok by blast
qed

lemma job_run_ok: "job_run qu es qu' \<Longrightarrow> queue_ok qu \<Longrightarrow> queue_ok qu'"
  by (induction rule: job_run.induct) (auto intro: job_step_ok)

text \<open>Who holds a lease took it last.\<close>

lemma last_taker_snoc:
  "last_taker i (es @ [e]) =
     (case e of Took w j \<Rightarrow> (if j = i then Some w else last_taker i es) | _ \<Rightarrow> last_taker i es)"
  by (induction es) (auto split: option.splits job_event.splits)

lemma edits_release [simp]:
  "jb_status (completed r j) \<noteq> Running" "jb_status (failed_as e n h p j) \<noteq> Running"
  "jb_status (unhandled j) \<noteq> Running" "jb_status (reclaimed n j) \<noteq> Running"
  by (simp_all add: job_edit_defs)

lemma update_job_mem: "x \<in> set (update_job f i qu) \<Longrightarrow> (x \<in> set qu \<and> jb_id x \<noteq> i) \<or> (\<exists>j \<in> set qu. jb_id j = i \<and> x = f j)"
  by (auto simp: update_job_def split: if_splits)

definition leases_known :: "queue \<Rightarrow> job_event list \<Rightarrow> bool" where
  "leases_known qu es \<longleftrightarrow>
     (\<forall>j \<in> set qu. jb_status j = Running \<longrightarrow> last_taker (jb_id j) es = jb_locked_by j)"

lemma leases_known_edit:
  assumes "leases_known qu es" and "\<And>j. jb_status (f j) \<noteq> Running"
    and "\<And>w k. e \<noteq> Took w k"
  shows "leases_known (update_job f i qu) (es @ [e])"
  unfolding leases_known_def
proof (intro ballI impI)
  fix x assume "x \<in> set (update_job f i qu)" "jb_status x = Running"
  then have "x \<in> set qu" using update_job_mem [of x f i qu] assms(2) by blast
  moreover have "last_taker (jb_id x) (es @ [e]) = last_taker (jb_id x) es"
    using assms(3) by (cases e) (simp_all add: last_taker_snoc)
  ultimately show "last_taker (jb_id x) (es @ [e]) = jb_locked_by x"
    using assms(1) \<open>jb_status x = Running\<close> by (simp add: leases_known_def)
qed

lemma leases_known_take:
  assumes known: "leases_known qu es" and step: "take_lease now w i qu = Some (j, qu')"
  shows "leases_known qu' (es @ [Took w i])"
proof -
  have "qu' = update_job (leased now w) i qu"
    using step by (auto simp: take_lease_def split: option.splits if_splits)
  then have mem: "(x \<in> set qu \<and> jb_id x \<noteq> i) \<or> (jb_id x = i \<and> jb_locked_by x = Some w)"
    if "x \<in> set qu'" for x
    using update_job_mem [of x "leased now w" i qu] that by (auto simp: leased_def)
  show ?thesis
    unfolding leases_known_def
  proof (intro ballI impI)
    fix x assume "x \<in> set qu'" "jb_status x = Running"
    with mem [of x] known show "last_taker (jb_id x) (es @ [Took w i]) = jb_locked_by x"
      by (auto simp: leases_known_def last_taker_snoc)
  qed
qed

lemma leases_known_step:
  assumes "job_step qu e qu'" and "leases_known qu es"
  shows "leases_known qu' (es @ e)"
  using assms
proof (induction rule: job_step.induct)
  case enqueue
  then show ?case
    by (auto simp: leases_known_def last_taker_snoc enqueue_with_outcome_def new_job_def Let_def
        split: if_splits option.splits)
next
  case take
  then show ?case by (simp add: leases_known_take)
next
  case renew
  then show ?case by (auto simp: leases_known_def renew_lease_def Let_def)
next
  case (finish w i qu out now)
  then show ?case
    by (cases out) (simp_all add: finish_def complete_def fail_def leases_known_edit)
next
  case unhandled
  then show ?case by (simp add: leases_known_edit)
next
  case reclaim
  then show ?case by (auto simp: leases_known_def last_taker_snoc reclaim_stale_def)
next
  case (retry now i qu qu')
  then have "qu' = update_job (\<lambda>j. released (j\<lparr>jb_status := Queued, jb_attempts := 0,
      jb_run_after := now, jb_error := None\<rparr>)) i qu"
    by (auto simp: retry_def split: option.splits if_splits)
  with retry(2) show ?case by (simp add: leases_known_edit released_def)
qed

lemma job_run_known: "job_run qu es qu' \<Longrightarrow> qu = [] \<Longrightarrow> leases_known qu' es"
proof (induction rule: job_run.induct)
  case (start qu)
  then show ?case by (simp add: leases_known_def)
next
  case (step qu es qu' e qu'')
  then show ?case by (blast intro: leases_known_step)
qed

lemma running_not_taken:
  "queue_ok qu \<Longrightarrow> j \<in> set qu \<Longrightarrow> jb_status j \<noteq> Queued \<Longrightarrow> take_lease now w (jb_id j) qu = None"
  using find_key_unique [of jb_id qu j] by (simp add: take_lease_def get_job_def queue_ok_def)

section \<open>Draining\<close>

text \<open>
  A loop that works until nothing is left to do. Every round costs some of a budget, so
  it stops with nothing left to do, in a state that still satisfies the invariant.
\<close>

fun drain :: "('s \<Rightarrow> 's option) \<Rightarrow> nat \<Rightarrow> 's \<Rightarrow> 's" where
  "drain work 0 s = s"
| "drain work (Suc n) s = (case work s of None \<Rightarrow> s | Some t \<Rightarrow> drain work n t)"

locale work_loop =
  fixes work :: "'s \<Rightarrow> 's option" and good :: "'s \<Rightarrow> bool" and budget :: "'s \<Rightarrow> nat"
  assumes work_good: "good s \<Longrightarrow> work s = Some t \<Longrightarrow> good t"
    and work_costs: "good s \<Longrightarrow> work s = Some t \<Longrightarrow> budget t < budget s"
begin

lemma drain_idle: "good s \<Longrightarrow> budget s \<le> n \<Longrightarrow> work (drain work n s) = None \<and> good (drain work n s)"
proof (induction n arbitrary: s)
  case 0
  then show ?case using work_costs [of s] by (cases "work s") auto
next
  case (Suc n)
  then show ?case
    using work_good [of s] work_costs [of s] by (cases "work s") (auto simp: Suc_le_eq)
qed

lemma drain_keeps:
  assumes same: "\<And>s t. good s \<Longrightarrow> work s = Some t \<Longrightarrow> f t = f s"
  shows "good s \<Longrightarrow> f (drain work n s) = f s"
proof (induction n arbitrary: s)
  case (Suc n)
  then show ?case
    using same [of s] work_good [of s] by (cases "work s") auto
qed simp

end

definition job_budget :: "job \<Rightarrow> nat" where
  "job_budget j = (if jb_status j = Queued then jb_max j - jb_attempts j else 0)"

definition queue_budget :: "queue \<Rightarrow> nat" where
  "queue_budget qu = sum_list (map job_budget qu)"

definition idle_until :: "queue \<Rightarrow> instant" where
  "idle_until qu = fold max (map jb_run_after qu) 0"

text \<open>
  One worker alone: it sleeps until the last \<open>run_after\<close> has passed and runs one job.
\<close>

definition work_one :: "string list \<Rightarrow> (job \<Rightarrow> outcome) \<Rightarrow> string \<Rightarrow> queue \<Rightarrow> queue option" where
  "work_one registered run worker qu =
     (case run_once registered run (\<lambda>_ x. x) [] [] (idle_until qu) (idle_until qu) worker qu of
        (None, _) \<Rightarrow> None
      | (Some _, qu') \<Rightarrow> Some qu')"

lemma candidate_Some:
  "candidate ks ex now qu = Some c \<Longrightarrow> c \<in> set qu \<and> jb_status c = Queued \<and> jb_run_after c \<le> now"
  by (auto simp: candidate_def ready_def dest!: first_of_set)

lemma candidate_None: "candidate [] [] now qu = None \<longleftrightarrow> (\<forall>j \<in> set qu. \<not> ready now j)"
proof -
  have "candidate [] [] now qu = None \<longleftrightarrow> set (sort_key jb_run_after (sort_key jb_created
      (filter (\<lambda>j. ready now j \<and> in_lane [] [] j) qu))) = {}"
    by (simp only: candidate_def first_of_None set_empty)
  then show ?thesis by (auto simp: in_lane_def)
qed

lemma claim_alone:
  "claim (\<lambda>_ x. x) ks ex now w qu =
     (case candidate ks ex now qu of None \<Rightarrow> (None, qu)
      | Some c \<Rightarrow> (case take_lease now w (jb_id c) qu of
          Some (j, qu') \<Rightarrow> (Some j, qu')
        | None \<Rightarrow> claim_loop (\<lambda>_ x. x) 9 ks ex now w qu))"
proof -
  have ten: "(10 :: nat) = Suc 9" by simp
  show ?thesis unfolding claim_def ten by (simp only: claim_loop.simps)
qed

lemma update_update:
  "(\<And>j. jb_id (g j) = jb_id j) \<Longrightarrow> update_job f i (update_job g i qu) = update_job (\<lambda>j. f (g j)) i qu"
  by (simp add: update_job_def)

definition ended_as :: "string list \<Rightarrow> (job \<Rightarrow> outcome) \<Rightarrow> instant \<Rightarrow> job \<Rightarrow> job \<Rightarrow> job" where
  "ended_as registered run later j x =
     (if jb_kind j \<notin> set registered then unhandled x
      else case run j of Done r \<Rightarrow> completed r x | Raised e h p \<Rightarrow> failed_as e later h p x)"

lemma ended_as_simps [simp]:
  "jb_id (ended_as rs run l j x) = jb_id x" "jb_max (ended_as rs run l j x) = jb_max x"
  "jb_status (ended_as rs run l j x) \<noteq> Running" "job_name (ended_as rs run l j x) = job_name x"
  by (simp_all add: ended_as_def split: outcome.splits)

lemma ended_status:
  "jb_status (ended_as rs run l j x) \<in> {Queued, Succeeded, Dead} \<and>
   jb_attempts (ended_as rs run l j x) = jb_attempts x"
  by (simp add: ended_as_def job_edit_defs split: outcome.splits)

text \<open>Undisturbed, \<open>run_once\<close> edits the row of the oldest ready job, and only it.\<close>

lemma run_once_alone:
  assumes ok: "queue_ok qu" and c: "candidate ks ex now qu = Some c"
  shows "run_once rs run (\<lambda>_ x. x) ks ex now later w qu =
    (Some (ended_as rs run later (leased now w c) (leased now w c)),
     update_job (\<lambda>x. ended_as rs run later (leased now w c) (leased now w x)) (jb_id c) qu)"
proof -
  have c': "c \<in> set qu" "jb_status c = Queued" using candidate_Some [OF c] by auto
  have get: "get_job (jb_id c) qu = Some c"
    using find_key_unique [of jb_id qu c] ok c'(1) by (simp add: get_job_def queue_ok_def)
  have cl: "claim (\<lambda>_ x. x) ks ex now w qu = (Some (leased now w c), update_job (leased now w) (jb_id c) qu)"
    using c c'(2) get by (simp add: claim_alone take_lease_def)
  have fin: "(if jb_kind j \<notin> set rs then update_job unhandled i xs else finish (run j) later i xs)
      = update_job (ended_as rs run later j) i xs" for j i xs
    by (simp add: ended_as_def [abs_def] finish_def complete_def fail_def split: outcome.splits)
  show ?thesis
    using get
    by (simp add: run_once_def cl fin Let_def update_update get_job_update del: update_job_def)
qed

lemma queue_budget_update:
  assumes "c \<in> set qu" "\<And>x. x \<in> set qu \<Longrightarrow> jb_id x = jb_id c \<Longrightarrow> job_budget (f x) < job_budget x"
  shows "queue_budget (update_job f (jb_id c) qu) < queue_budget qu"
proof -
  have le: "queue_budget (update_job f i xs) \<le> queue_budget xs"
    if "\<And>x. x \<in> set xs \<Longrightarrow> jb_id x = i \<Longrightarrow> job_budget (f x) < job_budget x" for i xs
    using that
  proof (induction xs)
    case (Cons y ys)
    then have "queue_budget (update_job f i ys) \<le> queue_budget ys" by simp
    moreover have "jb_id y = i \<Longrightarrow> job_budget (f y) < job_budget y" using Cons(2) [of y] by simp
    ultimately show ?case by (auto simp: queue_budget_def update_job_def)
  qed (simp add: queue_budget_def update_job_def)
  show ?thesis using assms
  proof (induction qu)
    case (Cons y ys)
    then have y: "jb_id y = jb_id c \<Longrightarrow> job_budget (f y) < job_budget y" by simp
    have ys: "queue_budget (update_job f (jb_id c) ys) \<le> queue_budget ys"
      using Cons(3) by (intro le) simp
    show ?case
    proof (cases "jb_id y = jb_id c")
      case True
      then show ?thesis using y ys by (simp add: queue_budget_def update_job_def)
    next
      case False
      then have "c \<in> set ys" using Cons(2) by auto
      then have "queue_budget (update_job f (jb_id c) ys) < queue_budget ys"
        using Cons(1,3) by simp
      then show ?thesis using False by (simp add: queue_budget_def update_job_def)
    qed
  qed simp
qed

lemma idle_until_max: "j \<in> set qu \<Longrightarrow> jb_run_after j \<le> idle_until qu"
proof -
  have ge: "a \<le> fold max xs a" for xs and a :: instant
    by (induction xs arbitrary: a) (auto intro: order_trans [OF max.cobounded2])
  have "x \<in> set xs \<Longrightarrow> x \<le> fold max xs a" for x xs and a :: instant
    by (induction xs arbitrary: a) (auto intro: order_trans [OF max.cobounded1 ge])
  then show "j \<in> set qu \<Longrightarrow> jb_run_after j \<le> idle_until qu" by (simp add: idle_until_def)
qed

definition nothing_running :: "queue \<Rightarrow> bool" where
  "nothing_running qu \<longleftrightarrow> (\<forall>j \<in> set qu. jb_status j \<noteq> Running)"

lemma work_one_Some:
  assumes ok: "queue_ok qu" and step: "work_one rs run w qu = Some qu'"
  obtains c where "candidate [] [] (idle_until qu) qu = Some c"
    "qu' = update_job (\<lambda>x. ended_as rs run (idle_until qu) (leased (idle_until qu) w c)
       (leased (idle_until qu) w x)) (jb_id c) qu"
proof (cases "candidate [] [] (idle_until qu) qu")
  case None
  then show thesis using step by (simp add: work_one_def run_once_def claim_alone)
next
  case (Some c)
  then show thesis using step that [OF Some] by (simp add: work_one_def run_once_alone [OF ok Some])
qed

interpretation jobs: work_loop "work_one rs run w" "\<lambda>qu. queue_ok qu \<and> nothing_running qu" queue_budget
  for rs run w
proof
  fix qu qu' assume good: "queue_ok qu \<and> nothing_running qu" and step: "work_one rs run w qu = Some qu'"
  then have ok: "queue_ok qu" by simp
  let ?t = "idle_until qu"
  obtain c where c: "candidate [] [] ?t qu = Some c"
    and qu': "qu' = update_job (\<lambda>x. ended_as rs run ?t (leased ?t w c) (leased ?t w x)) (jb_id c) qu"
    using work_one_Some [OF ok step] by blast
  have c': "c \<in> set qu" "jb_status c = Queued" using candidate_Some [OF c] by auto
  have only: "x = c" if "x \<in> set qu" "jb_id x = jb_id c" for x using same_id [OF ok] that c'(1) by blast
  have cok: "job_ok c" by (rule queue_okD [OF ok c'(1)])
  have "job_ok (ended_as rs run ?t (leased ?t w c) (leased ?t w c))"
    using edit_ok(1) [OF cok c'(2)] by (simp add: ended_as_def edit_ok split: outcome.splits)
  then have "job_ok (ended_as rs run ?t (leased ?t w c) (leased ?t w x))" if "x \<in> set qu" "jb_id x = jb_id c" for x
    using only [OF that] by simp
  then have "queue_ok qu'"
    unfolding qu' by (intro queue_ok_update [OF ok]) simp_all
  moreover have "nothing_running qu'"
    using good unfolding qu' nothing_running_def by (auto dest!: update_job_mem)
  ultimately show "queue_ok qu' \<and> nothing_running qu'" by simp
  let ?d = "ended_as rs run ?t (leased ?t w c) (leased ?t w c)"
  have "jb_attempts c < jb_max c" using cok c'(2) by (simp add: job_ok_def)
  moreover have "jb_attempts ?d = jb_attempts c + 1" "jb_max ?d = jb_max c"
    using ended_status [of rs run ?t "leased ?t w c" "leased ?t w c"] by (simp_all add: leased_def)
  ultimately have "job_budget ?d < job_budget c"
    using c'(2) by (auto simp: job_budget_def)
  then show "queue_budget qu' < queue_budget qu"
    unfolding qu' using only by (intro queue_budget_update c'(1)) auto
qed

lemma update_job_ids: "(\<And>j. jb_id (f j) = jb_id j) \<Longrightarrow> map jb_id (update_job f i xs) = map jb_id xs"
  unfolding update_job_def by (rule map_key_update)

lemma drain_ids:
  assumes "queue_ok qu" "nothing_running qu"
  shows "map jb_id (drain (work_one rs run w) n qu) = map jb_id qu"
proof (rule jobs.drain_keeps)
  fix qu qu' assume "queue_ok qu \<and> nothing_running qu" "work_one rs run w qu = Some qu'"
  then obtain c where "qu' = update_job (\<lambda>x. ended_as rs run (idle_until qu) (leased (idle_until qu) w c)
       (leased (idle_until qu) w x)) (jb_id c) qu"
    using work_one_Some [of qu rs run w qu'] by blast
  then show "map jb_id qu' = map jb_id qu" by (simp add: update_job_ids)
qed (use assms in simp)

lemma work_one_None:
  assumes "queue_ok qu" "nothing_running qu" "work_one rs run w qu = None" "j \<in> set qu"
  shows "jb_status j \<in> set TERMINAL_JOB"
proof -
  have "candidate [] [] (idle_until qu) qu = None"
  proof (cases "candidate [] [] (idle_until qu) qu")
    case (Some c)
    then show ?thesis using assms(3) by (simp add: work_one_def run_once_alone [OF assms(1) Some])
  qed simp
  then have "jb_status j \<noteq> Queued"
    using assms(4) idle_until_max [OF assms(4)] by (auto simp: candidate_None ready_def)
  moreover have "jb_status j \<noteq> Running" "jb_status j \<noteq> FailedJob"
    using assms(2,4) queue_okD [OF assms(1,4)] by (auto simp: nothing_running_def job_ok_def)
  ultimately show ?thesis by (cases "jb_status j") (simp_all add: TERMINAL_JOB_def)
qed

lemma budget_le: "queue_budget qu \<le> sum_list (map jb_max qu)"
  unfolding queue_budget_def by (intro sum_list_mono) (simp add: job_budget_def)

lemma reclaim_fields:
  "map jb_id (snd (reclaim_stale now qu)) = map jb_id qu" "map jb_max (snd (reclaim_stale now qu)) = map jb_max qu"
  by (simp_all add: reclaim_stale_def)

section \<open>Properties\<close>


text \<open>
  C18: no job is lost and none loops. From any well-formed queue whose leases have all
  expired, once they are reclaimed a single worker, whatever its handlers do, ends every
  job as succeeded or dead within as many rounds as there are attempts in all, and every
  job is still in the table.
\<close>

theorem every_job_ends:
  assumes ok: "queue_ok qu" and expired: "\<forall>j \<in> set qu. jb_status j = Running \<longrightarrow> stale now j"
    and n: "sum_list (map jb_max qu) \<le> n"
  shows "map jb_id (drain (work_one rs run w) n (snd (reclaim_stale now qu))) = map jb_id qu \<and>
    (\<forall>j \<in> set (drain (work_one rs run w) n (snd (reclaim_stale now qu))). jb_status j \<in> set TERMINAL_JOB)"
proof -
  let ?q = "snd (reclaim_stale now qu)"
  have q: "queue_ok ?q" using reclaim_ok [OF ok, of now "fst (reclaim_stale now qu)" ?q] by simp
  have idle: "nothing_running ?q"
    using expired by (auto simp: nothing_running_def reclaim_stale_def)
  have "queue_budget ?q \<le> n" using budget_le [of ?q] n by (simp add: reclaim_fields)
  then have "work_one rs run w (drain (work_one rs run w) n ?q) = None \<and>
      queue_ok (drain (work_one rs run w) n ?q) \<and> nothing_running (drain (work_one rs run w) n ?q)"
    using jobs.drain_idle [of ?q n] q idle by blast
  then show ?thesis
    using work_one_None [of "drain (work_one rs run w) n ?q" rs run w] q idle by (simp add: drain_ids reclaim_fields)
qed

definition sample_job :: job where
  "sample_job = new_job ''j-1'' ''org-1'' ''mail'' ''{}'' None 5 None 0"

lemma sample_queue_ok: "queue_ok [sample_job]"
  by (simp add: queue_ok_def job_ok_def sample_job_def new_job_def)


theorem every_job_ends_witness:
  "\<exists>j. drain (work_one [''mail''] (\<lambda>_. Raised ''no route'' None False) ''w-1'') 5
     (snd (reclaim_stale 9 [sample_job])) = [j] \<and> jb_id j = ''j-1'' \<and> jb_status j \<in> {Succeeded, Dead}"
proof -
  have "\<forall>j \<in> set [sample_job]. jb_status j = Running \<longrightarrow> stale 9 j"
    by (simp add: sample_job_def new_job_def)
  moreover have "sum_list (map jb_max [sample_job]) \<le> 5" "jb_id sample_job = ''j-1''"
    by (simp_all add: sample_job_def new_job_def)
  ultimately show ?thesis
    using every_job_ends [OF sample_queue_ok, of 9 5 "[''mail'']" "\<lambda>_. Raised ''no route'' None False" "''w-1''"]
    by (auto simp: TERMINAL_JOB_def map_eq_Cons_conv)
qed

text \<open>
  A late worker frees the lease of another. A worker whose lease expired while it ran
  still completes or fails the row when its handler returns: nothing compares the lease.
  When it fails a job that another worker has taken since, the job is queued again and a
  third worker takes it while the second still runs it.
\<close>

theorem late_failure_frees_lease:
  assumes ok: "queue_ok qu" and i: "get_job i qu = Some j" "jb_status j = Queued"
    and left: "jb_attempts j + 2 < jb_max j" and late: "t1 + STALE_LEASE_SECONDS < t2"
  shows "\<exists>j1 q1 n q2 j3 q3 j5 q5. take_lease t1 a i qu = Some (j1, q1) \<and>
    reclaim_stale t2 q1 = (n, q2) \<and> take_lease t3 b i q2 = Some (j3, q3) \<and> holds_lease b i q3 \<and>
    take_lease t5 c i (finish (Raised err None False) t4 i q3) = Some (j5, q5) \<and> holds_lease c i q5"
proof -
  define q1 where "q1 = update_job (leased t1 a) i qu"
  define q2 where "q2 = snd (reclaim_stale t2 q1)"
  define q3 where "q3 = update_job (leased t3 b) i q2"
  define q4 where "q4 = finish (Raised err None False) t4 i q3"
  have t1: "take_lease t1 a i qu = Some (leased t1 a j, q1)"
    using i by (simp add: take_lease_def q1_def)
  have g1: "get_job i q1 = Some (leased t1 a j)" using i by (simp add: q1_def get_job_update)
  have st: "stale t2 (leased t1 a j)" using late by (simp add: stale_def leased_def)
  have "get_job i q2 = map_option (\<lambda>x. if stale t2 x then reclaimed t2 x else x) (get_job i q1)"
  proof -
    have "find (\<lambda>x. jb_id x = i) (map (\<lambda>x. if stale t2 x then reclaimed t2 x else x) xs)
        = map_option (\<lambda>x. if stale t2 x then reclaimed t2 x else x) (find (\<lambda>x. jb_id x = i) xs)" for xs
      by (induction xs) auto
    then show ?thesis by (simp add: q2_def reclaim_stale_def get_job_def)
  qed
  then have g2: "get_job i q2 = Some (reclaimed t2 (leased t1 a j))" using g1 st by simp
  have s2: "jb_status (reclaimed t2 (leased t1 a j)) = Queued"
    using left by (simp add: reclaimed_def leased_def released_def Let_def)
  have t3: "take_lease t3 b i q2 = Some (leased t3 b (reclaimed t2 (leased t1 a j)), q3)"
    using g2 s2 by (simp add: take_lease_def q3_def)
  have g3: "get_job i q3 = Some (leased t3 b (reclaimed t2 (leased t1 a j)))"
    using g2 by (simp add: q3_def get_job_update)
  have h3: "holds_lease b i q3"
    by (rule holds_leaseI [OF g3]) (simp_all add: leased_def)
  let ?j4 = "failed_as err t4 None False (leased t3 b (reclaimed t2 (leased t1 a j)))"
  have g4: "get_job i q4 = Some ?j4" using g3 by (simp add: q4_def finish_def fail_def get_job_update)
  have s4: "jb_status ?j4 = Queued"
    using left by (simp add: failed_as_def reclaimed_def leased_def released_def Let_def)
  have t5: "take_lease t5 c i q4 = Some (leased t5 c ?j4, update_job (leased t5 c) i q4)"
    using g4 s4 by (simp add: take_lease_def)
  have "get_job i (update_job (leased t5 c) i q4) = Some (leased t5 c ?j4)"
    using g4 by (simp add: get_job_update)
  then have "holds_lease c i (update_job (leased t5 c) i q4)"
    by (rule holds_leaseI) (simp_all add: leased_def)
  with t1 t3 h3 t5 show ?thesis
    unfolding q4_def by (metis prod.collapse q2_def)
qed

theorem late_failure_frees_lease_witness:
  "\<exists>j1 q1 n q2 j3 q3 j5 q5. take_lease 0 ''w-1'' ''j-1'' [sample_job] = Some (j1, q1) \<and>
    reclaim_stale 400 q1 = (n, q2) \<and> take_lease 450 ''w-2'' ''j-1'' q2 = Some (j3, q3) \<and>
    holds_lease ''w-2'' ''j-1'' q3 \<and>
    take_lease 600 ''w-3'' ''j-1'' (finish (Raised ''timeout'' None False) 500 ''j-1'' q3) = Some (j5, q5) \<and>
    holds_lease ''w-3'' ''j-1'' q5"
proof (rule late_failure_frees_lease [OF sample_queue_ok])
  show "get_job ''j-1'' [sample_job] = Some sample_job" "jb_status sample_job = Queued"
    "jb_attempts sample_job + 2 < jb_max sample_job"
    by (simp_all add: get_job_def sample_job_def new_job_def)
qed (simp add: STALE_LEASE_SECONDS_def)

end
