(* ===== verification/AuditTrail.thy ===== *)
theory AuditTrail
  imports Prelude
begin

text \<open>
  \<open>services/audit.py\<close>: the hash-chained audit trail. The SHA-256 of the standard library
  is the argument \<open>H\<close>, from the text that is hashed to the hexadecimal digest; the
  metadata arrives as the JSON text the code renders, or \<open>None\<close>. The log holds the
  events of all tenants in the order they were appended.
\<close>

section \<open>Events\<close>

record audit_event =
  ev_org :: ident
  ev_seq :: nat
  ev_actor :: "ident option"
  ev_email :: "string option"
  ev_action :: string
  ev_ttype :: "string option"
  ev_tid :: "string option"
  ev_at :: nat
  ev_meta :: "string option"
  ev_ip :: "string option"
  ev_session :: "string option"
  ev_prev :: "string option"
  ev_hash :: string

type_synonym audit_log = "audit_event list"

fun join_with :: "string \<Rightarrow> string list \<Rightarrow> string" where
  "join_with sep [] = []"
| "join_with sep [x] = x"
| "join_with sep (x # y # ys) = x @ sep @ join_with sep (y # ys)"

definition or_empty :: "string option \<Rightarrow> string" where
  "or_empty x = (case x of None \<Rightarrow> [] | Some s \<Rightarrow> s)"

text \<open>The nine fields, and the location when there is one.\<close>

definition hash_parts ::
  "string option \<Rightarrow> nat \<Rightarrow> ident \<Rightarrow> ident option \<Rightarrow> string \<Rightarrow> string option \<Rightarrow> string option \<Rightarrow> nat \<Rightarrow>
   string option \<Rightarrow> string option \<Rightarrow> string option \<Rightarrow> string list" where
  "hash_parts prev sq org actor action ttype tid ms meta ip sess =
     [or_empty prev, str_nat sq, org, or_empty actor, action, or_empty ttype, or_empty tid, str_nat ms,
      or_empty meta] @ (if ip \<noteq> None \<or> sess \<noteq> None then [or_empty ip, or_empty sess] else [])"

definition hash_event ::
  "(string \<Rightarrow> string) \<Rightarrow> string option \<Rightarrow> nat \<Rightarrow> ident \<Rightarrow> ident option \<Rightarrow> string \<Rightarrow> string option \<Rightarrow>
   string option \<Rightarrow> nat \<Rightarrow> string option \<Rightarrow> string option \<Rightarrow> string option \<Rightarrow> string" where
  "hash_event H prev sq org actor action ttype tid ms meta ip sess =
     H (join_with ''|'' (hash_parts prev sq org actor action ttype tid ms meta ip sess))"

definition events_of :: "ident \<Rightarrow> audit_log \<Rightarrow> audit_event list" where
  "events_of org lg = sort_key ev_seq (filter (\<lambda>e. ev_org e = org) lg)"

definition latest_event :: "ident \<Rightarrow> audit_log \<Rightarrow> audit_event option" where
  "latest_event org lg = first_of (sort_key (\<lambda>e. - int (ev_seq e)) (filter (\<lambda>e. ev_org e = org) lg))"

section \<open>Recording\<close>

text \<open>What the request has set: tenant, actor and location.\<close>

record audit_context =
  cx_org :: "ident option"
  cx_actor :: "ident option \<times> string option"
  cx_where :: "string option \<times> string option"

definition next_event ::
  "(string \<Rightarrow> string) \<Rightarrow> ident \<Rightarrow> ident option \<times> string option \<Rightarrow> string \<Rightarrow> string option \<Rightarrow> string option \<Rightarrow>
   string option \<Rightarrow> string option \<times> string option \<Rightarrow> nat \<Rightarrow> audit_log \<Rightarrow> audit_event" where
  "next_event H org actor action ttype tid meta loc now_ms lg =
     (let last = latest_event org lg;
          sq = (case last of None \<Rightarrow> 1 | Some e \<Rightarrow> ev_seq e + 1);
          prev = map_option ev_hash last
      in \<lparr>ev_org = org, ev_seq = sq, ev_actor = fst actor, ev_email = snd actor, ev_action = action,
          ev_ttype = ttype, ev_tid = tid, ev_at = now_ms, ev_meta = meta, ev_ip = fst loc,
          ev_session = snd loc, ev_prev = prev,
          ev_hash = hash_event H prev sq org (fst actor) action ttype tid now_ms meta (fst loc) (snd loc)\<rparr>)"

definition audit_record ::
  "(string \<Rightarrow> string) \<Rightarrow> audit_context \<Rightarrow> string \<Rightarrow> string option \<Rightarrow> string option \<Rightarrow> string option \<Rightarrow>
   ident option \<Rightarrow> (ident option \<times> string option) option \<Rightarrow> string option \<Rightarrow> string option \<Rightarrow> nat \<Rightarrow>
   audit_log \<Rightarrow> audit_event option \<times> audit_log" where
  "audit_record H cx action ttype tid meta org actor ip sess now_ms lg =
     (case (if truthy org then org else cx_org cx) of
        None \<Rightarrow> (None, lg)
      | Some o' \<Rightarrow>
          let who = (case actor of Some a \<Rightarrow> a | None \<Rightarrow> cx_actor cx);
              loc = (if ip = None \<and> sess = None then cx_where cx else (ip, sess));
              e = next_event H o' who action ttype tid meta loc now_ms lg
          in (Some e, lg @ [e]))"

section \<open>Verifying and exporting\<close>

record chain_status =
  cs_ok :: bool
  cs_events :: nat
  cs_broken_at :: "nat option"

definition recomputed :: "(string \<Rightarrow> string) \<Rightarrow> audit_event \<Rightarrow> string" where
  "recomputed H e = hash_event H (ev_prev e) (ev_seq e) (ev_org e) (ev_actor e) (ev_action e) (ev_ttype e)
     (ev_tid e) (ev_at e) (ev_meta e) (ev_ip e) (ev_session e)"

fun first_break :: "(string \<Rightarrow> string) \<Rightarrow> audit_event option \<Rightarrow> audit_event list \<Rightarrow> nat option" where
  "first_break H prev [] = None"
| "first_break H prev (e # es) =
     (if ev_prev e \<noteq> map_option ev_hash prev then Some (ev_seq e)
      else if recomputed H e \<noteq> ev_hash e then Some (ev_seq e)
      else first_break H (Some e) es)"

definition verify_chain :: "(string \<Rightarrow> string) \<Rightarrow> ident \<Rightarrow> audit_log \<Rightarrow> chain_status" where
  "verify_chain H org lg =
     (let rows = events_of org lg
      in case first_break H None rows of
           None \<Rightarrow> \<lparr>cs_ok = True, cs_events = length rows, cs_broken_at = None\<rparr>
         | Some sq \<Rightarrow> \<lparr>cs_ok = False, cs_events = length rows, cs_broken_at = Some sq\<rparr>)"

definition list_events ::
  "ident \<Rightarrow> string option \<Rightarrow> nat \<Rightarrow> nat \<Rightarrow> audit_log \<Rightarrow> audit_event list \<times> nat" where
  "list_events org action page page_size lg =
     (let rows = filter (\<lambda>e. ev_org e = org \<and> (truthy action \<longrightarrow> ev_action e = the action)) lg
      in (take page_size (drop ((page - 1) * page_size) (sort_key (\<lambda>e. - int (ev_seq e)) rows)),
          length rows))"

definition export_events ::
  "ident \<Rightarrow> string option \<Rightarrow> nat option \<Rightarrow> nat option \<Rightarrow> audit_log \<Rightarrow> audit_event list" where
  "export_events org action since until lg =
     sort_key ev_seq (filter (\<lambda>e. ev_org e = org \<and> (truthy action \<longrightarrow> ev_action e = the action) \<and>
       (case since of None \<Rightarrow> True | Some t \<Rightarrow> t \<le> ev_at e) \<and>
       (case until of None \<Rightarrow> True | Some t \<Rightarrow> ev_at e \<le> t)) lg)"

section \<open>Lemmas\<close>

lemma or_empty_simps [simp]: "or_empty None = []" "or_empty (Some s) = s"
  by (simp_all add: or_empty_def)

text \<open>Texts without the separator can be told apart after joining.\<close>

lemma join_with_Cons: "xs \<noteq> [] \<Longrightarrow> join_with sep (x # xs) = x @ sep @ join_with sep xs"
  by (cases xs) simp_all

lemma split_at_bar:
  assumes "c \<notin> set x" "c \<notin> set y" "x @ c # xs = y @ c # ys"
  shows "x = y \<and> xs = ys"
  using assms
proof (induction x arbitrary: y)
  case Nil
  then show ?case by (cases y) auto
next
  case (Cons a x)
  then show ?case by (cases y) auto
qed

lemma join_bar: "xs \<noteq> [] \<Longrightarrow> c \<in> set (join_with [c] (x # xs))"
  by (simp add: join_with_Cons)

lemma join_with_inj:
  assumes "\<forall>x \<in> set xs. c \<notin> set x" "\<forall>y \<in> set ys. c \<notin> set y" "xs \<noteq> []" "ys \<noteq> []"
    "join_with [c] xs = join_with [c] ys"
  shows "xs = ys"
  using assms
proof (induction xs arbitrary: ys)
  case (Cons x xs)
  obtain y yt where ys: "ys = y # yt" using Cons.prems(4) by (cases ys) auto
  have "c \<in> set (join_with [c] (x # xs)) \<longleftrightarrow> xs \<noteq> []" "c \<in> set (join_with [c] (y # yt)) \<longleftrightarrow> yt \<noteq> []"
    using Cons.prems(1,2) join_bar [of xs c x] join_bar [of yt c y] by (auto simp: ys)
  then have both: "xs = [] \<longleftrightarrow> yt = []" using Cons.prems(5) by (simp add: ys)
  show ?case
  proof (cases "xs = []")
    case True
    with both Cons.prems show ?thesis by (simp add: ys)
  next
    case False
    have "x @ c # join_with [c] xs = y @ c # join_with [c] yt"
      using Cons.prems(5) False both by (simp add: ys join_with_Cons)
    moreover have "c \<notin> set x" "c \<notin> set y" using Cons.prems(1,2) by (simp_all add: ys)
    ultimately have "x = y \<and> join_with [c] xs = join_with [c] yt" by (intro split_at_bar)
    moreover have "xs = yt"
      using Cons.prems(1,2) False both calculation by (intro Cons.IH) (auto simp: ys)
    ultimately show ?thesis by (simp add: ys)
  qed
qed simp

definition own_events :: "ident \<Rightarrow> audit_log \<Rightarrow> audit_event list" where
  "own_events org lg = filter (\<lambda>e. ev_org e = org) lg"

definition trail_ok :: "(string \<Rightarrow> string) \<Rightarrow> audit_log \<Rightarrow> bool" where
  "trail_ok H lg \<longleftrightarrow> (\<forall>org. map ev_seq (own_events org lg) = [1..<length (own_events org lg) + 1] \<and>
     first_break H None (own_events org lg) = None)"

lemma seq_sorted:
  assumes "map ev_seq xs = [1..<length xs + 1]"
  shows "sorted_wrt (<) (map ev_seq xs)"
  unfolding assms by (simp add: sorted_wrt_upt del: upt_Suc)

lemma sort_sorted_key: "sorted (map f xs) \<Longrightarrow> sort_key f xs = xs"
  by (rule sort_key_id_if_sorted)

lemma trail_events: "trail_ok H lg \<Longrightarrow> events_of org lg = own_events org lg"
  unfolding events_of_def own_events_def [symmetric]
  by (intro sort_sorted_key strict_sorted_imp_sorted seq_sorted) (simp add: trail_ok_def del: upt_Suc)

lemma latest_last:
  assumes "sorted_wrt (<) (map ev_seq xs)"
  shows "first_of (sort_key (\<lambda>e. - int (ev_seq e)) xs) = (if xs = [] then None else Some (last xs))"
proof -
  let ?f = "\<lambda>e. - int (ev_seq e)"
  have "sorted_wrt (<) (map ?f (rev xs))"
    using assms by (simp add: rev_map [symmetric] sorted_wrt_rev sorted_wrt_map)
  moreover have "inj_on ?f (set xs)"
    using assms by (auto simp: inj_on_def strict_sorted_iff distinct_map)
  moreover have "mset (rev xs) = mset xs" by simp
  ultimately have "sort_key ?f xs = rev xs"
    by (intro sort_key_inj_key_eq) (auto simp: strict_sorted_iff)
  then show ?thesis by (cases xs rule: rev_cases) (simp_all add: first_of_def)
qed

lemma trail_latest:
  "trail_ok H lg \<Longrightarrow> latest_event org lg =
     (if own_events org lg = [] then None else Some (last (own_events org lg)))"
  unfolding latest_event_def own_events_def [symmetric]
  by (intro latest_last seq_sorted) (simp add: trail_ok_def del: upt_Suc)

lemma first_break_snoc:
  "first_break H p (es @ [e]) =
     (case first_break H p es of
        Some s \<Rightarrow> Some s
      | None \<Rightarrow> first_break H (if es = [] then p else Some (last es)) [e])"
  by (induction es arbitrary: p) (auto split: option.splits)

lemma trail_last_seq:
  "trail_ok H lg \<Longrightarrow> own_events org lg \<noteq> [] \<Longrightarrow> ev_seq (last (own_events org lg)) = length (own_events org lg)"
proof -
  assume "trail_ok H lg" and ne: "own_events org lg \<noteq> []"
  then have "map ev_seq (own_events org lg) = [1..<length (own_events org lg) + 1]" by (simp add: trail_ok_def)
  moreover have "0 < length (own_events org lg)" using ne by simp
  ultimately have "last (map ev_seq (own_events org lg)) = length (own_events org lg)" by simp
  then show ?thesis using ne by (simp add: last_map)
qed

lemma record_ok:
  assumes ok: "trail_ok H lg" and r: "audit_record H cx action ttype tid meta org actor ip sess ms lg = (r, lg')"
  shows "trail_ok H lg' \<and> (case r of None \<Rightarrow> lg' = lg
     | Some e \<Rightarrow> lg' = lg @ [e] \<and> ev_seq e = length (own_events (ev_org e) lg) + 1)"
proof (cases r)
  case None
  then show ?thesis using r ok by (auto simp: audit_record_def Let_def split: option.splits)
next
  case (Some e)
  define who where "who = (case actor of Some a \<Rightarrow> a | None \<Rightarrow> cx_actor cx)"
  define loc where "loc = (if ip = None \<and> sess = None then cx_where cx else (ip, sess))"
  obtain o' where "(if truthy org then org else cx_org cx) = Some o'"
    using r Some by (cases "if truthy org then org else cx_org cx") (simp_all add: audit_record_def)
  then have e: "e = next_event H o' who action ttype tid meta loc ms lg" and lg': "lg' = lg @ [e]"
    using r Some by (auto simp: audit_record_def who_def loc_def Let_def)
  let ?xs = "own_events o' lg"
  have last: "latest_event o' lg = (if ?xs = [] then None else Some (last ?xs))"
    by (rule trail_latest [OF ok])
  have e': "ev_org e = o'" "ev_seq e = length ?xs + 1" "ev_prev e = map_option ev_hash (latest_event o' lg)"
    "recomputed H e = ev_hash e"
    using trail_last_seq [OF ok, of o']
    by (simp_all add: e next_event_def recomputed_def Let_def last)
  have own: "own_events org' lg' = own_events org' lg @ (if org' = o' then [e] else [])" for org'
    using e'(1) by (simp add: own_events_def lg')
  have "trail_ok H lg'"
    unfolding trail_ok_def
  proof (intro allI conjI)
    fix org'
    have old: "map ev_seq (own_events org' lg) = [1..<length (own_events org' lg) + 1]"
      "first_break H None (own_events org' lg) = None"
      using ok by (simp_all add: trail_ok_def)
    show "map ev_seq (own_events org' lg') = [1..<length (own_events org' lg') + 1]"
      using old e'(2) by (simp add: own)
    have "first_break H (if ?xs = [] then None else Some (last ?xs)) [e] = None"
      using e'(3,4) last by simp
    then show "first_break H None (own_events org' lg') = None"
      using old(2) by (cases "org' = o'") (simp_all add: own first_break_snoc)
  qed
  then show ?thesis by (simp add: Some lg' e')
qed

section \<open>Properties\<close>

text \<open>What a run of the application leaves: any sequence of recordings, by any tenants.\<close>

inductive audited :: "(string \<Rightarrow> string) \<Rightarrow> audit_log \<Rightarrow> bool" for H where
  start: "audited H []"
| rec: "audited H lg \<Longrightarrow>
     audit_record H cx action ttype tid meta org actor ip sess ms lg = (r, lg') \<Longrightarrow> audited H lg'"

lemma audited_ok: "audited H lg \<Longrightarrow> trail_ok H lg"
proof (induction rule: audited.induct)
  case start
  show ?case by (simp add: trail_ok_def own_events_def)
next
  case rec
  then show ?case using record_ok by blast
qed

text \<open>
  C19: what is recorded verifies. After any interleaving of recordings by any tenants, the
  chain of every tenant verifies with all its events counted, its sequence numbers are
  1, 2, 3 and so on without a gap, and an unfiltered export is that chain in order.
\<close>

theorem recorded_trail_verifies:
  assumes "audited H lg"
  shows "verify_chain H org lg = \<lparr>cs_ok = True, cs_events = length (own_events org lg), cs_broken_at = None\<rparr> \<and>
    map ev_seq (events_of org lg) = [1..<length (own_events org lg) + 1] \<and>
    export_events org None None None lg = own_events org lg"
proof -
  have ok: "trail_ok H lg" by (rule audited_ok [OF assms])
  have ev: "events_of org lg = own_events org lg" by (rule trail_events [OF ok])
  have "export_events org None None None lg = events_of org lg"
    by (simp add: export_events_def events_of_def)
  with ev ok show ?thesis by (simp add: verify_chain_def trail_ok_def)
qed

text \<open>The fields of an event the hash covers, as the text of each.\<close>

definition covered :: "audit_event \<Rightarrow> string list" where
  "covered e = hash_parts (ev_prev e) (ev_seq e) (ev_org e) (ev_actor e) (ev_action e) (ev_ttype e)
     (ev_tid e) (ev_at e) (ev_meta e) (ev_ip e) (ev_session e)"

definition barless :: "audit_event \<Rightarrow> bool" where
  "barless e \<longleftrightarrow> list_all (\<lambda>s. CHR ''|'' \<notin> set s) (covered e)"

lemma covered_eq:
  assumes H: "inj H" and "barless e" "barless f" "recomputed H e = recomputed H f"
  shows "covered e = covered f"
proof -
  have "join_with ''|'' (covered e) = join_with ''|'' (covered f)"
    using assms(4) injD [OF H] by (auto simp: recomputed_def hash_event_def covered_def)
  moreover have "covered e \<noteq> []" "covered f \<noteq> []" by (simp_all add: covered_def hash_parts_def)
  ultimately show ?thesis
    using assms(2,3) by (intro join_with_inj) (simp_all add: barless_def list_all_iff)
qed

lemma covered_prev: "covered e = covered f \<Longrightarrow> or_empty (ev_prev e) = or_empty (ev_prev f)"
  by (simp add: covered_def hash_parts_def)

lemma first_break_snoc_None:
  "first_break H p (es @ [e]) = None \<longleftrightarrow> first_break H p es = None \<and>
     ev_prev e = map_option ev_hash (if es = [] then p else Some (last es)) \<and> recomputed H e = ev_hash e"
  by (simp add: first_break_snoc split: option.split)

text \<open>Read backwards from the last digest, two chains that verify hold the same events.\<close>

lemma chains_agree:
  assumes H: "inj H" and p: "first_break H None xs = None" "first_break H None ys = None"
    and len: "length xs = length ys" and last: "map ev_hash (take 1 (rev xs)) = map ev_hash (take 1 (rev ys))"
    and bars: "\<forall>e \<in> set xs. barless e" "\<forall>e \<in> set ys. barless e"
  shows "map covered xs = map covered ys"
  using p len last bars
proof (induction xs arbitrary: ys rule: rev_induct)
  case (snoc e xs)
  obtain f zs where ys: "ys = zs @ [f]" using snoc.prems(3) by (cases ys rule: rev_cases) auto
  have pre: "first_break H None xs = None" "first_break H None zs = None"
    and links: "ev_prev e = map_option ev_hash (if xs = [] then None else Some (last xs))"
      "recomputed H e = ev_hash e"
      "ev_prev f = map_option ev_hash (if zs = [] then None else Some (last zs))"
      "recomputed H f = ev_hash f"
    using snoc.prems(1,2) unfolding ys first_break_snoc_None by blast+
  have "recomputed H e = recomputed H f" using links snoc.prems(4) by (simp add: ys)
  then have same: "covered e = covered f"
    using snoc.prems(5,6) by (intro covered_eq [OF H]) (simp_all add: ys)
  have "map ev_hash (take 1 (rev xs)) = map ev_hash (take 1 (rev zs))"
  proof (cases xs rule: rev_cases)
    case Nil
    then show ?thesis using snoc.prems(3) by (simp add: ys)
  next
    case xs: (snoc us u)
    then obtain ws v where "zs = ws @ [v]" using snoc.prems(3) by (cases zs rule: rev_cases) (auto simp: ys)
    with xs links covered_prev [OF same] show ?thesis by simp
  qed
  then have "map covered xs = map covered zs"
    using snoc.prems pre by (intro snoc.IH) (simp_all add: ys)
  with same show ?case by (simp add: ys)
qed simp


text \<open>
  What an editor of the table can do to an event with a location: fold it into the
  metadata, and name another user's address as the actor's.
\<close>

definition blank_location :: "string option \<Rightarrow> audit_event \<Rightarrow> audit_event" where
  "blank_location email e =
     e\<lparr>ev_meta := Some (or_empty (ev_meta e) @ ''|'' @ or_empty (ev_ip e) @ ''|'' @ or_empty (ev_session e)),
       ev_ip := None, ev_session := None, ev_email := email\<rparr>"

lemma blank_recomputed:
  "ev_ip e \<noteq> None \<or> ev_session e \<noteq> None \<Longrightarrow> recomputed H (blank_location m e) = recomputed H e"
  by (simp add: recomputed_def hash_event_def hash_parts_def blank_location_def)

text \<open>
  The location is not protected. Whatever the hash, moving the address and the
  session of any event into its metadata, and replacing the recorded e-mail of the actor,
  leaves the verdict of the verification exactly as it was: the separator is not escaped
  and the e-mail is not hashed.
\<close>

theorem location_edit_undetected:
  assumes "lg = pre @ e # post" and "ev_ip e \<noteq> None \<or> ev_session e \<noteq> None"
  shows "verify_chain H org (pre @ blank_location email e # post) = verify_chain H org lg"
proof -
  define b where "b = (\<lambda>x. if x = e then blank_location email e else x)"
  have fb: "first_break H p ys = first_break H q xs"
    if "list_all2 (\<lambda>x y. y = x \<or> x = e \<and> y = blank_location email e) xs ys"
      "map_option ev_hash p = map_option ev_hash q" for p q xs ys
    using that
  proof (induction xs ys arbitrary: p q rule: list_all2_induct)
    case (Cons x xs y ys)
    have "ev_prev y = ev_prev x \<and> ev_seq y = ev_seq x \<and> ev_hash y = ev_hash x \<and> recomputed H y = recomputed H x"
      using Cons(1) blank_recomputed [OF assms(2)] by (auto simp: blank_location_def)
    with Cons show ?case by simp
  qed simp
  have keep: "ev_org (blank_location email e) = ev_org e" "ev_seq (blank_location email e) = ev_seq e"
    by (simp_all add: blank_location_def)
  let ?R = "\<lambda>x y. y = x \<or> x = e \<and> y = blank_location email e"
  have ins: "list_all2 ?R (insort_key ev_seq x xs) (insort_key ev_seq y ys)"
    if "list_all2 ?R xs ys" "?R x y" for x y xs ys
    using that
  proof (induction xs ys rule: list_all2_induct)
    case (Cons a as b bs)
    have "ev_seq b = ev_seq a" "ev_seq y = ev_seq x" using Cons(1,4) keep by auto
    with Cons show ?case by simp
  qed simp
  have srt: "list_all2 ?R (sort_key ev_seq xs) (sort_key ev_seq ys)" if "list_all2 ?R xs ys" for xs ys
    using that by (induction xs ys rule: list_all2_induct) (simp_all add: ins)
  have "list_all2 ?R (filter (\<lambda>e. ev_org e = org) lg)
      (filter (\<lambda>e. ev_org e = org) (pre @ blank_location email e # post))"
    by (simp add: assms(1) keep list_all2_append list_all2_refl)
  then have "list_all2 ?R (events_of org lg) (events_of org (pre @ blank_location email e # post))"
    unfolding events_of_def by (rule srt)
  then have "length (events_of org (pre @ blank_location email e # post)) = length (events_of org lg)"
    "first_break H None (events_of org (pre @ blank_location email e # post)) = first_break H None (events_of org lg)"
    using fb list_all2_lengthD by fastforce+
  then show ?thesis by (simp add: verify_chain_def Let_def split: option.split)
qed

definition sample_event :: audit_event where
  "sample_event = next_event (\<lambda>s. s) ''org-1'' (Some ''u-1'', Some ''a@x'') ''invoice.approve''
     (Some ''invoice'') (Some ''i-1'') None (Some ''10.0.0.1'', None) 5 []"

lemma sample_event_simps:
  "ev_org sample_event = ''org-1''" "ev_seq sample_event = 1" "ev_prev sample_event = None"
  "ev_ip sample_event = Some ''10.0.0.1''" "ev_meta sample_event = None" "ev_actor sample_event = Some ''u-1''"
  "ev_action sample_event = ''invoice.approve''" "ev_ttype sample_event = Some ''invoice''"
  "ev_tid sample_event = Some ''i-1''" "ev_at sample_event = 5" "ev_session sample_event = None"
  "recomputed (\<lambda>s. s) sample_event = ev_hash sample_event"
  by (simp_all add: sample_event_def next_event_def latest_event_def first_of_def recomputed_def Let_def)

lemma sample_verifies: "cs_ok (verify_chain (\<lambda>s. s) ''org-1'' [sample_event])"
  by (simp add: verify_chain_def events_of_def sample_event_simps)

theorem recorded_trail_verifies_witness:
  "\<exists>r lg. audit_record (\<lambda>s. s) \<lparr>cx_org = None, cx_actor = (None, None), cx_where = (None, None)\<rparr>
      ''invoice.approve'' (Some ''invoice'') (Some ''i-1'') None (Some ''org-1'')
      (Some (Some ''u-1'', Some ''a@x'')) (Some ''10.0.0.1'') None 5 [] = (r, lg) \<and>
    verify_chain (\<lambda>s. s) ''org-1'' lg = \<lparr>cs_ok = True, cs_events = 1, cs_broken_at = None\<rparr>"
proof -
  have r: "audit_record (\<lambda>s. s) \<lparr>cx_org = None, cx_actor = (None, None), cx_where = (None, None)\<rparr>
      ''invoice.approve'' (Some ''invoice'') (Some ''i-1'') None (Some ''org-1'')
      (Some (Some ''u-1'', Some ''a@x'')) (Some ''10.0.0.1'') None 5 [] = (Some sample_event, [sample_event])"
    by (simp add: audit_record_def sample_event_def Let_def)
  have "own_events ''org-1'' [sample_event] = [sample_event]"
    by (simp add: own_events_def sample_event_simps)
  then show ?thesis
    using r recorded_trail_verifies [OF audited.rec [OF audited.start r], of "''org-1''"] by auto
qed


theorem location_edit_undetected_witness:
  "cs_ok (verify_chain (\<lambda>s. s) ''org-1'' [blank_location (Some ''b@x'') sample_event]) \<and>
   ev_ip sample_event = Some ''10.0.0.1'' \<and> ev_ip (blank_location (Some ''b@x'') sample_event) = None"
  using location_edit_undetected [of "[sample_event]" "[]" sample_event "[]" "\<lambda>s. s" "''org-1''" "Some ''b@x''"]
    sample_verifies
  by (simp add: sample_event_simps) (simp add: blank_location_def)

end
