(* ===== verification/Issuer.thy ===== *)
theory Issuer
  imports Fx BankId
begin

text \<open>
  \<open>services/issuer.py\<close>, \<open>models/issuer.py\<close> and the registry handlers of
  \<open>api/routes/issuer.py\<close>: the legal entities a company invoices as. Each owns two number
  series, for invoices and for credit notes. The registry is the list of its rows in
  the order of \<open>created_at\<close>; ids are arguments. The logo is left out.
\<close>

section \<open>Profiles\<close>

datatype issuer_field =
    IF_legal_name | IF_trade_name | IF_vat_number | IF_registration_number | IF_nace_code
  | IF_address_line1 | IF_address_line2 | IF_city | IF_postal_code | IF_country
  | IF_email | IF_phone | IF_iban | IF_bic | IF_payment_instructions | IF_notes

record issuer_profile =
  ip_id :: ident
  ip_name :: string
  ip_default :: bool
  ip_field :: "issuer_field \<Rightarrow> string option"
  ip_currency :: string
  ip_prefix :: string
  ip_next :: nat
  ip_cn_prefix :: string
  ip_next_cn :: nat
  ip_terms :: int
  ip_penalty :: "decimal option"

type_synonym registry = "issuer_profile list"

datatype issuer_error =
    IssuerNotFound | PrefixInUse string | EqualPrefixes | BadBankField bank_error | NullColumn
  | DefaultIssuer | IssuerReferenced

definition REQUIRED_FIELDS :: "issuer_field list" where
  "REQUIRED_FIELDS =
     [IF_legal_name, IF_vat_number, IF_address_line1, IF_city, IF_postal_code, IF_country]"

text \<open>\<open>IssuerProfile(org_id=\<dots>, is_default=\<dots>)\<close> with the column defaults.\<close>

definition new_profile :: "ident \<Rightarrow> bool \<Rightarrow> issuer_profile" where
  "new_profile i dflt =
     \<lparr>ip_id = i, ip_name = [], ip_default = dflt, ip_field = (\<lambda>_. None), ip_currency = ''EUR'',
      ip_prefix = ''INV-'', ip_next = 1, ip_cn_prefix = ''CN-'', ip_next_cn = 1, ip_terms = 14,
      ip_penalty = None\<rparr>"

definition put_profile :: "issuer_profile \<Rightarrow> registry \<Rightarrow> registry" where
  "put_profile p rg = map (\<lambda>x. if ip_id x = ip_id p then p else x) rg"

section \<open>Looking up\<close>

definition list_issuers :: "registry \<Rightarrow> registry" where
  "list_issuers rg = sort_key (\<lambda>p. if ip_default p then 0 else (1 :: nat)) rg"

definition default_first :: "registry \<Rightarrow> issuer_profile option" where
  "default_first rg = first_of (list_issuers rg)"

definition get_or_create :: "ident \<Rightarrow> registry \<Rightarrow> issuer_profile \<times> registry" where
  "get_or_create fresh rg =
     (case default_first rg of
        Some p \<Rightarrow> (p, rg)
      | None \<Rightarrow> (new_profile fresh True, rg @ [new_profile fresh True]))"

definition get_by_id :: "ident \<Rightarrow> registry \<Rightarrow> issuer_profile option" where
  "get_by_id i rg = find (\<lambda>p. ip_id p = i) rg"

definition resolve_issuer ::
  "ident \<Rightarrow> ident option \<Rightarrow> registry \<Rightarrow> issuer_error + issuer_profile \<times> registry" where
  "resolve_issuer fresh issuer_id rg =
     (if truthy issuer_id
      then (case get_by_id (the issuer_id) rg of
              None \<Rightarrow> Inl IssuerNotFound
            | Some p \<Rightarrow> Inr (p, rg))
      else Inr (get_or_create fresh rg))"

text \<open>
  \<open>lock\<close> loads the row for update: the named entity, else the default, else a new one.
\<close>

definition lock_issuer :: "ident \<Rightarrow> ident option \<Rightarrow> registry \<Rightarrow> issuer_profile \<times> registry" where
  "lock_issuer fresh issuer_id rg =
     (case (if truthy issuer_id then get_by_id (the issuer_id) rg else None) of
        Some p \<Rightarrow> (p, rg)
      | None \<Rightarrow> get_or_create fresh rg)"

definition missing_fields :: "issuer_profile option \<Rightarrow> issuer_field list" where
  "missing_fields profile =
     (case profile of
        None \<Rightarrow> REQUIRED_FIELDS
      | Some p \<Rightarrow> filter (\<lambda>f. py_strip (str_or (ip_field p f) []) = []) REQUIRED_FIELDS)"

definition is_complete :: "issuer_profile option \<Rightarrow> bool" where
  "is_complete profile \<longleftrightarrow> missing_fields profile = []"

definition SNAPSHOT_FIELDS :: "issuer_field list" where
  "SNAPSHOT_FIELDS =
     [IF_legal_name, IF_trade_name, IF_vat_number, IF_registration_number, IF_address_line1,
      IF_address_line2, IF_city, IF_postal_code, IF_country, IF_email, IF_phone, IF_iban, IF_bic,
      IF_payment_instructions, IF_notes]"

definition seller_snapshot :: "issuer_profile \<Rightarrow> (issuer_field \<times> string option) list" where
  "seller_snapshot p = map (\<lambda>f. (f, ip_field p f)) SNAPSHOT_FIELDS"

section \<open>Prefixes\<close>

definition prefixes_in_use :: "ident option \<Rightarrow> registry \<Rightarrow> string list" where
  "prefixes_in_use exclude rg =
     concat (map (\<lambda>p. [ip_prefix p, ip_cn_prefix p]) (filter (\<lambda>p. Some (ip_id p) \<noteq> exclude) rg))"

text \<open>The loop that looks for the first free number ends: only finitely many are taken.\<close>

definition numbered_prefix :: "string \<Rightarrow> nat \<Rightarrow> string" where
  "numbered_prefix stem n = stem @ str_nat n @ ''-''"

function free_prefix :: "string \<Rightarrow> string list \<Rightarrow> nat \<Rightarrow> string" where
  "free_prefix stem used n =
     (if numbered_prefix stem n \<in> set used then free_prefix stem used (n + 1)
      else numbered_prefix stem n)"
  by auto

lemma numbered_prefix_inj: "numbered_prefix stem m = numbered_prefix stem n \<longleftrightarrow> m = n"
  by (simp add: numbered_prefix_def str_nat_inj)

lemma finite_numbered: "finite {m. numbered_prefix stem m \<in> set used}"
proof (rule finite_imageD)
  show "finite (numbered_prefix stem ` {m. numbered_prefix stem m \<in> set used})"
    by (rule finite_subset [of _ "set used"]) auto
  show "inj_on (numbered_prefix stem) {m. numbered_prefix stem m \<in> set used}"
    by (simp add: inj_on_def numbered_prefix_inj)
qed

termination free_prefix
proof (relation "measure (\<lambda>(stem, used, n). card {m. n \<le> m \<and> numbered_prefix stem m \<in> set used})")
  fix stem used and n :: nat
  assume taken: "numbered_prefix stem n \<in> set used"
  have "{m. n + 1 \<le> m \<and> numbered_prefix stem m \<in> set used} \<subset> {m. n \<le> m \<and> numbered_prefix stem m \<in> set used}"
  proof (rule psubsetI)
    show "{m. n + 1 \<le> m \<and> numbered_prefix stem m \<in> set used} \<subseteq> {m. n \<le> m \<and> numbered_prefix stem m \<in> set used}"
      by auto
    have "n \<in> {m. n \<le> m \<and> numbered_prefix stem m \<in> set used}" using taken by simp
    moreover have "n \<notin> {m. n + 1 \<le> m \<and> numbered_prefix stem m \<in> set used}" by simp
    ultimately show "{m. n + 1 \<le> m \<and> numbered_prefix stem m \<in> set used} \<noteq> {m. n \<le> m \<and> numbered_prefix stem m \<in> set used}"
      by metis
  qed
  moreover have "finite {m. n \<le> m \<and> numbered_prefix stem m \<in> set used}"
    by (rule finite_subset [OF _ finite_numbered [of stem used]]) auto
  ultimately show "((stem, used, n + 1), (stem, used, n))
      \<in> measure (\<lambda>(stem, used, n). card {m. n \<le> m \<and> numbered_prefix stem m \<in> set used})"
    by (simp add: psubset_card_mono)
qed simp

declare free_prefix.simps [simp del]

text \<open>\<open>base.rstrip("-")\<close>\<close>

definition rstrip_dash :: "string \<Rightarrow> string" where
  "rstrip_dash s = rev (dropWhile (\<lambda>c. c = CHR ''-'') (rev s))"

definition distinct_default_prefix :: "string \<Rightarrow> registry \<Rightarrow> string" where
  "distinct_default_prefix base rg =
     (let used = prefixes_in_use None rg
      in if base \<notin> set used then base else free_prefix (rstrip_dash base) used 2)"

definition assert_prefixes_unique :: "issuer_profile \<Rightarrow> registry \<Rightarrow> issuer_error + unit" where
  "assert_prefixes_unique p rg =
     (let used = prefixes_in_use (Some (ip_id p)) rg
      in if ip_prefix p \<in> set used then Inl (PrefixInUse (ip_prefix p))
         else if ip_cn_prefix p \<in> set used then Inl (PrefixInUse (ip_cn_prefix p))
         else if ip_prefix p = ip_cn_prefix p then Inl EqualPrefixes
         else Inr ())"

section \<open>The registry\<close>

definition create_issuer :: "ident \<Rightarrow> registry \<Rightarrow> issuer_profile \<times> registry" where
  "create_issuer i rg =
     (let p = (if rg = [] then new_profile i True
               else (new_profile i False)
                 \<lparr>ip_prefix := distinct_default_prefix ''INV-'' rg,
                  ip_cn_prefix := distinct_default_prefix ''CN-'' rg\<rparr>)
      in (p, rg @ [p]))"

definition set_default :: "ident \<Rightarrow> registry \<Rightarrow> issuer_error + registry" where
  "set_default i rg =
     (case get_by_id i rg of
        None \<Rightarrow> Inl IssuerNotFound
      | Some _ \<Rightarrow> Inr (map (\<lambda>p. p\<lparr>ip_default := (ip_id p = i)\<rparr>) rg))"

text \<open>
  A field of the request that is set: its new value. \<open>None\<close> for a column that may not be
  NULL is refused by the database, once all the fields have been applied.
\<close>

datatype issuer_change =
    SetField issuer_field "string option"
  | SetName "string option" | SetCurrency "string option" | SetPrefix "string option"
  | SetCnPrefix "string option" | SetTerms "int option" | SetPenalty "decimal option"

definition upper_some :: "string option \<Rightarrow> string option" where
  "upper_some v = (if truthy v then map_option py_upper v else v)"

definition apply_change :: "issuer_profile \<Rightarrow> issuer_change \<Rightarrow> issuer_error + issuer_profile" where
  "apply_change p c =
     (case c of
        SetField f v \<Rightarrow>
          if f \<in> {IF_country, IF_nace_code} then Inr (p\<lparr>ip_field := (ip_field p)(f := upper_some v)\<rparr>)
          else if f = IF_iban \<and> truthy v
          then (case assert_iban (the v) of
                  Inl e \<Rightarrow> Inl (BadBankField e)
                | Inr w \<Rightarrow> Inr (p\<lparr>ip_field := (ip_field p)(f := Some w)\<rparr>))
          else if f = IF_bic \<and> truthy v
          then (case assert_bic (the v) of
                  Inl e \<Rightarrow> Inl (BadBankField e)
                | Inr w \<Rightarrow> Inr (p\<lparr>ip_field := (ip_field p)(f := Some w)\<rparr>))
          else Inr (p\<lparr>ip_field := (ip_field p)(f := v)\<rparr>)
      | SetName v \<Rightarrow> (case v of None \<Rightarrow> Inr p | Some w \<Rightarrow> Inr (p\<lparr>ip_name := w\<rparr>))
      | SetCurrency v \<Rightarrow>
          (case v of None \<Rightarrow> Inr p | Some w \<Rightarrow> Inr (p\<lparr>ip_currency := py_upper w\<rparr>))
      | SetPrefix v \<Rightarrow> (case v of None \<Rightarrow> Inr p | Some w \<Rightarrow> Inr (p\<lparr>ip_prefix := w\<rparr>))
      | SetCnPrefix v \<Rightarrow> (case v of None \<Rightarrow> Inr p | Some w \<Rightarrow> Inr (p\<lparr>ip_cn_prefix := w\<rparr>))
      | SetTerms v \<Rightarrow> (case v of None \<Rightarrow> Inr p | Some w \<Rightarrow> Inr (p\<lparr>ip_terms := w\<rparr>))
      | SetPenalty v \<Rightarrow> Inr (p\<lparr>ip_penalty := map_option q2 v\<rparr>))"

fun apply_changes :: "issuer_change list \<Rightarrow> issuer_profile \<Rightarrow> issuer_error + issuer_profile" where
  "apply_changes [] p = Inr p"
| "apply_changes (c # cs) p =
     (case apply_change p c of Inl e \<Rightarrow> Inl e | Inr p' \<Rightarrow> apply_changes cs p')"

definition nulls_column :: "issuer_change \<Rightarrow> bool" where
  "nulls_column c \<longleftrightarrow>
     c \<in> {SetName None, SetCurrency None, SetPrefix None, SetCnPrefix None, SetTerms None}"

text \<open>The tail every saving handler shares: apply, refuse a clash of prefixes, commit.\<close>

definition save_profile :: "issuer_change list \<Rightarrow> issuer_profile \<Rightarrow> registry \<Rightarrow> issuer_error + registry" where
  "save_profile body p rg =
     (case apply_changes body p of
        Inl e \<Rightarrow> Inl e
      | Inr p' \<Rightarrow>
          if list_ex nulls_column body then Inl NullColumn
          else (case assert_prefixes_unique p' (put_profile p' rg) of
             Inl e \<Rightarrow> Inl e
           | Inr _ \<Rightarrow> Inr (put_profile p' rg)))"

text \<open>
  \<open>get_or_create\<close> commits a profile it creates, so the handlers that call it first keep
  that row when they refuse.
\<close>

definition committed :: "registry \<Rightarrow> issuer_error + registry \<Rightarrow> issuer_error option \<times> registry" where
  "committed rg r = (case r of Inl e \<Rightarrow> (Some e, rg) | Inr rg' \<Rightarrow> (None, rg'))"

definition update_issuer :: "ident \<Rightarrow> issuer_change list \<Rightarrow> registry \<Rightarrow> issuer_error option \<times> registry" where
  "update_issuer fresh body rg =
     (let (p, rg1) = get_or_create fresh rg in committed rg1 (save_profile body p rg1))"

definition create_registry_issuer ::
  "ident \<Rightarrow> ident \<Rightarrow> issuer_change list \<Rightarrow> registry \<Rightarrow> issuer_error option \<times> registry" where
  "create_registry_issuer fresh i body rg =
     (let rg1 = snd (get_or_create fresh rg);
          (p, rg2) = create_issuer i rg1
      in committed rg1 (save_profile body p rg2))"

definition update_registry_issuer ::
  "ident \<Rightarrow> issuer_change list \<Rightarrow> registry \<Rightarrow> issuer_error option \<times> registry" where
  "update_registry_issuer i body rg =
     (case get_by_id i rg of
        None \<Rightarrow> (Some IssuerNotFound, rg)
      | Some p \<Rightarrow> committed rg (save_profile body p rg))"

definition set_registry_default :: "ident \<Rightarrow> registry \<Rightarrow> issuer_error option \<times> registry" where
  "set_registry_default i rg = committed rg (set_default i rg)"

text \<open>\<open>refs\<close> are the issuer ids of the issued invoices.\<close>

definition delete_registry_issuer ::
  "ident \<Rightarrow> ident option list \<Rightarrow> registry \<Rightarrow> issuer_error option \<times> registry" where
  "delete_registry_issuer i refs rg =
     (case get_by_id i rg of
        None \<Rightarrow> (Some IssuerNotFound, rg)
      | Some p \<Rightarrow>
          if ip_default p then (Some DefaultIssuer, rg)
          else if Some i \<in> set refs then (Some IssuerReferenced, rg)
          else (None, filter (\<lambda>x. ip_id x \<noteq> i) rg))"

section \<open>What a registry satisfies\<close>

definition own_prefixes :: "issuer_profile \<Rightarrow> string set" where
  "own_prefixes p = {ip_prefix p, ip_cn_prefix p}"

definition prefixes_apart :: "registry \<Rightarrow> bool" where
  "prefixes_apart rg \<longleftrightarrow>
     (\<forall>p \<in> set rg. ip_prefix p \<noteq> ip_cn_prefix p \<and>
        (\<forall>p' \<in> set rg. ip_id p' \<noteq> ip_id p \<longrightarrow> own_prefixes p \<inter> own_prefixes p' = {}))"

definition one_default :: "registry \<Rightarrow> bool" where
  "one_default rg \<longleftrightarrow> rg = [] \<or> length (filter ip_default rg) = 1"

definition registry_ok :: "registry \<Rightarrow> bool" where
  "registry_ok rg \<longleftrightarrow> distinct (map ip_id rg) \<and> prefixes_apart rg \<and> one_default rg \<and>
     (\<forall>p \<in> set rg. 0 < ip_next p \<and> 0 < ip_next_cn p)"

lemma registry_okD:
  assumes "registry_ok rg"
  shows "distinct (map ip_id rg)" "prefixes_apart rg" "one_default rg"
    "p \<in> set rg \<Longrightarrow> 0 < ip_next p" "p \<in> set rg \<Longrightarrow> 0 < ip_next_cn p"
  using assms by (auto simp: registry_ok_def)

lemma list_issuers_set [simp]: "set (list_issuers rg) = set rg"
  by (simp add: list_issuers_def)

lemma default_first_mem: "default_first rg = Some p \<Longrightarrow> p \<in> set rg"
  using first_of_set [of "list_issuers rg" p] by (simp add: default_first_def)

lemma default_first_None [simp]: "default_first rg = None \<longleftrightarrow> rg = []"
  by (simp add: default_first_def list_issuers_def)
     (metis length_0_conv length_sort)

lemma default_first_flagged:
  assumes "one_default rg" "default_first rg = Some p"
  shows "ip_default p"
proof -
  let ?f = "\<lambda>p. if ip_default p then 0 else (1 :: nat)"
  have "rg \<noteq> []" using assms(2) default_first_None [of rg] by (metis option.distinct(1))
  then have "filter ip_default rg \<noteq> []" using assms(1) by (auto simp: one_default_def)
  then obtain d where d: "d \<in> set rg" "ip_default d" by (auto simp: filter_empty_conv)
  obtain ps where ps: "list_issuers rg = p # ps"
    using assms(2) by (cases "list_issuers rg") (auto simp: default_first_def first_of_def)
  have "sorted (map ?f (list_issuers rg))" by (simp add: list_issuers_def)
  then have "\<forall>x \<in> set ps. ?f p \<le> ?f x" by (simp add: ps)
  moreover have "d = p \<or> d \<in> set ps" using d(1) by (metis list_issuers_set ps set_ConsD)
  ultimately show ?thesis using d(2) by (cases "ip_default p") auto
qed

lemma get_by_id_mem: "get_by_id i rg = Some p \<Longrightarrow> p \<in> set rg \<and> ip_id p = i"
  unfolding get_by_id_def by (rule find_mem)

lemma new_profile_simps [simp]:
  "ip_id (new_profile i b) = i" "ip_default (new_profile i b) = b" "ip_prefix (new_profile i b) = ''INV-''"
  "ip_cn_prefix (new_profile i b) = ''CN-''" "ip_next (new_profile i b) = 1"
  "ip_next_cn (new_profile i b) = 1"
  by (simp_all add: new_profile_def)

lemma get_or_create_cases:
  assumes "get_or_create fresh rg = (p, rg')"
  shows "(rg = [] \<and> p = new_profile fresh True \<and> rg' = [p]) \<or> (rg \<noteq> [] \<and> rg' = rg \<and> p \<in> set rg)"
proof (cases "default_first rg")
  case None
  with assms show ?thesis by (auto simp: get_or_create_def)
next
  case (Some d)
  with assms have "p = d" "rg' = rg" by (auto simp: get_or_create_def)
  moreover have "rg \<noteq> []" using Some default_first_None [of rg] by (metis option.distinct(1))
  ultimately show ?thesis using Some default_first_mem by blast
qed

lemma get_or_create_ok:
  assumes "registry_ok rg" "get_or_create fresh rg = (p, rg')"
  shows "registry_ok rg'" "p \<in> set rg'"
  using get_or_create_cases [OF assms(2)] assms(1)
  by (auto simp: registry_ok_def prefixes_apart_def one_default_def)

text \<open>Replacing a row by one of the same id.\<close>

lemma put_profile_ids [simp]: "map ip_id (put_profile p rg) = map ip_id rg"
  by (induction rg) (auto simp: put_profile_def)

lemma put_profile_mem:
  "x \<in> set (put_profile p rg) \<Longrightarrow> x = p \<or> (x \<in> set rg \<and> ip_id x \<noteq> ip_id p)"
  by (auto simp: put_profile_def split: if_splits)

lemma put_profile_in: "ip_id x = ip_id p \<Longrightarrow> x \<in> set rg \<Longrightarrow> p \<in> set (put_profile p rg)"
  by (force simp: put_profile_def)

lemma put_profile_others: "x \<in> set rg \<Longrightarrow> ip_id x \<noteq> ip_id p \<Longrightarrow> x \<in> set (put_profile p rg)"
  by (force simp: put_profile_def)

lemma put_profile_empty [simp]: "put_profile p rg = [] \<longleftrightarrow> rg = []"
  by (simp add: put_profile_def)

lemma put_profile_defaults:
  assumes "distinct (map ip_id rg)" "x \<in> set rg" "ip_id p = ip_id x" "ip_default p = ip_default x"
  shows "length (filter ip_default (put_profile p rg)) = length (filter ip_default rg)"
proof -
  have "ip_default (if ip_id y = ip_id p then p else y) = ip_default y" if "y \<in> set rg" for y
    using assms that find_key_unique [OF assms(1) that] find_key_unique [OF assms(1,2)]
    by (cases "ip_id y = ip_id p") (metis option.inject)+
  then show ?thesis
    by (simp add: put_profile_def filter_map comp_def cong: filter_cong)
qed

lemma put_profile_ok:
  assumes ok: "registry_ok rg" and x: "x \<in> set rg" "ip_id p = ip_id x" "ip_default p = ip_default x"
    and pos: "0 < ip_next p" "0 < ip_next_cn p" and ne: "ip_prefix p \<noteq> ip_cn_prefix p"
    and apart: "\<And>y. y \<in> set rg \<Longrightarrow> ip_id y \<noteq> ip_id p \<Longrightarrow> own_prefixes p \<inter> own_prefixes y = {}"
  shows "registry_ok (put_profile p rg)"
proof -
  note d = registry_okD [OF ok]
  have "prefixes_apart (put_profile p rg)"
    unfolding prefixes_apart_def
  proof (intro ballI conjI impI)
    fix a b assume a: "a \<in> set (put_profile p rg)"
    show "ip_prefix a \<noteq> ip_cn_prefix a"
      using put_profile_mem [OF a] ne d(2) by (auto simp: prefixes_apart_def)
    assume b: "b \<in> set (put_profile p rg)" and ab: "ip_id b \<noteq> ip_id a"
    show "own_prefixes a \<inter> own_prefixes b = {}"
      using put_profile_mem [OF a] put_profile_mem [OF b] ab apart d(2)
      unfolding prefixes_apart_def by (metis Int_commute)
  qed
  moreover have "one_default (put_profile p rg)"
    using d(3) put_profile_defaults [OF d(1) x] by (simp add: one_default_def)
  moreover have "0 < ip_next a \<and> 0 < ip_next_cn a" if "a \<in> set (put_profile p rg)" for a
    using put_profile_mem [OF that] pos d(4,5) by auto
  ultimately show ?thesis using d(1) by (simp add: registry_ok_def)
qed

text \<open>What a save checks is what the registry needs.\<close>

lemma prefixes_in_use_set:
  "set (prefixes_in_use ex rg) = (\<Union>p \<in> {p \<in> set rg. Some (ip_id p) \<noteq> ex}. own_prefixes p)"
  by (auto simp: prefixes_in_use_def own_prefixes_def)

lemma assert_prefixes_iff:
  "assert_prefixes_unique p rg = Inr () \<longleftrightarrow> ip_prefix p \<noteq> ip_cn_prefix p \<and>
     (\<forall>x \<in> set rg. ip_id x \<noteq> ip_id p \<longrightarrow> own_prefixes p \<inter> own_prefixes x = {})"
  by (auto simp: assert_prefixes_unique_def Let_def prefixes_in_use_set own_prefixes_def)

lemma apply_change_keeps:
  "apply_change p c = Inr p' \<Longrightarrow> ip_id p' = ip_id p \<and> ip_default p' = ip_default p \<and>
     ip_next p' = ip_next p \<and> ip_next_cn p' = ip_next_cn p"
  by (auto simp: apply_change_def Let_def split: issuer_change.splits if_splits option.splits sum.splits)

lemma apply_changes_keeps:
  "apply_changes cs p = Inr p' \<Longrightarrow> ip_id p' = ip_id p \<and> ip_default p' = ip_default p \<and>
     ip_next p' = ip_next p \<and> ip_next_cn p' = ip_next_cn p"
  by (induction cs arbitrary: p) (auto split: sum.splits dest!: apply_change_keeps)

lemma save_profile_inv:
  assumes "save_profile body p rg = Inr rg'"
  obtains p' where "apply_changes body p = Inr p'" "rg' = put_profile p' rg"
    "assert_prefixes_unique p' (put_profile p' rg) = Inr ()"
  using assms by (auto simp: save_profile_def split: sum.splits if_splits)

lemma save_profile_ok:
  assumes ok: "registry_ok rg" and p: "p \<in> set rg" and s: "save_profile body p rg = Inr rg'"
  shows "registry_ok rg'"
proof -
  obtain p' where p': "apply_changes body p = Inr p'" "rg' = put_profile p' rg"
    "assert_prefixes_unique p' (put_profile p' rg) = Inr ()" by (rule save_profile_inv [OF s])
  note k = apply_changes_keeps [OF p'(1)]
  note u = p'(3) [unfolded assert_prefixes_iff]
  show ?thesis
    unfolding p'(2)
  proof (rule put_profile_ok [OF ok p])
    show "ip_id p' = ip_id p" "ip_default p' = ip_default p" "ip_prefix p' \<noteq> ip_cn_prefix p'"
      using k u by simp_all
    show "0 < ip_next p'" "0 < ip_next_cn p'" using k registry_okD(4,5) [OF ok p] by simp_all
    show "own_prefixes p' \<inter> own_prefixes y = {}" if "y \<in> set rg" "ip_id y \<noteq> ip_id p'" for y
      using u put_profile_others [OF that] that by blast
  qed
qed

lemma free_prefix_fresh: "\<exists>m. free_prefix stem used n = numbered_prefix stem m \<and> numbered_prefix stem m \<notin> set used"
proof (induction stem used n rule: free_prefix.induct)
  case (1 stem used n)
  then show ?case
    by (cases "numbered_prefix stem n \<in> set used") (auto simp: free_prefix.simps [of stem used n])
qed

lemma distinct_default_fresh: "distinct_default_prefix base rg \<notin> set (prefixes_in_use None rg)"
  using free_prefix_fresh [of "rstrip_dash base" "prefixes_in_use None rg" 2]
  by (auto simp: distinct_default_prefix_def Let_def)

lemma distinct_default_head:
  assumes "base = c # cs" "c \<noteq> CHR ''-''" "rstrip_dash base = c # ds"
  shows "\<exists>xs. distinct_default_prefix base rg = c # xs"
  using free_prefix_fresh [of "rstrip_dash base" "prefixes_in_use None rg" 2] assms
  by (auto simp: distinct_default_prefix_def Let_def numbered_prefix_def)

lemma default_prefixes_differ: "distinct_default_prefix ''INV-'' rg \<noteq> distinct_default_prefix ''CN-'' rg"
proof -
  obtain xs where "distinct_default_prefix ''INV-'' rg = CHR ''I'' # xs"
    using distinct_default_head [of "''INV-''" "CHR ''I''" "''NV-''" "''NV''" rg] by (auto simp: rstrip_dash_def)
  moreover obtain ys where "distinct_default_prefix ''CN-'' rg = CHR ''C'' # ys"
    using distinct_default_head [of "''CN-''" "CHR ''C''" "''N-''" "''N''" rg] by (auto simp: rstrip_dash_def)
  ultimately show ?thesis by simp
qed

lemma registry_ok_snoc:
  assumes ok: "registry_ok rg" and fresh: "ip_id p \<notin> ip_id ` set rg"
    and pos: "0 < ip_next p" "0 < ip_next_cn p" and ne: "ip_prefix p \<noteq> ip_cn_prefix p"
    and apart: "own_prefixes p \<inter> set (prefixes_in_use None rg) = {}" and d: "ip_default p \<longleftrightarrow> rg = []"
  shows "registry_ok (rg @ [p])"
proof -
  have "own_prefixes p \<inter> own_prefixes x = {}" if "x \<in> set rg" for x
    using apart that by (auto simp: prefixes_in_use_set)
  then have "prefixes_apart (rg @ [p])"
    using registry_okD(2) [OF ok] ne unfolding prefixes_apart_def by (auto simp: Int_commute)
  moreover have "one_default (rg @ [p])"
    using registry_okD(3) [OF ok] d by (cases "rg = []") (auto simp: one_default_def)
  ultimately show ?thesis using ok fresh pos by (auto simp: registry_ok_def)
qed

lemma create_issuer_ok:
  assumes ok: "registry_ok rg" and fresh: "i \<notin> ip_id ` set rg" and c: "create_issuer i rg = (p, rg')"
  shows "registry_ok rg'" "p \<in> set rg'"
proof -
  have rg': "rg' = rg @ [p]" using c by (auto simp: create_issuer_def Let_def)
  then show "p \<in> set rg'" by simp
  show "registry_ok rg'"
  proof (cases "rg = []")
    case True
    with c have "p = new_profile i True" by (simp add: create_issuer_def Let_def)
    with True show ?thesis unfolding rg' using ok fresh
      by (intro registry_ok_snoc) (auto simp: prefixes_in_use_def)
  next
    case False
    with c have p: "p = (new_profile i False)\<lparr>ip_prefix := distinct_default_prefix ''INV-'' rg,
        ip_cn_prefix := distinct_default_prefix ''CN-'' rg\<rparr>"
      by (auto simp: create_issuer_def Let_def)
    show ?thesis
      unfolding rg'
    proof (rule registry_ok_snoc [OF ok])
      show "own_prefixes p \<inter> set (prefixes_in_use None rg) = {}"
        by (simp add: p own_prefixes_def distinct_default_fresh)
      show "ip_prefix p \<noteq> ip_cn_prefix p" by (simp add: p default_prefixes_differ)
      show "0 < ip_next p" "0 < ip_next_cn p" "ip_default p = (rg = [])" "ip_id p \<notin> ip_id ` set rg"
        using False fresh by (simp_all add: p)
    qed
  qed
qed

lemma set_default_ok:
  assumes ok: "registry_ok rg" and s: "set_default i rg = Inr rg'"
  shows "registry_ok rg'"
proof -
  let ?f = "\<lambda>p. p\<lparr>ip_default := (ip_id p = i)\<rparr>"
  obtain p where p: "p \<in> set rg" "ip_id p = i" and rg': "rg' = map ?f rg"
    using s get_by_id_mem by (auto simp: set_default_def split: option.splits)
  have "filter ip_default rg' = map ?f (filter (\<lambda>x. ip_id x = ip_id p) rg)"
    by (simp add: rg' filter_map comp_def p)
  then have "one_default rg'"
    using filter_key_unique [OF registry_okD(1) [OF ok] p(1)] by (simp add: one_default_def)
  moreover have "prefixes_apart rg'"
    using registry_okD(2) [OF ok] by (auto simp: prefixes_apart_def own_prefixes_def rg')
  ultimately show ?thesis
    using registry_okD(1,4,5) [OF ok] by (auto simp: registry_ok_def rg' comp_def)
qed

lemma delete_ok:
  assumes ok: "registry_ok rg" and d: "delete_registry_issuer i refs rg = (e, rg')"
  shows "registry_ok rg'"
proof (cases "rg' = rg")
  case False
  then obtain p where p: "get_by_id i rg = Some p" "\<not> ip_default p" and rg': "rg' = filter (\<lambda>x. ip_id x \<noteq> i) rg"
    using d by (auto simp: delete_registry_issuer_def split: option.splits if_splits)
  have "p = x" if "x \<in> set rg" "ip_id x = i" for x
    using find_key_unique [OF registry_okD(1) [OF ok] that(1)] p(1) that(2) by (simp add: get_by_id_def)
  then have "filter ip_default rg' = filter ip_default rg"
    using p(2) unfolding rg' filter_filter by (intro filter_cong) auto
  then have "one_default rg'"
    using registry_okD(3) [OF ok] by (auto simp: one_default_def rg')
  moreover have "prefixes_apart rg'"
    using registry_okD(2) [OF ok] by (auto simp: prefixes_apart_def rg')
  moreover have "distinct (map ip_id rg')"
    using registry_okD(1) [OF ok] by (simp add: rg' distinct_map inj_on_def)
  ultimately show ?thesis using registry_okD(4,5) [OF ok] by (auto simp: registry_ok_def rg')
qed (use ok in simp)

lemma committed_ok:
  assumes "registry_ok rg" "\<And>rg'. r = Inr rg' \<Longrightarrow> registry_ok rg'"
  shows "registry_ok (snd (committed rg r))"
  using assms by (auto simp: committed_def split: sum.splits)

section \<open>The registry over time\<close>

text \<open>Every request of the registry, with unused ids; an allocation moves one counter.\<close>

inductive registered :: "registry \<Rightarrow> bool" where
  r_none: "registered []"
| r_get: "registered rg \<Longrightarrow> registered (snd (get_or_create fresh rg))"
| r_update: "registered rg \<Longrightarrow> registered (snd (update_issuer fresh body rg))"
| r_create: "registered rg \<Longrightarrow> i \<notin> insert fresh (ip_id ` set rg) \<Longrightarrow>
    registered (snd (create_registry_issuer fresh i body rg))"
| r_edit: "registered rg \<Longrightarrow> registered (snd (update_registry_issuer i body rg))"
| r_default: "registered rg \<Longrightarrow> registered (snd (set_registry_default i rg))"
| r_delete: "registered rg \<Longrightarrow> registered (snd (delete_registry_issuer i refs rg))"
| r_number: "registered rg \<Longrightarrow> p \<in> set rg \<Longrightarrow> registered (put_profile (p\<lparr>ip_next := ip_next p + 1\<rparr>) rg)"
| r_cn_number: "registered rg \<Longrightarrow> p \<in> set rg \<Longrightarrow> registered (put_profile (p\<lparr>ip_next_cn := ip_next_cn p + 1\<rparr>) rg)"

lemma bump_ok:
  assumes "registry_ok rg" "p \<in> set rg"
    and "p' = p\<lparr>ip_next := ip_next p + 1\<rparr> \<or> p' = p\<lparr>ip_next_cn := ip_next_cn p + 1\<rparr>"
  shows "registry_ok (put_profile p' rg)"
proof (rule put_profile_ok [OF assms(1,2)])
  show "ip_id p' = ip_id p" "ip_default p' = ip_default p" using assms(3) by auto
  show "ip_prefix p' \<noteq> ip_cn_prefix p'"
    using registry_okD(2) [OF assms(1)] assms(2,3) by (auto simp: prefixes_apart_def)
  show "0 < ip_next p'" "0 < ip_next_cn p'" using registry_okD(4,5) [OF assms(1,2)] assms(3) by auto
  show "own_prefixes p' \<inter> own_prefixes y = {}" if "y \<in> set rg" "ip_id y \<noteq> ip_id p'" for y
    using registry_okD(2) [OF assms(1)] assms(2,3) that by (auto simp: prefixes_apart_def own_prefixes_def)
qed

lemma registered_ok: "registered rg \<Longrightarrow> registry_ok rg"
proof (induction rule: registered.induct)
  case r_none
  then show ?case by (simp add: registry_ok_def prefixes_apart_def one_default_def)
next
  case (r_get rg fresh)
  then show ?case using get_or_create_ok(1) [OF r_get(2)] by (cases "get_or_create fresh rg") simp
next
  case (r_update rg fresh body)
  obtain p rg1 where g: "get_or_create fresh rg = (p, rg1)" by force
  show ?case
    using get_or_create_ok [OF r_update(2) g] save_profile_ok [of rg1 p body]
    by (simp add: update_issuer_def g committed_ok)
next
  case (r_create rg i fresh body)
  obtain p rg1 where g: "get_or_create fresh rg = (p, rg1)" by force
  obtain p' rg2 where c: "create_issuer i rg1 = (p', rg2)" by force
  have ok1: "registry_ok rg1" by (rule get_or_create_ok [OF r_create(3) g])
  have "i \<notin> ip_id ` set rg1" using get_or_create_cases [OF g] r_create(2) by auto
  from create_issuer_ok [OF ok1 this c] have "registry_ok rg2" "p' \<in> set rg2" .
  then show ?case
    using ok1 save_profile_ok [of rg2 p' body]
    by (simp add: create_registry_issuer_def g c committed_ok)
next
  case (r_edit rg i body)
  show ?case
    using r_edit(2) get_by_id_mem [of i rg] save_profile_ok [OF r_edit(2)]
    by (auto simp: update_registry_issuer_def split: option.split intro!: committed_ok)
next
  case (r_default rg i)
  then show ?case using set_default_ok [OF r_default(2)] by (auto simp: set_registry_default_def intro!: committed_ok)
next
  case (r_delete rg i refs)
  then show ?case using delete_ok [OF r_delete(2)] by (cases "delete_registry_issuer i refs rg") simp
qed (auto intro: bump_ok)

lemma prefixes_distinct:
  assumes "distinct (map ip_id rg)" "prefixes_apart rg"
  shows "distinct (prefixes_in_use None rg)"
  using assms
proof (induction rg)
  case (Cons p rg)
  have "own_prefixes p \<inter> own_prefixes x = {}" if "x \<in> set rg" for x
    using Cons.prems that by (auto simp: prefixes_apart_def)
  then have "own_prefixes p \<inter> set (prefixes_in_use None rg) = {}"
    by (auto simp: prefixes_in_use_set)
  moreover have "distinct (prefixes_in_use None rg)"
    using Cons by (simp add: prefixes_apart_def)
  ultimately show ?case
    using Cons.prems by (auto simp: prefixes_in_use_def own_prefixes_def prefixes_apart_def)
qed (simp add: prefixes_in_use_def)

lemma one_default_unique:
  assumes "one_default rg" "default_first rg = Some p"
  shows "filter ip_default rg = [p]"
proof -
  have "rg \<noteq> []" using assms(2) default_first_None [of rg] by (metis option.distinct(1))
  then obtain d where "filter ip_default rg = [d]"
    using assms(1) by (auto simp: one_default_def length_Suc_conv)
  moreover have "p \<in> set (filter ip_default rg)"
    using default_first_mem [OF assms(2)] default_first_flagged [OF assms] by simp
  ultimately show ?thesis by simp
qed

text \<open>
  C21: the registry stays sound. Whatever sequence of requests built it, a non-empty
  registry has exactly one default entity, the one every unnamed request gets; ids are
  unique; and no two of the prefixes in it are equal, so no two series can produce the
  same number in a year. A new entity that names no prefixes gets free ones.
\<close>

theorem registry_sound:
  assumes "registered rg" "rg \<noteq> []"
  shows "(\<exists>p. filter ip_default rg = [p] \<and> get_or_create fresh rg = (p, rg) \<and>
      (\<forall>f. resolve_issuer f None rg = Inr (p, rg) \<and> lock_issuer f None rg = (p, rg))) \<and>
    distinct (map ip_id rg) \<and> distinct (prefixes_in_use None rg) \<and>
    (\<forall>i. assert_prefixes_unique (fst (create_issuer i rg)) rg = Inr ())"
proof -
  have ok: "registry_ok rg" by (rule registered_ok [OF assms(1)])
  obtain p where p: "default_first rg = Some p" using assms(2) by (metis default_first_None option.exhaust)
  have g: "get_or_create f rg = (p, rg)" for f by (simp add: get_or_create_def p)
  moreover have "resolve_issuer f None rg = Inr (p, rg)" "lock_issuer f None rg = (p, rg)" for f
    by (simp_all add: resolve_issuer_def lock_issuer_def g)
  moreover have "filter ip_default rg = [p]" by (rule one_default_unique [OF registry_okD(3) [OF ok] p])
  moreover have "assert_prefixes_unique (fst (create_issuer i rg)) rg = Inr ()" for i
    using distinct_default_fresh [of "''INV-''" rg] distinct_default_fresh [of "''CN-''" rg]
      default_prefixes_differ [of rg] assms(2)
    by (auto simp: assert_prefixes_iff create_issuer_def Let_def own_prefixes_def prefixes_in_use_set)
  ultimately show ?thesis
    using registry_okD(1,2) [OF ok] prefixes_distinct by blast
qed

theorem registry_sound_witness:
  "\<exists>rg p. filter ip_default rg = [p] \<and> length rg = 2 \<and> distinct (prefixes_in_use None rg)"
proof -
  let ?rg = "snd (create_registry_issuer ''i-1'' ''i-2'' [] [])"
  have r: "registered ?rg" by (rule r_create) (auto intro: r_none)
  have l: "length ?rg = 2" by code_simp
  then have "?rg \<noteq> []" by auto
  from registry_sound [OF r this] l show ?thesis by blast
qed

end
