(* ===== verification/Partners.thy ===== *)
theory Partners
  imports Money
begin

text \<open>
  \<open>services/partners.py\<close> (all but penalty invoicing) and \<open>models/partner.py\<close>: the
  counterparties of issued invoices and the documents they must have signed before an
  invoice may be issued to them. An audit entry is its action, its target and the texts of
  its metadata. The rows of a table are in the order of \<open>created_at\<close>.
\<close>

section \<open>State\<close>

datatype partner_field = PF_email | PF_vat_number | PF_address_line1 | PF_city | PF_postal_code | PF_country

record partner =
  pt_id :: ident
  pt_name :: string
  pt_field :: "partner_field \<Rightarrow> string option"
  pt_requires_contract :: bool
  pt_requires_acceptance :: bool
  pt_penalty_enabled :: bool
  pt_penalty_rate :: "decimal option"
  pt_active :: bool

record partner_document =
  pd_id :: ident
  pd_partner :: ident
  pd_kind :: string
  pd_title :: string
  pd_reference :: "string option"
  pd_note :: "string option"
  pd_status :: string
  pd_signed_by :: "string option"
  pd_signed_date :: "date option"

type_synonym audit_entry = "string \<times> ident \<times> string list"

record partner_books =
  pb_partners :: "partner list"
  pb_documents :: "partner_document list"
  pb_trail :: "audit_entry list"

datatype partner_error = PartnerNotFound | DocumentNotFound | PartnerNull

definition CONTRACT :: string where "CONTRACT = ''contract''"
definition ACCEPTANCE :: string where "ACCEPTANCE = ''acceptance_act''"

section \<open>The gate\<close>

definition required_kinds :: "partner \<Rightarrow> string list" where
  "required_kinds p =
     (if pt_requires_contract p then [CONTRACT] else []) @
     (if pt_requires_acceptance p then [ACCEPTANCE] else [])"

definition documents_of :: "ident \<Rightarrow> partner_books \<Rightarrow> partner_document list" where
  "documents_of i pb = filter (\<lambda>d. pd_partner d = i) (pb_documents pb)"

definition signed_kinds :: "partner_books \<Rightarrow> partner \<Rightarrow> string list" where
  "signed_kinds pb p = map pd_kind (filter (\<lambda>d. pd_status d = ''signed'') (documents_of (pt_id p) pb))"

definition has_signed_contract :: "partner_books \<Rightarrow> partner \<Rightarrow> bool" where
  "has_signed_contract pb p \<longleftrightarrow> CONTRACT \<in> set (signed_kinds pb p)"

definition missing_signed :: "partner_books \<Rightarrow> partner \<Rightarrow> string list" where
  "missing_signed pb p = filter (\<lambda>k. k \<notin> set (signed_kinds pb p)) (required_kinds p)"

definition is_ready :: "partner_books \<Rightarrow> partner \<Rightarrow> bool" where
  "is_ready pb p \<longleftrightarrow> missing_signed pb p = []"

record readiness_report =
  rd_ready :: bool
  rd_required :: "string list"
  rd_signed :: "string list"
  rd_missing :: "string list"

definition readiness :: "partner_books \<Rightarrow> partner \<Rightarrow> readiness_report" where
  "readiness pb p =
     \<lparr>rd_ready = is_ready pb p, rd_required = required_kinds p,
      rd_signed = filter (\<lambda>k. k \<in> set (signed_kinds pb p)) (required_kinds p),
      rd_missing = missing_signed pb p\<rparr>"

definition get_partner :: "ident \<Rightarrow> partner_books \<Rightarrow> partner option" where
  "get_partner i pb = find (\<lambda>p. pt_id p = i) (pb_partners pb)"

section \<open>Writing\<close>

definition audit_pb :: "string \<Rightarrow> ident \<Rightarrow> string list \<Rightarrow> partner_books \<Rightarrow> partner_books" where
  "audit_pb action target vals pb = pb\<lparr>pb_trail := pb_trail pb @ [(action, target, vals)]\<rparr>"

definition create_partner :: "partner \<Rightarrow> partner_books \<Rightarrow> partner_books" where
  "create_partner body pb =
     (let p = body\<lparr>pt_field := (pt_field body)(PF_country := map_option py_upper (pt_field body PF_country)),
                   pt_penalty_rate := map_option q2 (pt_penalty_rate body)\<rparr>
      in audit_pb ''partner.create'' (pt_id p) [pt_name p] (pb\<lparr>pb_partners := pb_partners pb @ [p]\<rparr>))"

text \<open>A field of the request that is set, with the value it sets.\<close>

datatype partner_change =
    PcName "string option" | PcField partner_field "string option"
  | PcRequiresContract "bool option" | PcRequiresAcceptance "bool option"
  | PcPenaltyEnabled "bool option" | PcPenaltyRate "decimal option" | PcActive "bool option"

definition field_name :: "partner_field \<Rightarrow> string" where
  "field_name f =
     (case f of PF_email \<Rightarrow> ''email'' | PF_vat_number \<Rightarrow> ''vat_number'' | PF_address_line1 \<Rightarrow> ''address_line1''
      | PF_city \<Rightarrow> ''city'' | PF_postal_code \<Rightarrow> ''postal_code'' | PF_country \<Rightarrow> ''country'')"

text \<open>The new row and the name of the field when its value differs from the stored one.\<close>

definition change_partner :: "partner \<Rightarrow> partner_change \<Rightarrow> partner \<times> string list" where
  "change_partner p c =
     (case c of
        PcName v \<Rightarrow>
          if v = Some (pt_name p) then (p, [])
          else (case v of None \<Rightarrow> p | Some w \<Rightarrow> p\<lparr>pt_name := w\<rparr>, [''name''])
      | PcField f v \<Rightarrow>
          let w = (if f = PF_country \<and> truthy v then map_option py_upper v else v)
          in if w = pt_field p f then (p, []) else (p\<lparr>pt_field := (pt_field p)(f := w)\<rparr>, [field_name f])
      | PcRequiresContract v \<Rightarrow>
          if v = Some (pt_requires_contract p) then (p, [])
          else (case v of None \<Rightarrow> p | Some w \<Rightarrow> p\<lparr>pt_requires_contract := w\<rparr>, [''requires_contract''])
      | PcRequiresAcceptance v \<Rightarrow>
          if v = Some (pt_requires_acceptance p) then (p, [])
          else (case v of None \<Rightarrow> p | Some w \<Rightarrow> p\<lparr>pt_requires_acceptance := w\<rparr>, [''requires_acceptance''])
      | PcPenaltyEnabled v \<Rightarrow>
          if v = Some (pt_penalty_enabled p) then (p, [])
          else (case v of None \<Rightarrow> p | Some w \<Rightarrow> p\<lparr>pt_penalty_enabled := w\<rparr>, [''penalty_enabled''])
      | PcPenaltyRate v \<Rightarrow>
          if v = pt_penalty_rate p then (p, [])
          else (p\<lparr>pt_penalty_rate := map_option q2 v\<rparr>, [''penalty_rate''])
      | PcActive v \<Rightarrow>
          if v = Some (pt_active p) then (p, [])
          else (case v of None \<Rightarrow> p | Some w \<Rightarrow> p\<lparr>pt_active := w\<rparr>, [''is_active'']))"

text \<open>NULL in a column that does not allow it: refused by the database at the flush.\<close>

definition nulls_partner :: "partner_change \<Rightarrow> bool" where
  "nulls_partner c \<longleftrightarrow>
     c \<in> {PcName None, PcRequiresContract None, PcRequiresAcceptance None, PcPenaltyEnabled None,
          PcActive None}"

definition change_all :: "partner_change list \<Rightarrow> partner \<Rightarrow> partner \<times> string list" where
  "change_all cs p =
     foldl (\<lambda>(p, names) c. let (p', n) = change_partner p c in (p', names @ n)) (p, []) cs"

definition update_partner ::
  "ident \<Rightarrow> partner_change list \<Rightarrow> partner_books \<Rightarrow> partner_error + partner_books" where
  "update_partner i body pb =
     (case get_partner i pb of
        None \<Rightarrow> Inl PartnerNotFound
      | Some p \<Rightarrow>
          let (p', changed) = change_all body p
          in if list_ex nulls_partner body then Inl PartnerNull
             else if changed = [] then Inr pb
             else Inr (audit_pb ''partner.update'' i (pt_name p' # changed)
                    (pb\<lparr>pb_partners := map (\<lambda>x. if pt_id x = i then p' else x) (pb_partners pb)\<rparr>)))"

definition add_document ::
  "ident \<Rightarrow> ident \<Rightarrow> string \<Rightarrow> string \<Rightarrow> string option \<Rightarrow> string option \<Rightarrow> partner_books \<Rightarrow>
   partner_error + partner_books" where
  "add_document did i kind title reference nt pb =
     (case get_partner i pb of
        None \<Rightarrow> Inl PartnerNotFound
      | Some p \<Rightarrow>
          let d = \<lparr>pd_id = did, pd_partner = i, pd_kind = kind, pd_title = title,
                   pd_reference = reference, pd_note = nt, pd_status = ''draft'',
                   pd_signed_by = None, pd_signed_date = None\<rparr>
          in Inr (audit_pb ''partner.document_upload'' did [i, kind, title]
                (pb\<lparr>pb_documents := pb_documents pb @ [d]\<rparr>)))"

definition find_document :: "ident \<Rightarrow> ident \<Rightarrow> partner_books \<Rightarrow> partner_document option" where
  "find_document i did pb = find (\<lambda>d. pd_id d = did \<and> pd_partner d = i) (pb_documents pb)"

definition sign_document ::
  "ident \<Rightarrow> ident \<Rightarrow> string option \<Rightarrow> date option \<Rightarrow> date \<Rightarrow> partner_books \<Rightarrow> partner_error + partner_books" where
  "sign_document i did signed_by signed_date today pb =
     (case find_document i did pb of
        None \<Rightarrow> Inl DocumentNotFound
      | Some d \<Rightarrow>
          let d' = d\<lparr>pd_status := ''signed'', pd_signed_by := signed_by,
                     pd_signed_date := Some (case signed_date of None \<Rightarrow> today | Some t \<Rightarrow> t)\<rparr>
          in Inr (audit_pb ''partner.document_sign'' did [i, pd_kind d, str_or signed_by []]
                (pb\<lparr>pb_documents := map (\<lambda>x. if pd_id x = did then d' else x) (pb_documents pb)\<rparr>)))"

definition delete_document :: "ident \<Rightarrow> ident \<Rightarrow> partner_books \<Rightarrow> partner_error + partner_books" where
  "delete_document i did pb =
     (case find_document i did pb of
        None \<Rightarrow> Inl DocumentNotFound
      | Some d \<Rightarrow>
          Inr (audit_pb ''partner.document_delete'' did [i, pd_kind d, pd_title d, pd_status d]
            (pb\<lparr>pb_documents := filter (\<lambda>x. pd_id x \<noteq> did) (pb_documents pb)\<rparr>)))"

section \<open>Lemmas\<close>

lemma ready_iff:
  "is_ready pb p \<longleftrightarrow> (\<forall>k \<in> set (required_kinds p).
     \<exists>d \<in> set (pb_documents pb). pd_partner d = pt_id p \<and> pd_kind d = k \<and> pd_status d = ''signed'')"
  by (auto simp: is_ready_def missing_signed_def signed_kinds_def documents_of_def filter_empty_conv image_iff)

lemma readiness_splits:
  "rd_required (readiness pb p) = [] \<Longrightarrow> rd_ready (readiness pb p)"
  "set (rd_signed (readiness pb p)) \<union> set (rd_missing (readiness pb p)) = set (rd_required (readiness pb p))"
  "rd_ready (readiness pb p) \<longleftrightarrow> rd_missing (readiness pb p) = []"
  by (auto simp: readiness_def is_ready_def missing_signed_def)

text \<open>A document counts for the partner only once signed, and stops counting when it is deleted.\<close>

lemma add_document_gate:
  "add_document did i kind title r nt pb = Inr pb' \<Longrightarrow> signed_kinds pb' p = signed_kinds pb p"
  by (auto simp: add_document_def signed_kinds_def documents_of_def audit_pb_def Let_def split: option.splits)

lemma sign_document_gate:
  assumes ids: "distinct (map pd_id (pb_documents pb))" and s: "sign_document i did by on today pb = Inr pb'"
    and p: "pt_id p = i"
  shows "\<exists>d. find_document i did pb = Some d \<and>
    set (signed_kinds pb' p) = insert (pd_kind d) (set (signed_kinds pb p))"
proof -
  obtain d where d: "find_document i did pb = Some d" using s by (auto simp: sign_document_def split: option.splits)
  then have m: "d \<in> set (pb_documents pb)" "pd_id d = did" "pd_partner d = i"
    using find_mem [of _ "pb_documents pb" d] by (auto simp: find_document_def)
  have u: "x = d" if "x \<in> set (pb_documents pb)" "pd_id x = did" for x
    using find_key_unique [OF ids that(1)] find_key_unique [OF ids m(1)] that(2) m(2) by simp
  let ?d = "d\<lparr>pd_status := ''signed'', pd_signed_by := by,
              pd_signed_date := Some (case on of None \<Rightarrow> today | Some t \<Rightarrow> t)\<rparr>"
  have docs: "pb_documents pb' = map (\<lambda>x. if pd_id x = did then ?d else x) (pb_documents pb)"
    using s d by (auto simp: sign_document_def audit_pb_def Let_def)
  have signed: "set (signed_kinds pb p) = {pd_kind x | x. x \<in> set (pb_documents pb) \<and> pd_partner x = i \<and> pd_status x = ''signed''}" for pb
    by (auto simp: signed_kinds_def documents_of_def p)
  have "set (signed_kinds pb' p) = insert (pd_kind d) (set (signed_kinds pb p))"
  proof (intro set_eqI iffI)
    fix k assume "k \<in> set (signed_kinds pb' p)"
    then obtain x where x: "x \<in> set (pb_documents pb)"
      and y: "k = pd_kind (if pd_id x = did then ?d else x)" "pd_partner (if pd_id x = did then ?d else x) = i"
        "pd_status (if pd_id x = did then ?d else x) = ''signed''"
      unfolding signed docs by auto
    show "k \<in> insert (pd_kind d) (set (signed_kinds pb p))"
    proof (cases "pd_id x = did")
      case False
      with x y show ?thesis unfolding signed by auto
    qed (use y in simp)
  next
    fix k assume k: "k \<in> insert (pd_kind d) (set (signed_kinds pb p))"
    show "k \<in> set (signed_kinds pb' p)"
    proof (cases "k = pd_kind d")
      case True
      have "?d \<in> set (pb_documents pb')" unfolding docs using m by force
      with True m(3) show ?thesis unfolding signed by (intro CollectI exI [of _ ?d]) simp
    next
      case False
      with k obtain x where x: "x \<in> set (pb_documents pb)" "pd_partner x = i" "pd_status x = ''signed''" "k = pd_kind x"
        unfolding signed by auto
      then have "pd_id x \<noteq> did" using u False by auto
      with x have "x \<in> set (pb_documents pb')" unfolding docs by force
      with x show ?thesis unfolding signed by auto
    qed
  qed
  with d show ?thesis by blast
qed

end
