(* ===== verification/TaxCodes.thy ===== *)
theory TaxCodes
  imports Money
begin

text \<open>
  \<open>services/tax_codes.py\<close> and \<open>models/tax_code.py\<close>: the catalogue of tax codes a line of
  an issued invoice may name instead of a rate. Codes are archived, not deleted. Rows are
  in insertion order; ids are arguments.
\<close>

record tax_code =
  tc_id :: ident
  tc_code :: string
  tc_name :: string
  tc_rate :: decimal
  tc_category :: string
  tc_country :: "string option"
  tc_active :: bool
  tc_version :: int

datatype tax_code_error = UnknownCategory | CodeExists | TaxCodeNotFound | StaleTaxCode

definition CATEGORIES :: "string list" where
  "CATEGORIES = [''standard'', ''reduced'', ''zero'', ''exempt'', ''reverse_charge'']"

definition STANDARD :: "(string \<times> string \<times> decimal \<times> string \<times> string option) list" where
  "STANDARD =
     [(''LV-STD'', ''Latvia standard'', 21, ''standard'', Some ''LV''),
      (''LV-RED'', ''Latvia reduced'', 12, ''reduced'', Some ''LV''),
      (''LV-RED5'', ''Latvia reduced 5%'', 5, ''reduced'', Some ''LV''),
      (''EE-STD'', ''Estonia standard'', 22, ''standard'', Some ''EE''),
      (''LT-STD'', ''Lithuania standard'', 21, ''standard'', Some ''LT''),
      (''DE-STD'', ''Germany standard'', 19, ''standard'', Some ''DE''),
      (''DE-RED'', ''Germany reduced'', 7, ''reduced'', Some ''DE''),
      (''ZERO'', ''Zero-rated'', 0, ''zero'', None),
      (''EXEMPT'', ''Exempt'', 0, ''exempt'', None),
      (''RC'', ''Reverse charge'', 0, ''reverse_charge'', None)]"

definition code_taken :: "string \<Rightarrow> tax_code list \<Rightarrow> bool" where
  "code_taken code tcs \<longleftrightarrow> (\<exists>t \<in> set tcs. py_lower (tc_code t) = py_lower code)"

definition new_tax_code ::
  "ident \<Rightarrow> string \<Rightarrow> string \<Rightarrow> decimal \<Rightarrow> string \<Rightarrow> string option \<Rightarrow> tax_code" where
  "new_tax_code i code nm rate category country =
     \<lparr>tc_id = i, tc_code = code, tc_name = nm, tc_rate = q rate 3, tc_category = category,
      tc_country = country, tc_active = True, tc_version = 1\<rparr>"

definition create_tax_code ::
  "ident \<Rightarrow> string \<Rightarrow> string \<Rightarrow> decimal \<Rightarrow> string \<Rightarrow> string option \<Rightarrow> tax_code list \<Rightarrow>
   tax_code_error + tax_code list" where
  "create_tax_code i code nm rate category country tcs =
     (if category \<notin> set CATEGORIES then Inl UnknownCategory
      else if code_taken code tcs then Inl CodeExists
      else Inr (tcs @ [new_tax_code i code nm rate category
              (if truthy country then map_option py_upper country else None)]))"

text \<open>A code of blanks resolves to nothing; the lookup ignores case and surrounding blanks.\<close>

definition resolve_tax_code :: "string \<Rightarrow> tax_code list \<Rightarrow> tax_code option" where
  "resolve_tax_code code tcs =
     (if code = [] \<or> py_strip code = [] then None
      else find (\<lambda>t. py_lower (tc_code t) = py_lower (py_strip code)) tcs)"

definition set_active :: "ident \<Rightarrow> bool \<Rightarrow> int \<Rightarrow> tax_code list \<Rightarrow> tax_code_error + tax_code list" where
  "set_active i active expected_version tcs =
     (case find (\<lambda>t. tc_id t = i) tcs of
        None \<Rightarrow> Inl TaxCodeNotFound
      | Some row \<Rightarrow>
          if tc_version row \<noteq> expected_version then Inl StaleTaxCode
          else Inr (map (\<lambda>t. if tc_id t = i then t\<lparr>tc_active := active, tc_version := tc_version t + 1\<rparr>
                             else t) tcs))"

text \<open>\<open>gen\<close> gives the id of each new row.\<close>

fun seed_from ::
  "(string \<Rightarrow> ident) \<Rightarrow> (string \<times> string \<times> decimal \<times> string \<times> string option) list \<Rightarrow> tax_code list \<Rightarrow>
   tax_code list \<times> nat" where
  "seed_from gen [] tcs = (tcs, 0)"
| "seed_from gen ((code, nm, rate, category, country) # rows) tcs =
     (if code_taken code tcs then seed_from gen rows tcs
      else let (tcs', made) = seed_from gen rows (tcs @ [new_tax_code (gen code) code nm rate category country])
           in (tcs', made + 1))"

definition seed_standard :: "(string \<Rightarrow> ident) \<Rightarrow> tax_code list \<Rightarrow> tax_code list \<times> nat" where
  "seed_standard gen tcs = seed_from gen STANDARD tcs"

section \<open>Lemmas\<close>

definition codes_distinct :: "tax_code list \<Rightarrow> bool" where
  "codes_distinct tcs \<longleftrightarrow> distinct (map (\<lambda>t. py_lower (tc_code t)) tcs)"

lemma codes_distinct_snoc:
  "codes_distinct (tcs @ [t]) \<longleftrightarrow> codes_distinct tcs \<and> \<not> code_taken (tc_code t) tcs"
  by (simp add: codes_distinct_def code_taken_def image_iff eq_commute [of "map lower_char (tc_code t)"])

lemma code_taken_snoc: "code_taken c (tcs @ [t]) \<longleftrightarrow> code_taken c tcs \<or> py_lower (tc_code t) = py_lower c"
  by (auto simp: code_taken_def)

lemma new_tax_code_code [simp]: "tc_code (new_tax_code i c nm r cat co) = c"
  by (simp add: new_tax_code_def)

lemma create_distinct:
  "codes_distinct tcs \<Longrightarrow> create_tax_code i c nm r cat co tcs = Inr tcs' \<Longrightarrow> codes_distinct tcs'"
  by (auto simp: create_tax_code_def codes_distinct_snoc split: if_splits)

lemma set_active_distinct:
  assumes "codes_distinct tcs" "set_active i a v tcs = Inr tcs'"
  shows "codes_distinct tcs'"
proof -
  have "tcs' = map (\<lambda>t. if tc_id t = i then t\<lparr>tc_active := a, tc_version := tc_version t + 1\<rparr> else t) tcs"
    using assms(2) by (auto simp: set_active_def split: option.splits if_splits)
  then have "map (\<lambda>t. py_lower (tc_code t)) tcs' = map (\<lambda>t. py_lower (tc_code t)) tcs" by simp
  with assms(1) show ?thesis by (simp add: codes_distinct_def)
qed

lemma seed_from_keeps: "code_taken c tcs \<Longrightarrow> code_taken c (fst (seed_from gen rows tcs))"
  by (induction gen rows tcs rule: seed_from.induct) (auto simp: code_taken_snoc split: prod.split)

lemma seed_from_covers:
  "row \<in> set rows \<Longrightarrow> code_taken (fst row) (fst (seed_from gen rows tcs))"
proof (induction gen rows tcs rule: seed_from.induct)
  case (2 gen code nm rate category country rows tcs)
  show ?case
  proof (cases "code_taken code tcs")
    case True
    with 2 show ?thesis using seed_from_keeps [OF True, of gen rows] by auto
  next
    case False
    let ?tcs = "tcs @ [new_tax_code (gen code) code nm rate category country]"
    have "code_taken code ?tcs" by (simp add: code_taken_snoc)
    from seed_from_keeps [OF this, of gen rows] 2 False show ?thesis by (auto split: prod.split)
  qed
qed simp

lemma seed_from_distinct: "codes_distinct tcs \<Longrightarrow> codes_distinct (fst (seed_from gen rows tcs))"
  by (induction gen rows tcs rule: seed_from.induct) (auto simp: codes_distinct_snoc split: prod.split)

lemma seed_from_idle: "(\<And>row. row \<in> set rows \<Longrightarrow> code_taken (fst row) tcs) \<Longrightarrow> seed_from gen rows tcs = (tcs, 0)"
proof (induction gen rows tcs rule: seed_from.induct)
  case (2 gen code nm rate category country rows tcs)
  have "code_taken code tcs" using 2(3) [of "(code, nm, rate, category, country)"] by simp
  with 2 show ?case by simp
qed simp

text \<open>Seeding twice seeds once, and keeps the codes a tenant already has.\<close>

lemma seed_twice: "seed_standard gen (fst (seed_standard gen' tcs)) = (fst (seed_standard gen' tcs), 0)"
  unfolding seed_standard_def by (intro seed_from_idle seed_from_covers)

end
