(* ===== verification/Issuing.thy ===== *)
theory Issuing
  imports Issuer Partners TaxCodes Vat IssuedStatus
begin

text \<open>
  \<open>services/issued_service.py\<close>, \<open>services/issued_commands.py\<close>, \<open>models/issued_invoice.py\<close>
  and the writing handlers of \<open>api/routes/issued.py\<close>: drafts, issuing under a number of
  the issuer's series, duplication, the moves of the lifecycle, and credit notes. A
  handler answers with an error or a document, together with the books: the guard
  commits the default issuer it creates, the rest is rolled back when an error is
  raised. Ids, dates, digests of requests and \<open>now\<close> are arguments. A numeric column
  keeps its declared decimals.
\<close>

section \<open>Documents\<close>

record buyer =
  by_name :: "string option"
  by_email :: "string option"
  by_vat_number :: "string option"
  by_address :: "string option"
  by_city :: "string option"
  by_postal_code :: "string option"
  by_country :: "string option"

record issued_line =
  il_position :: nat
  il_description :: string
  il_quantity :: decimal
  il_unit :: string
  il_unit_price :: decimal
  il_discount :: decimal
  il_vat_rate :: decimal
  il_net :: decimal
  il_tax_code :: "string option"

text \<open>The receivable of \<open>IssuedStatus\<close> with what a document carries beyond it.\<close>

record document = issued_invoice +
  dc_issuer :: "ident option"
  dc_customer :: "ident option"
  dc_project :: "ident option"
  dc_corrected :: "ident option"
  dc_corrected_number :: "string option"
  dc_supply :: "date option"
  dc_buyer :: buyer
  dc_seller :: "(issuer_field \<times> string option) list"
  dc_scheme :: string
  dc_note :: "string option"
  dc_po :: "string option"
  dc_exemption :: "string option"
  dc_subtotal :: decimal
  dc_tax_total :: decimal
  dc_lines :: "issued_line list"
  dc_create_key :: "string option"
  dc_create_hash :: "string option"
  dc_issue_key :: "string option"
  dc_issue_hash :: "string option"
  dc_approved_at :: "instant option"
  dc_issued_at :: "instant option"
  dc_disputed_at :: "instant option"
  dc_dispute_reason :: "string option"
  dc_written_off_at :: "instant option"
  dc_writeoff_reason :: "string option"

record customer =
  cu_id :: ident
  cu_buyer :: buyer
  cu_currency :: "string option"
  cu_terms :: "int option"

record issuing_books =
  ib_enabled :: bool
  ib_issuers :: registry
  ib_partners :: partner_books
  ib_customers :: "customer list"
  ib_projects :: "ident list"
  ib_tax_codes :: "tax_code list"
  ib_docs :: "document list"
  ib_trail :: "(string \<times> ident) list"
  ib_events :: "(string \<times> ident) list"

abbreviation receivable :: "document \<Rightarrow> issued_invoice" where
  "receivable d \<equiv> issued_invoice.truncate d"

datatype issue_error =
    ModuleDisabled | IssuerIncomplete "issuer_field list" | UnknownIssuer | UnknownPartner
  | UnknownCustomer | UnknownProject | BuyerMissing | BadTaxCode string | PartnerNotReady "string list"
  | ScopeChanged | CommandConflict | DocNotFound | NotEditable lifecycle_state
  | IllegalMove transition_error | DocVoided | StillDraft | NotCollectible | NotSent
  | NumberTaken | KeyTaken | KeyRequired | OtherAction | CreditBalanceChanged | CreditOfCredit | DuplicateOfCredit
  | FullyCredited | CreditExceeds decimal

section \<open>Requests\<close>

record line_in =
  li_description :: string
  li_quantity :: decimal
  li_unit :: string
  li_unit_price :: decimal
  li_discount :: decimal
  li_vat_rate :: decimal
  li_tax_code :: "string option"

record invoice_body =
  bd_issuer :: "ident option"
  bd_partner :: "ident option"
  bd_project :: "ident option"
  bd_customer :: "ident option"
  bd_buyer :: buyer
  bd_issue :: "date option"
  bd_supply :: "date option"
  bd_due :: "date option"
  bd_currency :: "string option"
  bd_scheme :: string
  bd_note :: "string option"
  bd_po :: "string option"
  bd_exemption :: "string option"
  bd_penalty :: "decimal option"
  bd_lines :: "line_in list"
  bd_draft :: bool

record credit_body =
  cb_expected :: "decimal option"
  cb_lines :: "line_in list option"
  cb_issue :: "date option"
  cb_reason :: "string option"

section \<open>Numbers\<close>

text \<open>\<open>{n:04d}\<close>\<close>

definition pad4 :: "nat \<Rightarrow> string" where
  "pad4 n = replicate (4 - length (str_nat n)) (CHR ''0'') @ str_nat n"

definition number_in_series :: "string \<Rightarrow> date \<Rightarrow> nat \<Rightarrow> string" where
  "number_in_series prefix d n = prefix @ str_nat (nat (year_of d)) @ ''-'' @ pad4 n"

definition next_invoice_number :: "issuer_profile \<Rightarrow> date \<Rightarrow> string \<times> issuer_profile" where
  "next_invoice_number p d =
     (number_in_series (ip_prefix p) d (ip_next p), p\<lparr>ip_next := ip_next p + 1\<rparr>)"

definition next_credit_note_number :: "issuer_profile \<Rightarrow> date \<Rightarrow> string \<times> issuer_profile" where
  "next_credit_note_number p d =
     (number_in_series (ip_cn_prefix p) d (ip_next_cn p), p\<lparr>ip_next_cn := ip_next_cn p + 1\<rparr>)"

section \<open>Building a document\<close>

text \<open>The notes of the zero-VAT schemes; their dashes are the UTF-8 bytes of the source.\<close>

definition SCHEME_NOTES :: "string \<Rightarrow> string option" where
  "SCHEME_NOTES scheme =
     (if scheme = ''reverse_charge''
      then Some (''Reverse charge '' @ [CHR 0xE2, CHR 0x80, CHR 0x94] @
             '' VAT to be accounted for by the recipient (Art. 196 Directive 2006/112/EC).'')
      else if scheme = ''intra_eu''
      then Some (''Intra-Community supply '' @ [CHR 0xE2, CHR 0x80, CHR 0x94] @
             '' exempt (Art. 138 Directive 2006/112/EC).'')
      else if scheme = ''exempt''
      then Some (''VAT exempt (Art. 132'' @ [CHR 0xE2, CHR 0x80, CHR 0x93] @ ''137 Directive 2006/112/EC).'')
      else None)"

definition or_else :: "string option \<Rightarrow> string option \<Rightarrow> string option" where
  "or_else a b = (if truthy a then a else b)"

definition raw_of_line :: "line_in \<Rightarrow> raw_line" where
  "raw_of_line l =
     \<lparr>rl_description = Some (li_description l), rl_quantity = Some (li_quantity l), rl_unit = Some (li_unit l),
      rl_unit_price = Some (li_unit_price l), rl_discount = Some (li_discount l),
      rl_vat_rate = Some (li_vat_rate l)\<rparr>"

text \<open>A computed line as its row: quantity to 3 decimals, the others to 2.\<close>

definition line_row :: "nat \<Rightarrow> norm_line \<Rightarrow> string option \<Rightarrow> issued_line" where
  "line_row n l code =
     \<lparr>il_position = n, il_description = nl_description l, il_quantity = q (nl_quantity l) 3,
      il_unit = nl_unit l, il_unit_price = q2 (nl_unit_price l), il_discount = q2 (nl_discount l),
      il_vat_rate = q2 (nl_vat_rate l), il_net = nl_net l, il_tax_code = code\<rparr>"

fun line_rows :: "nat \<Rightarrow> norm_line list \<Rightarrow> string option list \<Rightarrow> issued_line list" where
  "line_rows n (l # ls) (c # cs) = line_row n l c # line_rows (n + 1) ls cs"
| "line_rows n _ _ = []"

definition upper_country :: "buyer \<Rightarrow> buyer" where
  "upper_country b =
     b\<lparr>by_country := (if truthy (by_country b) then map_option py_upper (by_country b) else None)\<rparr>"

definition build_invoice ::
  "ident \<Rightarrow> issuer_profile \<Rightarrow> invoice_body \<Rightarrow> partner option \<Rightarrow> int option \<Rightarrow> date \<Rightarrow> bool \<Rightarrow>
   lifecycle_state \<Rightarrow> document \<times> issuer_profile" where
  "build_invoice i profile body partner terms today allocate lc =
     (let res = vat_compute (map raw_of_line (bd_lines body)) (bd_scheme body);
          issue_date = (case bd_issue body of None \<Rightarrow> today | Some d \<Rightarrow> d);
          days = (case terms of None \<Rightarrow> ip_terms profile | Some t \<Rightarrow> t);
          due = (case bd_due body of None \<Rightarrow> issue_date + days | Some d \<Rightarrow> d);
          currency = py_upper (str_or (bd_currency body) (str_or (Some (ip_currency profile)) ''EUR''));
          rate1 = (if bd_penalty body = None then (case partner of None \<Rightarrow> None | Some p \<Rightarrow> pt_penalty_rate p)
                   else bd_penalty body);
          rate = (if rate1 = None then ip_penalty profile else rate1);
          nt = or_else (bd_note body) (SCHEME_NOTES (bd_scheme body));
          exemption = (if bd_exemption body = None \<and> bd_scheme body \<in> set ZERO_VAT_SCHEMES
                       then SCHEME_NOTES (bd_scheme body) else bd_exemption body);
          (number, profile') = (if allocate
             then (let (n, p') = next_invoice_number profile issue_date in (Some n, p'))
             else (None, profile))
      in (\<lparr>iv_id = i, iv_doc_type = DocInvoice, iv_kind = ''standard'',
           iv_partner = map_option pt_id partner, iv_number = number, iv_currency = currency,
           iv_lifecycle = Some lc, iv_issue_date = issue_date, iv_due_date = Some due,
           iv_total = vr_total res, iv_credited_total = Some 0, iv_amount_paid = Some 0,
           iv_paid_date = None, iv_sent_at = None, iv_viewed_at = None, iv_voided_at = None,
           iv_penalty_rate = map_option q2 rate, iv_interest_billed_through = None,
           dc_issuer = Some (ip_id profile), dc_customer = None, dc_project = bd_project body,
           dc_corrected = None, dc_corrected_number = None, dc_supply = bd_supply body,
           dc_buyer = upper_country (bd_buyer body), dc_seller = seller_snapshot profile,
           dc_scheme = bd_scheme body, dc_note = nt, dc_po = bd_po body, dc_exemption = exemption,
           dc_subtotal = vr_subtotal res, dc_tax_total = vr_tax_total res,
           dc_lines = line_rows 1 (vr_lines res) (map li_tax_code (bd_lines body)),
           dc_create_key = None, dc_create_hash = None, dc_issue_key = None, dc_issue_hash = None,
           dc_approved_at = None, dc_issued_at = None, dc_disputed_at = None, dc_dispute_reason = None,
           dc_written_off_at = None, dc_writeoff_reason = None\<rparr>, profile'))"

definition build_credit_note ::
  "ident \<Rightarrow> issuer_profile \<Rightarrow> document \<Rightarrow> raw_line list \<Rightarrow> date option \<Rightarrow> string option \<Rightarrow> date \<Rightarrow>
   document \<times> issuer_profile" where
  "build_credit_note i profile original raw issue nt today =
     (let res = vat_compute raw (dc_scheme original);
          issue_date = (case issue of None \<Rightarrow> today | Some d \<Rightarrow> d);
          default_note = ''Credit note for invoice '' @
            (case iv_number original of None \<Rightarrow> ''None'' | Some n \<Rightarrow> n) @ ''.'';
          (number, profile') = next_credit_note_number profile issue_date
      in (original\<lparr>iv_id := i, iv_doc_type := DocCreditNote, iv_kind := ''standard'',
           iv_number := Some number, iv_lifecycle := Some LIssued, iv_issue_date := issue_date,
           iv_due_date := None, iv_total := vr_total res, iv_credited_total := Some 0,
           iv_amount_paid := Some 0, iv_paid_date := None, iv_sent_at := None, iv_viewed_at := None,
           iv_voided_at := None, iv_penalty_rate := None, iv_interest_billed_through := None,
           dc_issuer := Some (ip_id profile), dc_customer := None, dc_project := None,
           dc_corrected := Some (iv_id original), dc_corrected_number := iv_number original,
           dc_note := or_else nt (Some default_note), dc_subtotal := vr_subtotal res,
           dc_tax_total := vr_tax_total res,
           dc_lines := line_rows 1 (vr_lines res) (map (\<lambda>_. None) raw),
           dc_create_key := None, dc_create_hash := None, dc_issue_key := None, dc_issue_hash := None,
           dc_approved_at := None, dc_issued_at := None, dc_disputed_at := None, dc_dispute_reason := None,
           dc_written_off_at := None, dc_writeoff_reason := None\<rparr>, profile'))"

text \<open>The lines that credit the whole invoice, and with their price scaled.\<close>

definition raw_of_row :: "decimal \<Rightarrow> issued_line \<Rightarrow> raw_line" where
  "raw_of_row factor l =
     \<lparr>rl_description = Some (il_description l), rl_quantity = Some (il_quantity l), rl_unit = Some (il_unit l),
      rl_unit_price = Some (il_unit_price l * factor), rl_discount = Some (il_discount l),
      rl_vat_rate = Some (il_vat_rate l)\<rparr>"

definition credit_note_lines_for_full :: "document \<Rightarrow> raw_line list" where
  "credit_note_lines_for_full original = map (raw_of_row 1) (dc_lines original)"

definition already_credited :: "document \<Rightarrow> decimal" where
  "already_credited original = or_zero (iv_credited_total original)"

end
