(* ===== verification/IssuingRoutes.thy ===== *)
theory IssuingRoutes
  imports Issuing
begin

text \<open>
  The writing handlers of \<open>api/routes/issued.py\<close> over the books of \<open>Issuing\<close>, with the
  command lookup of \<open>services/issued_commands.py\<close>. A refused handler leaves the books as
  the guard committed them. The unique indexes of the document table (number, key of the
  creating and of the issuing command) refuse an insert or an update as \<open>NumberTaken\<close> or
  \<open>KeyTaken\<close>; the handler then looks for the committed command once more.
\<close>

section \<open>Rows\<close>

definition get_doc :: "ident \<Rightarrow> issuing_books \<Rightarrow> document option" where
  "get_doc i bk = find (\<lambda>d. iv_id d = i) (ib_docs bk)"

text \<open>The unique indexes: NULL is never a duplicate.\<close>

definition clash :: "(document \<Rightarrow> string option) \<Rightarrow> document \<Rightarrow> document list \<Rightarrow> bool" where
  "clash col d ds \<longleftrightarrow> col d \<noteq> None \<and> (\<exists>x \<in> set ds. iv_id x \<noteq> iv_id d \<and> col x = col d)"

definition check_unique :: "document \<Rightarrow> document list \<Rightarrow> issue_error + unit" where
  "check_unique d ds =
     (if clash iv_number d ds then Inl NumberTaken
      else if clash dc_create_key d ds \<or> clash dc_issue_key d ds then Inl KeyTaken
      else Inr ())"

definition insert_doc :: "document \<Rightarrow> issuing_books \<Rightarrow> issue_error + issuing_books" where
  "insert_doc d bk =
     (case check_unique d (ib_docs bk) of
        Inl e \<Rightarrow> Inl e
      | Inr _ \<Rightarrow> Inr (bk\<lparr>ib_docs := ib_docs bk @ [d]\<rparr>))"

definition put_doc :: "document \<Rightarrow> issuing_books \<Rightarrow> issue_error + issuing_books" where
  "put_doc d bk =
     (case check_unique d (ib_docs bk) of
        Inl e \<Rightarrow> Inl e
      | Inr _ \<Rightarrow> Inr (bk\<lparr>ib_docs := map (\<lambda>x. if iv_id x = iv_id d then d else x) (ib_docs bk)\<rparr>))"

definition note_audit :: "string \<Rightarrow> ident \<Rightarrow> issuing_books \<Rightarrow> issuing_books" where
  "note_audit action i bk = bk\<lparr>ib_trail := ib_trail bk @ [(action, i)]\<rparr>"

definition emit_event :: "string \<Rightarrow> ident \<Rightarrow> issuing_books \<Rightarrow> issuing_books" where
  "emit_event ev i bk = bk\<lparr>ib_events := ib_events bk @ [(ev, i)]\<rparr>"

definition put_issuer :: "issuer_profile \<Rightarrow> issuing_books \<Rightarrow> issuing_books" where
  "put_issuer p bk = bk\<lparr>ib_issuers := put_profile p (ib_issuers bk)\<rparr>"

type_synonym 'a body_result = "issue_error + 'a \<times> issuing_books"
type_synonym 'a reply = "(issue_error + 'a) \<times> issuing_books"

definition answer :: "issuing_books \<Rightarrow> 'a body_result \<Rightarrow> 'a reply" where
  "answer bk r = (case r of Inl e \<Rightarrow> (Inl e, bk) | Inr (x, bk') \<Rightarrow> (Inr x, bk'))"

section \<open>Guards\<close>

definition guard :: "ident \<Rightarrow> issuing_books \<Rightarrow> issue_error option \<times> issuing_books" where
  "guard fresh bk =
     (if \<not> ib_enabled bk then (Some ModuleDisabled, bk)
      else let (p, rg) = get_or_create fresh (ib_issuers bk);
               bk1 = bk\<lparr>ib_issuers := rg\<rparr>;
               missing = missing_fields (Some p)
           in if missing \<noteq> [] then (Some (IssuerIncomplete missing), bk1) else (None, bk1))"

definition guarded :: "ident \<Rightarrow> (issuing_books \<Rightarrow> 'a body_result) \<Rightarrow> issuing_books \<Rightarrow> 'a reply" where
  "guarded fresh h bk =
     (case guard fresh bk of
        (Some e, bk1) \<Rightarrow> (Inl e, bk1)
      | (None, bk1) \<Rightarrow> answer bk1 (h bk1))"

definition require_enabled :: "(issuing_books \<Rightarrow> 'a body_result) \<Rightarrow> issuing_books \<Rightarrow> 'a reply" where
  "require_enabled h bk = (if \<not> ib_enabled bk then (Inl ModuleDisabled, bk) else answer bk (h bk))"

definition resolve_complete_issuer ::
  "ident \<Rightarrow> ident option \<Rightarrow> issuing_books \<Rightarrow> issuer_profile body_result" where
  "resolve_complete_issuer fresh issuer_id bk =
     (case resolve_issuer fresh issuer_id (ib_issuers bk) of
        Inl _ \<Rightarrow> Inl UnknownIssuer
      | Inr (p, rg) \<Rightarrow>
          let missing = missing_fields (Some p)
          in if missing \<noteq> [] then Inl (IssuerIncomplete missing) else Inr (p, bk\<lparr>ib_issuers := rg\<rparr>))"

definition enforce_partner_gate :: "partner option \<Rightarrow> partner_books \<Rightarrow> issue_error + unit" where
  "enforce_partner_gate partner pb =
     (case partner of
        None \<Rightarrow> Inr ()
      | Some p \<Rightarrow>
          let missing = missing_signed pb p
          in if missing \<noteq> [] then Inl (PartnerNotReady missing) else Inr ())"

fun price_lines :: "tax_code list \<Rightarrow> line_in list \<Rightarrow> issue_error + line_in list" where
  "price_lines tcs [] = Inr []"
| "price_lines tcs (l # ls) =
     (case (if \<not> truthy (li_tax_code l) then Inr l
            else (case resolve_tax_code (the (li_tax_code l)) tcs of
                    None \<Rightarrow> Inl (BadTaxCode (the (li_tax_code l)))
                  | Some tc \<Rightarrow>
                      if \<not> tc_active tc then Inl (BadTaxCode (the (li_tax_code l)))
                      else Inr (l\<lparr>li_vat_rate := tc_rate tc, li_tax_code := Some (tc_code tc)\<rparr>))) of
        Inl e \<Rightarrow> Inl e
      | Inr l' \<Rightarrow> (case price_lines tcs ls of Inl e \<Rightarrow> Inl e | Inr ls' \<Rightarrow> Inr (l' # ls')))"

definition prefill :: "customer \<Rightarrow> invoice_body \<Rightarrow> invoice_body" where
  "prefill c body =
     (let b = bd_buyer body; k = cu_buyer c
      in body\<lparr>bd_buyer := \<lparr>by_name = or_else (by_name b) (by_name k), by_email = or_else (by_email b) (by_email k),
             by_vat_number = or_else (by_vat_number b) (by_vat_number k),
             by_address = or_else (by_address b) (by_address k), by_city = or_else (by_city b) (by_city k),
             by_postal_code = or_else (by_postal_code b) (by_postal_code k),
             by_country = or_else (by_country b) (by_country k)\<rparr>,
             bd_currency := or_else (bd_currency body) (cu_currency c)\<rparr>)"

record links =
  lk_partner :: "partner option"
  lk_customer :: "customer option"
  lk_terms :: "int option"
  lk_body :: invoice_body

definition resolve_links :: "invoice_body \<Rightarrow> issuing_books \<Rightarrow> issue_error + links" where
  "resolve_links body bk =
     (let partner = (if truthy (bd_partner body) then get_partner (the (bd_partner body)) (ib_partners bk) else None);
          customer = (if truthy (bd_customer body)
                      then find (\<lambda>c. cu_id c = the (bd_customer body)) (ib_customers bk) else None);
          body1 = (case customer of None \<Rightarrow> body | Some c \<Rightarrow> prefill c body)
      in if truthy (bd_partner body) \<and> partner = None then Inl UnknownPartner
         else if truthy (bd_customer body) \<and> customer = None then Inl UnknownCustomer
         else if \<not> truthy (by_name (bd_buyer body1)) then Inl BuyerMissing
         else if truthy (bd_project body) \<and> the (bd_project body) \<notin> set (ib_projects bk) then Inl UnknownProject
         else (case price_lines (ib_tax_codes bk) (bd_lines body1) of
                 Inl e \<Rightarrow> Inl e
               | Inr ls \<Rightarrow> Inr \<lparr>lk_partner = partner, lk_customer = customer,
                   lk_terms = (case customer of None \<Rightarrow> None | Some c \<Rightarrow> cu_terms c),
                   lk_body = body1\<lparr>bd_lines := ls\<rparr>\<rparr>))"

section \<open>Commands\<close>

text \<open>\<open>scope\<close> is the caller's tenant and user with those the browser expected.\<close>

record scope =
  sc_org :: ident
  sc_user :: ident
  sc_expected_org :: "ident option"
  sc_expected_user :: "ident option"

definition scope_changed :: "scope \<Rightarrow> bool" where
  "scope_changed s \<longleftrightarrow>
     (sc_expected_org s \<noteq> None \<and> sc_expected_org s \<noteq> Some (sc_org s)) \<or>
     (sc_expected_user s \<noteq> None \<and> sc_expected_user s \<noteq> Some (sc_user s))"

definition issued_lookup :: "bool \<Rightarrow> string \<Rightarrow> string option \<Rightarrow> issuing_books \<Rightarrow> issue_error + document option" where
  "issued_lookup issue key expected bk =
     (case find (\<lambda>d. (if issue then dc_issue_key d else dc_create_key d) = Some key) (ib_docs bk) of
        None \<Rightarrow> Inr None
      | Some d \<Rightarrow>
          if expected \<noteq> None \<and> (if issue then dc_issue_hash d else dc_create_hash d) \<noteq> expected
          then Inl CommandConflict
          else Inr (Some d))"

definition integrity_error :: "issue_error \<Rightarrow> bool" where
  "integrity_error e \<longleftrightarrow> e \<in> {NumberTaken, KeyTaken}"

text \<open>After an integrity error and the rollback: a committed command may have appeared.\<close>

definition recover :: "bool \<Rightarrow> string option \<Rightarrow> string \<Rightarrow> document reply \<Rightarrow> document reply" where
  "recover issue key digest r =
     (case r of
        (Inr d, bk) \<Rightarrow> (Inr d, bk)
      | (Inl e, bk) \<Rightarrow>
          if \<not> integrity_error e then (Inl e, bk)
          else (case key of
                  None \<Rightarrow> (Inl e, bk)
                | Some k \<Rightarrow>
                    (case issued_lookup issue k (Some digest) bk of
                       Inl e' \<Rightarrow> (Inl e', bk)
                     | Inr (Some d) \<Rightarrow> (Inr d, bk)
                     | Inr None \<Rightarrow> (Inl e, bk))))"

section \<open>Creating and editing\<close>

definition create_body ::
  "ident \<Rightarrow> ident \<Rightarrow> invoice_body \<Rightarrow> string option \<Rightarrow> string \<Rightarrow> date \<Rightarrow> instant \<Rightarrow> issuing_books \<Rightarrow>
   document body_result" where
  "create_body fresh i body key digest today now bk =
     (case resolve_links body bk of
        Inl e \<Rightarrow> Inl e
      | Inr lk \<Rightarrow>
        (case resolve_complete_issuer fresh (bd_issuer body) bk of
           Inl e \<Rightarrow> Inl e
         | Inr (chosen, bk1) \<Rightarrow>
           (case (if bd_draft body
                  then Inr (fst (build_invoice i chosen (lk_body lk) (lk_partner lk) (lk_terms lk) today False LDraft), bk1)
                  else (case enforce_partner_gate (lk_partner lk) (ib_partners bk1) of
                          Inl e \<Rightarrow> Inl e
                        | Inr _ \<Rightarrow>
                            let (profile, rg) = lock_issuer fresh (Some (ip_id chosen)) (ib_issuers bk1);
                                (d, profile') = build_invoice i profile (lk_body lk) (lk_partner lk) (lk_terms lk)
                                                  today True LIssued
                            in Inr (d\<lparr>dc_issued_at := Some now\<rparr>,
                                    put_issuer profile' (bk1\<lparr>ib_issuers := rg\<rparr>)))) of
              Inl e \<Rightarrow> Inl e
            | Inr (d, bk2) \<Rightarrow>
                let d' = d\<lparr>dc_customer := map_option cu_id (lk_customer lk), dc_create_key := key,
                           dc_create_hash := (if key = None then None else Some digest)\<rparr>
                in (case insert_doc d' bk2 of
                      Inl e \<Rightarrow> Inl e
                    | Inr bk3 \<Rightarrow> Inr (d', note_audit ''issued.create'' i bk3)))))"

definition create_issued ::
  "ident \<Rightarrow> ident \<Rightarrow> scope \<Rightarrow> invoice_body \<Rightarrow> string option \<Rightarrow> string \<Rightarrow> date \<Rightarrow> instant \<Rightarrow> issuing_books \<Rightarrow>
   document reply" where
  "create_issued fresh i sc body key digest today now bk =
     (if scope_changed sc then (Inl ScopeChanged, bk)
      else (case (case key of None \<Rightarrow> Inr None | Some k \<Rightarrow> issued_lookup False k (Some digest) bk) of
              Inl e \<Rightarrow> (Inl e, bk)
            | Inr (Some d) \<Rightarrow> (Inr d, bk)
            | Inr None \<Rightarrow>
                recover False key digest
                  (guarded fresh (create_body fresh i body key digest today now) bk)))"

text \<open>The attributes an edit copies from the rebuilt invoice, and its lines.\<close>

definition copy_draft :: "document \<Rightarrow> document \<Rightarrow> document" where
  "copy_draft r d =
     d\<lparr>dc_issuer := dc_issuer r, iv_partner := iv_partner r, dc_project := dc_project r,
       iv_issue_date := iv_issue_date r, dc_supply := dc_supply r, iv_due_date := iv_due_date r,
       iv_currency := iv_currency r, dc_buyer := dc_buyer r, dc_seller := dc_seller r,
       dc_scheme := dc_scheme r, dc_note := dc_note r, dc_po := dc_po r, dc_exemption := dc_exemption r,
       iv_penalty_rate := iv_penalty_rate r, dc_subtotal := dc_subtotal r, dc_tax_total := dc_tax_total r,
       iv_total := iv_total r, dc_lines := dc_lines r\<rparr>"

definition edit_body :: "ident \<Rightarrow> ident \<Rightarrow> invoice_body \<Rightarrow> date \<Rightarrow> issuing_books \<Rightarrow> document body_result" where
  "edit_body fresh i body today bk =
     (case get_doc i bk of
        None \<Rightarrow> Inl DocNotFound
      | Some d \<Rightarrow>
          if \<not> issued_is_editable (lifecycle_of (receivable d)) then Inl (NotEditable (lifecycle_of (receivable d)))
          else (case resolve_links body bk of
                  Inl e \<Rightarrow> Inl e
                | Inr lk \<Rightarrow>
                  (case resolve_complete_issuer fresh (or_else (bd_issuer body) (dc_issuer d)) bk of
                     Inl e \<Rightarrow> Inl e
                   | Inr (profile, bk1) \<Rightarrow>
                       let r = fst (build_invoice i profile (lk_body lk) (lk_partner lk) (lk_terms lk) today False LDraft);
                           d' = (copy_draft r d)\<lparr>dc_customer := map_option cu_id (lk_customer lk)\<rparr>
                       in (case put_doc d' bk1 of
                             Inl e \<Rightarrow> Inl e
                           | Inr bk2 \<Rightarrow> Inr (d', note_audit ''issued.edit'' i bk2)))))"

definition edit_draft :: "ident \<Rightarrow> ident \<Rightarrow> invoice_body \<Rightarrow> date \<Rightarrow> issuing_books \<Rightarrow> document reply" where
  "edit_draft fresh i body today bk = guarded fresh (edit_body fresh i body today) bk"

section \<open>Issuing\<close>

definition issue_body ::
  "ident \<Rightarrow> ident \<Rightarrow> date option \<Rightarrow> string option \<Rightarrow> string \<Rightarrow> date \<Rightarrow> instant \<Rightarrow> issuing_books \<Rightarrow>
   document body_result" where
  "issue_body fresh i issue_date key digest today now bk =
     (case (case key of None \<Rightarrow> Inr None | Some k \<Rightarrow> issued_lookup True k (Some digest) bk) of
        Inl e \<Rightarrow> Inl e
      | Inr (Some d) \<Rightarrow> Inr (d, bk)
      | Inr None \<Rightarrow>
        (case get_doc i bk of
           None \<Rightarrow> Inl DocNotFound
         | Some d \<Rightarrow>
             if key \<noteq> None \<and> dc_issue_key d = key
             then (if dc_issue_hash d \<noteq> Some digest then Inl CommandConflict else Inr (d, bk))
             else (case issued_target_for A_issue (lifecycle_of (receivable d)) of
                Inl e \<Rightarrow> Inl (IllegalMove e)
              | Inr _ \<Rightarrow>
                (case (if truthy (iv_partner d)
                       then enforce_partner_gate (get_partner (the (iv_partner d)) (ib_partners bk)) (ib_partners bk)
                       else Inr ()) of
                   Inl e \<Rightarrow> Inl e
                 | Inr _ \<Rightarrow>
                     let (profile, rg) = lock_issuer fresh (dc_issuer d) (ib_issuers bk);
                         term_days = (case iv_due_date d of
                                        None \<Rightarrow> ip_terms profile
                                      | Some due \<Rightarrow> due - iv_issue_date d);
                         new_issue = (case issue_date of None \<Rightarrow> today | Some t \<Rightarrow> t);
                         (number, profile') = next_invoice_number profile new_issue;
                         d' = d\<lparr>iv_issue_date := new_issue, iv_due_date := Some (new_issue + max 0 term_days),
                                iv_number := Some number, dc_issue_key := key,
                                dc_issue_hash := (if key = None then None else Some digest),
                                iv_lifecycle := Some LIssued, dc_issued_at := Some now\<rparr>
                     in (case put_doc d' (put_issuer profile' (bk\<lparr>ib_issuers := rg\<rparr>)) of
                           Inl e \<Rightarrow> Inl e
                         | Inr bk2 \<Rightarrow>
                             Inr (d', emit_event ''issued.created'' i (note_audit ''issued.issue'' i bk2)))))))"

definition issue_draft ::
  "ident \<Rightarrow> ident \<Rightarrow> scope \<Rightarrow> date option \<Rightarrow> string option \<Rightarrow> string \<Rightarrow> date \<Rightarrow> instant \<Rightarrow> issuing_books \<Rightarrow>
   document reply" where
  "issue_draft fresh i sc issue_date key digest today now bk =
     recover True key digest
       (if scope_changed sc then (Inl ScopeChanged, bk)
        else guarded fresh (issue_body fresh i issue_date key digest today now) bk)"

section \<open>Duplicating\<close>

definition duplicate_body :: "ident \<Rightarrow> ident \<Rightarrow> ident \<Rightarrow> date \<Rightarrow> issuing_books \<Rightarrow> document body_result" where
  "duplicate_body fresh i new_id today bk =
     (case get_doc i bk of
        None \<Rightarrow> Inl DocNotFound
      | Some src \<Rightarrow>
          if is_credit_note (receivable src) then Inl DuplicateOfCredit
          else let (profile, rg) =
                     (case (if truthy (dc_issuer src) then get_by_id (the (dc_issuer src)) (ib_issuers bk) else None) of
                        Some p \<Rightarrow> (p, ib_issuers bk)
                      | None \<Rightarrow> get_or_create fresh (ib_issuers bk));
                   d = \<lparr>iv_id = new_id, iv_doc_type = DocInvoice, iv_kind = ''standard'',
                        iv_partner = iv_partner src, iv_number = None, iv_currency = iv_currency src,
                        iv_lifecycle = Some LDraft, iv_issue_date = today, iv_due_date = None,
                        iv_total = iv_total src, iv_credited_total = Some 0, iv_amount_paid = Some 0,
                        iv_paid_date = None, iv_sent_at = None, iv_viewed_at = None, iv_voided_at = None,
                        iv_penalty_rate = iv_penalty_rate src, iv_interest_billed_through = None,
                        dc_issuer = Some (ip_id profile), dc_customer = dc_customer src, dc_project = None,
                        dc_corrected = None, dc_corrected_number = None, dc_supply = dc_supply src,
                        dc_buyer = dc_buyer src, dc_seller = seller_snapshot profile,
                        dc_scheme = dc_scheme src, dc_note = dc_note src, dc_po = None, dc_exemption = None,
                        dc_subtotal = dc_subtotal src, dc_tax_total = dc_tax_total src,
                        dc_lines = dc_lines src, dc_create_key = None, dc_create_hash = None,
                        dc_issue_key = None, dc_issue_hash = None, dc_approved_at = None,
                        dc_issued_at = None, dc_disputed_at = None, dc_dispute_reason = None,
                        dc_written_off_at = None, dc_writeoff_reason = None\<rparr>
               in (case insert_doc d (bk\<lparr>ib_issuers := rg\<rparr>) of
                     Inl e \<Rightarrow> Inl e
                   | Inr bk2 \<Rightarrow> Inr (d, note_audit ''issued.duplicate'' new_id bk2)))"

definition duplicate_invoice :: "ident \<Rightarrow> ident \<Rightarrow> ident \<Rightarrow> date \<Rightarrow> issuing_books \<Rightarrow> document reply" where
  "duplicate_invoice fresh i new_id today bk = guarded fresh (duplicate_body fresh i new_id today) bk"

section \<open>The other moves of the lifecycle\<close>

definition reject_if_voided :: "document \<Rightarrow> issue_error + unit" where
  "reject_if_voided d = (if iv_voided_at d \<noteq> None then Inl DocVoided else Inr ())"

definition require_receivable :: "document \<Rightarrow> issue_error + unit" where
  "require_receivable d =
     (case reject_if_voided d of
        Inl e \<Rightarrow> Inl e
      | Inr _ \<Rightarrow>
          if lifecycle_of (receivable d) \<in> {LDraft, LApproved} then Inl StillDraft
          else if lifecycle_of (receivable d) \<in> {LCancelled, LWrittenOff} then Inl NotCollectible
          else Inr ())"

text \<open>
  Approve, cancel, dispute, undispute and write off share their body: load, refuse a
  voided document where \<open>voided\<close> says so, ask the table, write the target, audit.
\<close>

definition move_body ::
  "bool \<Rightarrow> issued_action \<Rightarrow> string \<Rightarrow> (document \<Rightarrow> document) \<Rightarrow> ident \<Rightarrow> issuing_books \<Rightarrow> document body_result" where
  "move_body voided action entry stamp i bk =
     (case get_doc i bk of
        None \<Rightarrow> Inl DocNotFound
      | Some d \<Rightarrow>
        (case (if voided then reject_if_voided d else Inr ()) of
           Inl e \<Rightarrow> Inl e
         | Inr _ \<Rightarrow>
           (case issued_target_for action (lifecycle_of (receivable d)) of
              Inl e \<Rightarrow> Inl (IllegalMove e)
            | Inr target \<Rightarrow>
                let d' = stamp (d\<lparr>iv_lifecycle := Some target\<rparr>)
                in (case put_doc d' bk of
                      Inl e \<Rightarrow> Inl e
                    | Inr bk2 \<Rightarrow> Inr (d', note_audit entry i bk2)))))"

definition approve_draft :: "ident \<Rightarrow> instant \<Rightarrow> issuing_books \<Rightarrow> document reply" where
  "approve_draft i now =
     require_enabled (move_body False A_approve ''issued.approve'' (\<lambda>d. d\<lparr>dc_approved_at := Some now\<rparr>) i)"

definition cancel_draft :: "ident \<Rightarrow> issuing_books \<Rightarrow> document reply" where
  "cancel_draft i = require_enabled (move_body False A_cancel_draft ''issued.cancel'' id i)"

definition dispute_invoice :: "ident \<Rightarrow> string option \<Rightarrow> instant \<Rightarrow> issuing_books \<Rightarrow> document reply" where
  "dispute_invoice i reason now =
     require_enabled (move_body True A_dispute ''issued.dispute''
       (\<lambda>d. d\<lparr>dc_disputed_at := Some now, dc_dispute_reason := reason\<rparr>) i)"

definition undispute_invoice :: "ident \<Rightarrow> issuing_books \<Rightarrow> document reply" where
  "undispute_invoice i = require_enabled (move_body False A_undispute ''issued.undispute'' id i)"

definition write_off_invoice :: "ident \<Rightarrow> string option \<Rightarrow> instant \<Rightarrow> issuing_books \<Rightarrow> document reply" where
  "write_off_invoice i reason now =
     require_enabled (move_body True A_write_off ''issued.write_off''
       (\<lambda>d. d\<lparr>dc_written_off_at := Some now, dc_writeoff_reason := reason\<rparr>) i)"

definition viewed_body :: "ident \<Rightarrow> instant \<Rightarrow> issuing_books \<Rightarrow> document body_result" where
  "viewed_body i now bk =
     (case get_doc i bk of
        None \<Rightarrow> Inl DocNotFound
      | Some d \<Rightarrow>
        (case require_receivable d of
           Inl e \<Rightarrow> Inl e
         | Inr _ \<Rightarrow>
             if iv_sent_at d = None then Inl NotSent
             else if iv_viewed_at d \<noteq> None then Inr (d, bk)
             else let d' = d\<lparr>iv_viewed_at := Some now\<rparr>
                  in (case put_doc d' bk of
                        Inl e \<Rightarrow> Inl e
                      | Inr bk2 \<Rightarrow> Inr (d', note_audit ''issued.viewed'' i bk2))))"

definition mark_viewed :: "ident \<Rightarrow> instant \<Rightarrow> issuing_books \<Rightarrow> document reply" where
  "mark_viewed i now = require_enabled (viewed_body i now)"

section \<open>Credit notes\<close>

definition check_credit_parent :: "document \<Rightarrow> ident \<Rightarrow> issue_error + unit" where
  "check_credit_parent row i =
     (if iv_doc_type row \<noteq> DocCreditNote \<or> dc_corrected row \<noteq> Some i then Inl OtherAction else Inr ())"

text \<open>The lines that are credited, or the refusal.\<close>

definition credit_lines :: "document \<Rightarrow> line_in list option \<Rightarrow> issue_error + raw_line list" where
  "credit_lines original ls =
     (let already = already_credited original in
      case ls of
        Some xs \<Rightarrow> Inr (map raw_of_line xs)
      | None \<Rightarrow>
          let remaining = q2 (iv_total original - already)
          in if remaining \<le> 0 then Inl FullyCredited
             else if 0 < already \<and> 0 < iv_total original
             then Inr (map (raw_of_row (remaining / iv_total original)) (dc_lines original))
             else Inr (credit_note_lines_for_full original))"

definition credit_body_of ::
  "ident \<Rightarrow> ident \<Rightarrow> ident \<Rightarrow> credit_body \<Rightarrow> string \<Rightarrow> string \<Rightarrow> date \<Rightarrow> issuing_books \<Rightarrow> document body_result" where
  "credit_body_of fresh i new_id body key digest today bk =
     (case get_doc i bk of
        None \<Rightarrow> Inl DocNotFound
      | Some original \<Rightarrow>
        (case issued_lookup False key (Some digest) bk of
           Inl e \<Rightarrow> Inl e
         | Inr (Some row) \<Rightarrow>
             (case check_credit_parent row i of Inl e \<Rightarrow> Inl e | Inr _ \<Rightarrow> Inr (row, bk))
         | Inr None \<Rightarrow>
             if cb_expected body \<noteq> None \<and> q2 (already_credited original) \<noteq> q2 (the (cb_expected body))
             then Inl CreditBalanceChanged
             else (case require_receivable original of
                Inl e \<Rightarrow> Inl e
              | Inr _ \<Rightarrow>
                  if is_credit_note (receivable original) then Inl CreditOfCredit
                  else (case credit_lines original (cb_lines body) of
                     Inl e \<Rightarrow> Inl e
                   | Inr raw \<Rightarrow>
                       let (profile, rg) = lock_issuer fresh (dc_issuer original) (ib_issuers bk);
                           (cn, profile') = build_credit_note new_id profile original raw (cb_issue body)
                                              (cb_reason body) today;
                           cn' = cn\<lparr>dc_project := dc_project original, dc_create_key := Some key,
                                    dc_create_hash := Some digest\<rparr>;
                           new_credited = already_credited original + iv_total cn;
                           original' = original\<lparr>iv_credited_total := Some (q2 (min new_credited (iv_total original)))\<rparr>
                       in if cb_lines body \<noteq> None \<and> iv_total original + 1 / 100 < new_credited
                          then Inl (CreditExceeds (q2 (iv_total original - already_credited original)))
                          else (case put_doc original' (put_issuer profile' (bk\<lparr>ib_issuers := rg\<rparr>)) of
                             Inl e \<Rightarrow> Inl e
                           | Inr bk2 \<Rightarrow>
                               (case insert_doc cn' bk2 of
                                  Inl e \<Rightarrow> Inl e
                                | Inr bk3 \<Rightarrow>
                                    Inr (cn', emit_event ''issued.credit_note'' new_id
                                           (note_audit ''issued.credit_note'' new_id bk3))))))))"

text \<open>Around it: the guard, the document, the key; and the second look after an integrity error.\<close>

definition keyed_credit ::
  "ident \<Rightarrow> ident \<Rightarrow> ident \<Rightarrow> credit_body \<Rightarrow> string option \<Rightarrow> string \<Rightarrow> date \<Rightarrow> issuing_books \<Rightarrow> document body_result" where
  "keyed_credit fresh i new_id body key digest today bk =
     (case get_doc i bk of
        None \<Rightarrow> Inl DocNotFound
      | Some _ \<Rightarrow>
        (case key of
           None \<Rightarrow> Inl KeyRequired
         | Some k \<Rightarrow>
           (case credit_body_of fresh i new_id body k digest today bk of
              Inr r \<Rightarrow> Inr r
            | Inl e \<Rightarrow>
                if \<not> integrity_error e then Inl e
                else (case issued_lookup False k (Some digest) bk of
                        Inl e' \<Rightarrow> Inl e'
                      | Inr None \<Rightarrow> Inl e
                      | Inr (Some row) \<Rightarrow>
                          (case check_credit_parent row i of Inl e' \<Rightarrow> Inl e' | Inr _ \<Rightarrow> Inr (row, bk))))))"

definition create_credit_note ::
  "ident \<Rightarrow> ident \<Rightarrow> ident \<Rightarrow> credit_body \<Rightarrow> string option \<Rightarrow> string \<Rightarrow> date \<Rightarrow> issuing_books \<Rightarrow> document reply" where
  "create_credit_note fresh i new_id body key digest today bk =
     guarded fresh (keyed_credit fresh i new_id body key digest today) bk"

text \<open>The reads of a committed command.\<close>

definition get_invoice_command :: "string \<Rightarrow> bool \<Rightarrow> issuing_books \<Rightarrow> issue_error + document" where
  "get_invoice_command key issue bk =
     (case issued_lookup issue key None bk of
        Inl e \<Rightarrow> Inl e
      | Inr None \<Rightarrow> Inl DocNotFound
      | Inr (Some d) \<Rightarrow> Inr d)"

definition credit_command_body :: "ident \<Rightarrow> string \<Rightarrow> issuing_books \<Rightarrow> document body_result" where
  "credit_command_body i key bk =
     (case get_doc i bk of
        None \<Rightarrow> Inl DocNotFound
      | Some _ \<Rightarrow>
        (case issued_lookup False key None bk of
           Inl e \<Rightarrow> Inl e
         | Inr None \<Rightarrow> Inl DocNotFound
         | Inr (Some row) \<Rightarrow>
             (case check_credit_parent row i of Inl e \<Rightarrow> Inl e | Inr _ \<Rightarrow> Inr (row, bk))))"

definition get_credit_command :: "ident \<Rightarrow> string \<Rightarrow> issuing_books \<Rightarrow> document reply" where
  "get_credit_command i key = require_enabled (credit_command_body i key)"

end
