(* ===== verification/Numbering.thy ===== *)
theory Numbering
  imports IssuingRoutes
begin

text \<open>
  The number series of the issuers. A number is a prefix, the year, a dash and a counter
  of at least four digits. The invariant of the books says that the counters an issuer
  has handed out and the documents that carry its numbers correspond one to one; it
  holds through every handler of \<open>IssuingRoutes\<close> and of the registry. Penalty invoices,
  which carry no issuer, are outside it (see \<open>Penalty\<close>).
\<close>

section \<open>Reading a number\<close>

definition good_date :: "date \<Rightarrow> bool" where
  "good_date d \<longleftrightarrow> 1000 \<le> year_of d \<and> year_of d \<le> 9999"

lemma dash_no_digit: "\<not> is_digit (CHR ''-'')"
  by (simp add: is_digit_def Let_def)

lemma digits_value_zeros: "digits_value (replicate k (CHR ''0'') @ s) = digits_value s"
  by (induction k) (simp_all add: digits_value_def)

lemma pad4_inj: "pad4 m = pad4 n \<longleftrightarrow> m = n"
  using digits_value_zeros digits_value_str unfolding pad4_def by metis

lemma pad4_digits: "list_all is_digit (pad4 n)"
  by (auto simp: pad4_def list_all_iff is_digit_def Let_def dest: str_nat_digits [unfolded list_all_iff, THEN bspec])

lemma str_nat_step: "10 \<le> n \<Longrightarrow> length (str_nat n) = Suc (length (str_nat (n div 10)))"
  by (simp add: str_nat.simps [of n])

lemma str_nat_4:
  assumes "1000 \<le> n" "n \<le> 9999"
  shows "length (str_nat n) = 4"
proof -
  have "100 \<le> n div 10" "10 \<le> n div 10 div 10" "n div 10 div 10 div 10 < 10" using assms by simp_all
  then have "length (str_nat (n div 10 div 10 div 10)) = 1" by (simp add: str_nat.simps)
  moreover have "10 \<le> n" "10 \<le> n div 10" "10 \<le> n div 10 div 10" using assms by simp_all
  ultimately show ?thesis by (simp only: str_nat_step)
qed

text \<open>The text after the last dash is the counter, the four characters before it the year.\<close>

lemma last_dash_unique:
  assumes "a @ CHR ''-'' # x = b @ CHR ''-'' # y" "list_all is_digit x" "list_all is_digit y"
  shows "a = b \<and> x = y"
proof -
  have tw: "takeWhile (\<lambda>c. c \<noteq> CHR ''-'') (rev z @ CHR ''-'' # w) = rev z" if "list_all is_digit z" for z w
    using that dash_no_digit by (subst takeWhile_append2) (auto simp: list_all_iff)
  have e: "rev x @ CHR ''-'' # rev a = rev y @ CHR ''-'' # rev b"
    using arg_cong [OF assms(1), of rev] by simp
  have "rev x = rev y" using arg_cong [OF e, of "takeWhile (\<lambda>c. c \<noteq> CHR ''-'')"] tw assms(2,3) by simp
  with e show ?thesis by simp
qed

lemma number_inj:
  assumes "number_in_series p d n = number_in_series p' d' n'" "good_date d" "good_date d'"
  shows "p = p' \<and> n = n' \<and> year_of d = year_of d'"
proof -
  have "p @ str_nat (nat (year_of d)) = p' @ str_nat (nat (year_of d')) \<and> pad4 n = pad4 n'"
    using assms(1) last_dash_unique [OF _ pad4_digits [of n] pad4_digits [of n'],
        of "p @ str_nat (nat (year_of d))" "p' @ str_nat (nat (year_of d'))"]
    by (simp add: number_in_series_def)
  moreover have "length (str_nat (nat (year_of d))) = 4" "length (str_nat (nat (year_of d'))) = 4"
    using assms(2,3) by (auto simp: good_date_def intro!: str_nat_4)
  ultimately have "p = p'" "str_nat (nat (year_of d)) = str_nat (nat (year_of d'))" "n = n'"
    by (simp_all add: pad4_inj)
  with assms(2,3) show ?thesis by (auto simp: str_nat_inj good_date_def)
qed

section \<open>The invariant\<close>

definition series :: "issuer_profile \<Rightarrow> (string \<times> nat) set" where
  "series p = {(ip_prefix p, n) | n. 1 \<le> n \<and> n < ip_next p} \<union> {(ip_cn_prefix p, n) | n. 1 \<le> n \<and> n < ip_next_cn p}"

definition fills :: "document \<Rightarrow> string \<times> nat \<Rightarrow> bool" where
  "fills d s \<longleftrightarrow> good_date (iv_issue_date d) \<and> iv_number d = Some (number_in_series (fst s) (iv_issue_date d) (snd s))"

definition unissued :: "document \<Rightarrow> bool" where
  "unissued d \<longleftrightarrow> lifecycle_of (receivable d) \<in> {LDraft, LApproved}"

definition doc_ok :: "registry \<Rightarrow> document \<Rightarrow> bool" where
  "doc_ok rg d \<longleftrightarrow> (\<exists>p \<in> set rg. dc_issuer d = Some (ip_id p) \<and>
     (iv_number d = None \<or> (\<exists>s \<in> series p. fills d s))) \<and> (unissued d \<longrightarrow> iv_number d = None)"

definition numbering_ok :: "registry \<Rightarrow> document list \<Rightarrow> bool" where
  "numbering_ok rg ds \<longleftrightarrow> registry_ok rg \<and> (\<forall>p \<in> set rg. ip_id p \<noteq> []) \<and> distinct (map iv_id ds) \<and>
     (\<forall>d \<in> set ds. doc_ok rg d) \<and>
     (\<forall>p \<in> set rg. \<forall>s \<in> series p. \<exists>d \<in> set ds. fills d s \<and> (\<forall>d' \<in> set ds. fills d' s \<longrightarrow> d' = d))"

lemma numbering_okD:
  assumes "numbering_ok rg ds"
  shows "registry_ok rg" "p \<in> set rg \<Longrightarrow> ip_id p \<noteq> []" "distinct (map iv_id ds)"
    "d \<in> set ds \<Longrightarrow> doc_ok rg d"
    "p \<in> set rg \<Longrightarrow> s \<in> series p \<Longrightarrow> \<exists>d \<in> set ds. fills d s \<and> (\<forall>d' \<in> set ds. fills d' s \<longrightarrow> d' = d)"
  using assms unfolding numbering_ok_def by blast+

lemma doc_okI:
  assumes "p \<in> set rg" "dc_issuer d = Some (ip_id p)"
    and "iv_number d = None \<or> (s \<in> series p \<and> fills d s)" "unissued d \<Longrightarrow> iv_number d = None"
  shows "doc_ok rg d"
  using assms unfolding doc_ok_def by blast

lemma doc_okE:
  assumes "doc_ok rg d"
  obtains p where "p \<in> set rg" "dc_issuer d = Some (ip_id p)" "unissued d \<Longrightarrow> iv_number d = None"
    "iv_number d = None \<or> (\<exists>s \<in> series p. fills d s)"
  using assms unfolding doc_ok_def by blast

lemma doc_ok_lift:
  assumes "doc_ok rg d"
    and "\<And>p. p \<in> set rg \<Longrightarrow> dc_issuer d = Some (ip_id p) \<Longrightarrow> \<exists>p' \<in> set rg'. ip_id p' = ip_id p \<and> series p \<subseteq> series p'"
  shows "doc_ok rg' d"
proof -
  obtain p where p: "p \<in> set rg" "dc_issuer d = Some (ip_id p)" "unissued d \<Longrightarrow> iv_number d = None"
    "iv_number d = None \<or> (\<exists>s \<in> series p. fills d s)" by (rule doc_okE [OF assms(1)]) blast
  obtain p' where p': "p' \<in> set rg'" "ip_id p' = ip_id p" "series p \<subseteq> series p'" using assms(2) [OF p(1,2)] by blast
  obtain s where s: "iv_number d = None \<or> (s \<in> series p \<and> fills d s)" using p(4) by blast
  show ?thesis by (rule doc_okI [OF p'(1), of d s]) (use p(2,3) p'(2,3) s in auto)
qed

lemma fills_same: "fills d s \<Longrightarrow> fills d s' \<Longrightarrow> s = s'"
  using number_inj [of "fst s" "iv_issue_date d" "snd s" "fst s'" "iv_issue_date d" "snd s'"]
  by (auto simp: fills_def prod_eq_iff)

lemma same_number_fills:
  "iv_number d = iv_number d' \<Longrightarrow> fills d s \<Longrightarrow> fills d' s' \<Longrightarrow> s = s'"
  using number_inj [of "fst s" "iv_issue_date d" "snd s" "fst s'" "iv_issue_date d'" "snd s'"]
  by (auto simp: fills_def prod_eq_iff)

lemma series_own: "s \<in> series p \<Longrightarrow> fst s \<in> own_prefixes p"
  by (auto simp: series_def own_prefixes_def)

text \<open>Two numbered documents never carry the same number.\<close>

lemma numbers_distinct:
  assumes ok: "numbering_ok rg ds" and d: "d \<in> set ds" "d' \<in> set ds"
    and n: "iv_number d \<noteq> None" "iv_number d = iv_number d'"
  shows "d = d'"
proof -
  obtain p s where s: "p \<in> set rg" "s \<in> series p" "fills d s"
    using numbering_okD(4) [OF ok d(1)] n(1) by (auto simp: doc_ok_def)
  obtain p' s' where s': "p' \<in> set rg" "s' \<in> series p'" "fills d' s'"
    using numbering_okD(4) [OF ok d(2)] n by (auto simp: doc_ok_def)
  have "s = s'" by (rule same_number_fills [OF n(2) s(3) s'(3)])
  with numbering_okD(5) [OF ok s(1,2)] s(3) s'(3) d show ?thesis by blast
qed

section \<open>One row at a time\<close>

definition replaces :: "document \<Rightarrow> document list \<Rightarrow> document list \<Rightarrow> bool" where
  "replaces d ds ds' \<longleftrightarrow> distinct (map iv_id ds') \<and> set ds' = insert d {x \<in> set ds. iv_id x \<noteq> iv_id d}"

lemma replaces_mem: "replaces d ds ds' \<Longrightarrow> x \<in> set ds' \<longleftrightarrow> x = d \<or> (x \<in> set ds \<and> iv_id x \<noteq> iv_id d)"
  by (auto simp: replaces_def)

lemma replaces_append:
  "distinct (map iv_id ds) \<Longrightarrow> iv_id d \<notin> iv_id ` set ds \<Longrightarrow> replaces d ds (ds @ [d])"
  by (auto simp: replaces_def intro: rev_image_eqI)

lemma replaces_map:
  assumes "distinct (map iv_id ds)" "x \<in> set ds" "iv_id x = iv_id d"
  shows "replaces d ds (map (\<lambda>y. if iv_id y = iv_id d then d else y) ds)"
proof -
  have "map iv_id (map (\<lambda>y. if iv_id y = iv_id d then d else y) ds) = map iv_id ds" by simp
  then have "distinct (map iv_id (map (\<lambda>y. if iv_id y = iv_id d then d else y) ds))" using assms(1) by (simp only:)
  then show ?thesis using assms(2,3) unfolding replaces_def by force
qed

text \<open>A row that keeps what it filled.\<close>

lemma keep_row:
  assumes ok: "numbering_ok rg ds" and r: "replaces d ds ds'" and d: "doc_ok rg d"
    and same: "\<And>s. fills d s \<longleftrightarrow> (\<exists>x \<in> set ds. iv_id x = iv_id d \<and> fills x s)"
  shows "numbering_ok rg ds'"
proof -
  note m = replaces_mem [OF r]
  have "\<exists>e \<in> set ds'. fills e s \<and> (\<forall>d' \<in> set ds'. fills d' s \<longrightarrow> d' = e)" if p: "p \<in> set rg" "s \<in> series p" for p s
  proof -
    obtain e where e: "e \<in> set ds" "fills e s" "\<And>x. x \<in> set ds \<Longrightarrow> fills x s \<Longrightarrow> x = e"
      using numbering_okD(5) [OF ok p] by blast
    show ?thesis
    proof (cases "iv_id e = iv_id d")
      case True
      then have "fills d s" using same e(1,2) by blast
      moreover have "x = d" if "x \<in> set ds'" "fills x s" for x using m [of x] that e(3) True by auto
      ultimately show ?thesis using m by blast
    next
      case False
      have "\<not> fills d s" using same e(3) False by auto
      then have "x = e" if "x \<in> set ds'" "fills x s" for x using m [of x] that e(3) by auto
      with False e(1,2) m show ?thesis by blast
    qed
  qed
  moreover have "\<forall>x \<in> set ds'. doc_ok rg x" using d numbering_okD(4) [OF ok] by (auto simp: m)
  moreover have "distinct (map iv_id ds')" using r by (simp add: replaces_def)
  ultimately show ?thesis using numbering_okD(1,2) [OF ok] unfolding numbering_ok_def by blast
qed

lemma keep_row_unnumbered:
  assumes "numbering_ok rg ds" "replaces d ds ds'" "doc_ok rg d" "iv_number d = None"
    and "\<And>x. x \<in> set ds \<Longrightarrow> iv_id x = iv_id d \<Longrightarrow> iv_number x = None"
  shows "numbering_ok rg ds'"
proof (rule keep_row [OF assms(1-3)])
  fix s show "fills d s \<longleftrightarrow> (\<exists>x \<in> set ds. iv_id x = iv_id d \<and> fills x s)"
    using assms(4,5) by (force simp: fills_def)
qed

lemma keep_row_numbered:
  assumes ok: "numbering_ok rg ds" and r: "replaces d ds ds'" and x: "x \<in> set ds" "iv_id x = iv_id d"
    and k: "iv_number d = iv_number x" "iv_issue_date d = iv_issue_date x" "dc_issuer d = dc_issuer x"
    and u: "unissued d \<longrightarrow> iv_number d = None"
  shows "numbering_ok rg ds'"
proof (rule keep_row [OF ok r])
  have f: "fills d s \<longleftrightarrow> fills x s" for s by (simp add: fills_def k)
  obtain p where "p \<in> set rg" "dc_issuer x = Some (ip_id p)" "iv_number x = None \<or> (\<exists>s \<in> series p. fills x s)"
    by (rule doc_okE [OF numbering_okD(4) [OF ok x(1)]]) blast
  then show "doc_ok rg d" using u k f unfolding doc_ok_def by auto
  have "y = x" if "y \<in> set ds" "iv_id y = iv_id d" for y
    using that(2) x(2) by (intro key_unique [OF numbering_okD(3) [OF ok] that(1) x(1)]) simp
  then show "fills d s \<longleftrightarrow> (\<exists>x \<in> set ds. iv_id x = iv_id d \<and> fills x s)" for s using f x by blast
qed

text \<open>A row that takes the next number of a series of \<open>p\<close>.\<close>

definition takes :: "issuer_profile \<Rightarrow> issuer_profile \<Rightarrow> string \<times> nat \<Rightarrow> bool" where
  "takes p p' s \<longleftrightarrow> (p' = p\<lparr>ip_next := ip_next p + 1\<rparr> \<and> s = (ip_prefix p, ip_next p)) \<or>
     (p' = p\<lparr>ip_next_cn := ip_next_cn p + 1\<rparr> \<and> s = (ip_cn_prefix p, ip_next_cn p))"

lemma takes_series:
  assumes "takes p p' s" "0 < ip_next p" "0 < ip_next_cn p"
  shows "series p' = insert s (series p)" "ip_id p' = ip_id p"
  using assms by (auto simp: takes_def series_def)

lemma takes_fresh:
  assumes t: "takes p p' s" and rg: "registry_ok rg" "p \<in> set rg" "x \<in> set rg"
  shows "s \<notin> series x"
proof
  assume s: "s \<in> series x"
  have "fst s \<in> own_prefixes p" using t by (auto simp: takes_def own_prefixes_def)
  then have "ip_id x = ip_id p"
    using series_own [OF s] registry_okD(2) [OF rg(1)] rg(2,3) by (auto simp: prefixes_apart_def)
  then have "x = p" by (rule key_unique [OF registry_okD(1) [OF rg(1)] rg(3,2)])
  with s t have "ip_prefix p = ip_cn_prefix p" by (auto simp: takes_def series_def)
  with registry_okD(2) [OF rg(1)] rg(2) show False by (auto simp: prefixes_apart_def)
qed

lemma not_filled:
  assumes ok: "numbering_ok rg ds" and t: "takes p p' s" "p \<in> set rg" and x: "x \<in> set ds" "fills x s"
  shows False
proof -
  obtain q s' where q: "q \<in> set rg" "s' \<in> series q" "fills x s'"
    using numbering_okD(4) [OF ok x(1)] x(2) by (auto simp: doc_ok_def fills_def)
  have "s' = s" by (rule fills_same [OF q(3) x(2)])
  with takes_fresh [OF t(1) numbering_okD(1) [OF ok] t(2) q(1)] q(2) show False by simp
qed

lemma take_number:
  assumes ok: "numbering_ok rg ds" and r: "replaces d ds ds'" and t: "takes p p' s" "p \<in> set rg"
    and d: "fills d s" "dc_issuer d = Some (ip_id p)" "\<not> unissued d"
    and old: "\<And>x. x \<in> set ds \<Longrightarrow> iv_id x = iv_id d \<Longrightarrow> iv_number x = None"
  shows "numbering_ok (put_profile p' rg) ds'"
proof -
  note m = replaces_mem [OF r] and reg = numbering_okD(1) [OF ok]
  note ts = takes_series [OF t(1) registry_okD(4,5) [OF reg t(2)]]
  have reg': "registry_ok (put_profile p' rg)" using bump_ok [OF reg t(2)] t(1) by (auto simp: takes_def)
  have p': "p' \<in> set (put_profile p' rg)" by (rule put_profile_in [OF _ t(2)]) (simp add: ts)
  have up: "\<exists>x' \<in> set (put_profile p' rg). ip_id x' = ip_id x \<and> series x \<subseteq> series x'" if "x \<in> set rg" for x
  proof (cases "ip_id x = ip_id p'")
    case True
    then have "x = p" using ts(2) by (intro key_unique [OF registry_okD(1) [OF reg] that t(2)]) simp
    with p' ts show ?thesis by blast
  next
    case False
    from put_profile_others [OF that this] show ?thesis by blast
  qed
  have lift: "doc_ok (put_profile p' rg) x" if "doc_ok rg x" for x
    by (rule doc_ok_lift [OF that up])
  have "doc_ok (put_profile p' rg) d"
    by (rule doc_okI [OF p', of _ s]) (use d ts in auto)
  then have docs: "\<forall>x \<in> set ds'. doc_ok (put_profile p' rg) x"
    using lift [OF numbering_okD(4) [OF ok]] by (auto simp: m)
  have "\<exists>e \<in> set ds'. fills e s' \<and> (\<forall>d' \<in> set ds'. fills d' s' \<longrightarrow> d' = e)"
    if x: "x \<in> set (put_profile p' rg)" "s' \<in> series x" for x s'
  proof (cases "s' = s")
    case True
    have "y = d" if "y \<in> set ds'" "fills y s" for y using m [of y] that not_filled [OF ok t] by blast
    with True d(1) m show ?thesis by blast
  next
    case False
    obtain q where q: "q \<in> set rg" "s' \<in> series q"
      using put_profile_mem [OF x(1)] x(2) ts(1) t(2) False by auto
    obtain e where e: "e \<in> set ds" "fills e s'" "\<And>y. y \<in> set ds \<Longrightarrow> fills y s' \<Longrightarrow> y = e"
      using numbering_okD(5) [OF ok q] by blast
    have "iv_id e \<noteq> iv_id d" using old [OF e(1)] e(2) by (auto simp: fills_def)
    then have "e \<in> set ds'" using m [of e] e(1) by simp
    moreover have "y = e" if "y \<in> set ds'" "fills y s'" for y
      using m [of y] that fills_same [OF d(1), of s'] False e(3) by metis
    ultimately show ?thesis using e(2) by blast
  qed
  moreover have "ip_id x \<noteq> []" if "x \<in> set (put_profile p' rg)" for x
    using put_profile_mem [OF that] numbering_okD(2) [OF ok] numbering_okD(2) [OF ok t(2)] ts(2) by metis
  moreover have "distinct (map iv_id ds')" using r by (simp add: replaces_def)
  ultimately show ?thesis using reg' docs unfolding numbering_ok_def by blast
qed

text \<open>The number that is taken is new, so no unique index refuses it.\<close>

lemma taken_is_new:
  assumes ok: "numbering_ok rg ds" and t: "takes p p' s" "p \<in> set rg" and d: "fills d s"
  shows "\<not> clash iv_number d ds"
proof
  assume "clash iv_number d ds"
  then obtain x where x: "x \<in> set ds" "iv_number x = iv_number d" "iv_number d \<noteq> None" by (auto simp: clash_def)
  then obtain q s' where q: "fills x s'" using numbering_okD(4) [OF ok x(1)] by (auto simp: doc_ok_def)
  with same_number_fills [OF x(2) q d] not_filled [OF ok t x(1)] show False by simp
qed

text \<open>The registry changes while the documents stay.\<close>

lemma change_registry:
  assumes ok: "numbering_ok rg ds" and reg: "registry_ok rg'" "\<And>p. p \<in> set rg' \<Longrightarrow> ip_id p \<noteq> []"
    and used: "\<And>p d. p \<in> set rg \<Longrightarrow> d \<in> set ds \<Longrightarrow> dc_issuer d = Some (ip_id p) \<Longrightarrow>
      \<exists>p' \<in> set rg'. ip_id p' = ip_id p \<and> series p \<subseteq> series p'"
    and source: "\<And>p' s. p' \<in> set rg' \<Longrightarrow> s \<in> series p' \<Longrightarrow> \<exists>p \<in> set rg. s \<in> series p"
  shows "numbering_ok rg' ds"
proof -
  have "doc_ok rg' d" if "d \<in> set ds" for d
    by (rule doc_ok_lift [OF numbering_okD(4) [OF ok that] used [OF _ that]])
  moreover have "\<exists>d \<in> set ds. fills d s \<and> (\<forall>d' \<in> set ds. fills d' s \<longrightarrow> d' = d)" if "p' \<in> set rg'" "s \<in> series p'" for p' s
    using source [OF that] numbering_okD(5) [OF ok] by blast
  ultimately show ?thesis using reg numbering_okD(3) [OF ok] unfolding numbering_ok_def by blast
qed

section \<open>The books\<close>

definition books_ok :: "issuing_books \<Rightarrow> bool" where
  "books_ok bk \<longleftrightarrow> numbering_ok (ib_issuers bk) (ib_docs bk)"

lemma truthy_Some [simp]: "truthy (Some x) \<longleftrightarrow> x \<noteq> []"
  by (simp add: truthy_def)

text \<open>In sound books the issuer a document names is the one that is locked.\<close>

lemma lock_named:
  assumes "registry_ok rg" "p \<in> set rg" "ip_id p \<noteq> []"
  shows "lock_issuer fresh (Some (ip_id p)) rg = (p, rg)" "get_by_id (ip_id p) rg = Some p"
  using find_key_unique [OF registry_okD(1) [OF assms(1)] assms(2)] assms(3)
  by (simp_all add: lock_issuer_def get_by_id_def)

lemma get_or_create_books:
  assumes ok: "numbering_ok rg ds" and g: "get_or_create fresh rg = (p, rg')" and f: "fresh \<noteq> []"
  shows "numbering_ok rg' ds \<and> p \<in> set rg'"
proof (cases "rg = []")
  case True
  then have "ds = []" using numbering_okD(4) [OF ok] by (cases ds) (auto simp: doc_ok_def)
  with get_or_create_ok [OF numbering_okD(1) [OF ok] g] get_or_create_cases [OF g] True f show ?thesis
    by (auto simp: numbering_ok_def series_def)
next
  case False
  with get_or_create_cases [OF g] ok show ?thesis by simp
qed

lemma guard_books:
  assumes "books_ok bk" "guard fresh bk = (e, bk1)" "fresh \<noteq> []"
  shows "books_ok bk1" "ib_docs bk1 = ib_docs bk"
proof -
  obtain p rg where g: "get_or_create fresh (ib_issuers bk) = (p, rg)" by force
  show "books_ok bk1" "ib_docs bk1 = ib_docs bk"
    using assms(1,2) get_or_create_books [OF _ g assms(3)]
    by (auto simp: guard_def g books_ok_def Let_def split: if_splits)
qed

lemma guarded_ok:
  assumes "books_ok bk" "fresh \<noteq> []"
    and "\<And>bk1 x bk'. books_ok bk1 \<Longrightarrow> ib_docs bk1 = ib_docs bk \<Longrightarrow> h bk1 = Inr (x, bk') \<Longrightarrow> books_ok bk'"
  shows "books_ok (snd (guarded fresh h bk))"
proof (cases "guard fresh bk")
  case (Pair e bk1)
  note g = guard_books [OF assms(1) Pair assms(2)]
  show ?thesis
    using g(1) assms(3) [OF g] by (auto simp: guarded_def Pair answer_def split: option.split sum.split)
qed

lemma require_enabled_ok:
  assumes "books_ok bk" "\<And>x bk'. h bk = Inr (x, bk') \<Longrightarrow> books_ok bk'"
  shows "books_ok (snd (require_enabled h bk))"
  using assms by (auto simp: require_enabled_def answer_def split: sum.split)

lemma recover_snd: "snd (recover issue key digest r) = snd r"
  by (auto simp: recover_def split: prod.splits sum.splits option.splits)

lemma note_emit [simp]:
  "ib_docs (note_audit a i bk) = ib_docs bk" "ib_issuers (note_audit a i bk) = ib_issuers bk"
  "ib_docs (emit_event a i bk) = ib_docs bk" "ib_issuers (emit_event a i bk) = ib_issuers bk"
  by (simp_all add: note_audit_def emit_event_def)

lemma put_issuer_sel [simp]:
  "ib_issuers (put_issuer p bk) = put_profile p (ib_issuers bk)" "ib_docs (put_issuer p bk) = ib_docs bk"
  "ib_partners (put_issuer p bk) = ib_partners bk"
  by (simp_all add: put_issuer_def)

lemma insert_doc_inv:
  assumes "insert_doc d bk = Inr bk'"
  shows "ib_docs bk' = ib_docs bk @ [d] \<and> ib_issuers bk' = ib_issuers bk"
  using assms by (auto simp: insert_doc_def split: sum.splits)

lemma put_doc_inv:
  assumes "put_doc d bk = Inr bk'"
  shows "ib_docs bk' = map (\<lambda>x. if iv_id x = iv_id d then d else x) (ib_docs bk) \<and>
    ib_issuers bk' = ib_issuers bk"
  using assms by (auto simp: put_doc_def split: sum.splits)

lemma get_doc_mem: "get_doc i bk = Some d \<Longrightarrow> d \<in> set (ib_docs bk) \<and> iv_id d = i"
  unfolding get_doc_def by (rule find_mem)

lemma resolve_complete_inv:
  assumes ok: "numbering_ok (ib_issuers bk) (ib_docs bk)" and f: "fresh \<noteq> []"
    and r: "resolve_complete_issuer fresh o' bk = Inr (p, bk1)"
  shows "numbering_ok (ib_issuers bk1) (ib_docs bk1) \<and> ib_docs bk1 = ib_docs bk \<and>
    ib_partners bk1 = ib_partners bk \<and> p \<in> set (ib_issuers bk1)"
proof -
  obtain rg where rg: "resolve_issuer fresh o' (ib_issuers bk) = Inr (p, rg)" "bk1 = bk\<lparr>ib_issuers := rg\<rparr>"
    using r by (auto simp: resolve_complete_issuer_def Let_def split: sum.splits if_splits)
  show ?thesis
  proof (cases "truthy o'")
    case True
    with rg(1) have "get_by_id (the o') (ib_issuers bk) = Some p" "rg = ib_issuers bk"
      by (auto simp: resolve_issuer_def split: option.splits)
    with get_by_id_mem ok rg(2) show ?thesis by auto
  next
    case False
    with rg(1) have "get_or_create fresh (ib_issuers bk) = (p, rg)" by (simp add: resolve_issuer_def)
    from get_or_create_books [OF ok this f] rg(2) show ?thesis by simp
  qed
qed

section \<open>What the builders write\<close>

lemma build_invoice_fields:
  assumes "build_invoice i p body partner terms today allocate lc = (d, p')"
  shows "iv_id d = i" "dc_issuer d = Some (ip_id p)" "iv_lifecycle d = Some lc"
    "iv_issue_date d = (case bd_issue body of None \<Rightarrow> today | Some t \<Rightarrow> t)"
    "\<not> allocate \<Longrightarrow> iv_number d = None \<and> p' = p"
    "allocate \<Longrightarrow> iv_number d = Some (number_in_series (ip_prefix p) (iv_issue_date d) (ip_next p)) \<and>
       p' = p\<lparr>ip_next := ip_next p + 1\<rparr>"
  using assms by (auto simp: build_invoice_def Let_def next_invoice_number_def split: if_splits)

lemma build_credit_note_fields:
  assumes "build_credit_note i p original raw issue nt today = (d, p')"
  shows "iv_id d = i" "dc_issuer d = Some (ip_id p)" "iv_lifecycle d = Some LIssued"
    "iv_issue_date d = (case issue of None \<Rightarrow> today | Some t \<Rightarrow> t)"
    "iv_number d = Some (number_in_series (ip_cn_prefix p) (iv_issue_date d) (ip_next_cn p))"
    "p' = p\<lparr>ip_next_cn := ip_next_cn p + 1\<rparr>" "iv_total d = vr_total (vat_compute raw (dc_scheme original))"
    "iv_doc_type d = DocCreditNote" "dc_corrected d = Some (iv_id original)"
  using assms by (auto simp: build_credit_note_def Let_def next_credit_note_number_def)

lemma lifecycle_truncate [simp]: "lifecycle_of (receivable d) = (case iv_lifecycle d of None \<Rightarrow> LIssued | Some l \<Rightarrow> l)"
  by (simp add: lifecycle_of_def issued_invoice.truncate_def)

lemma issued_not_unissued: "iv_lifecycle d = Some LIssued \<Longrightarrow> \<not> unissued d"
  by (simp add: unissued_def)

lemma dates_good:
  "good_date today \<Longrightarrow> (\<And>t. o' = Some t \<Longrightarrow> good_date t) \<Longrightarrow> good_date (case o' of None \<Rightarrow> today | Some t \<Rightarrow> t)"
  by (cases o') auto

section \<open>Every handler keeps the books sound\<close>

lemma no_row: "iv_id d \<notin> iv_id ` set ds \<Longrightarrow> x \<in> set ds \<Longrightarrow> iv_id x = iv_id d \<Longrightarrow> R"
  by (metis image_eqI)

lemma new_row:
  assumes "numbering_ok rg ds" "p \<in> set rg" "dc_issuer d = Some (ip_id p)" "iv_number d = None"
    and "iv_id d \<notin> iv_id ` set ds"
  shows "numbering_ok rg (ds @ [d])"
proof (rule keep_row_unnumbered [OF assms(1) replaces_append])
  show "doc_ok rg d" by (rule doc_okI [OF assms(2)]) (use assms in auto)
qed (use assms numbering_okD(3) [OF assms(1)] no_row [OF assms(5)] in auto)

lemma new_number:
  assumes ok: "numbering_ok rg ds" and p: "p \<in> set rg" and t: "takes p p' s" "fills d s"
    and d: "dc_issuer d = Some (ip_id p)" "\<not> unissued d" "iv_id d \<notin> iv_id ` set ds"
  shows "numbering_ok (put_profile p' rg) (ds @ [d])"
  by (rule take_number [OF ok replaces_append [OF numbering_okD(3) [OF ok] d(3)] t(1) p t(2) d(1,2)])
     (rule no_row [OF d(3)])

lemma new_invoice:
  assumes ok: "numbering_ok rg ds" and p: "p \<in> set rg"
    and b: "build_invoice i p body partner terms today allocate lc = (d, p')"
    and lc: "lc = (if allocate then LIssued else LDraft)"
    and g: "good_date today" "\<And>t. bd_issue body = Some t \<Longrightarrow> good_date t"
    and d: "iv_id d' = i" "dc_issuer d' = dc_issuer d" "iv_number d' = iv_number d"
      "iv_issue_date d' = iv_issue_date d" "iv_lifecycle d' = iv_lifecycle d" and i: "i \<notin> iv_id ` set ds"
  shows "numbering_ok (if allocate then put_profile p' rg else rg) (ds @ [d'])"
proof -
  note f = build_invoice_fields [OF b]
  have gd: "good_date (iv_issue_date d)" unfolding f(4) by (rule dates_good) (use g in auto)
  show ?thesis
  proof (cases allocate)
    case True
    have "numbering_ok (put_profile p' rg) (ds @ [d'])"
    proof (rule new_number [OF ok p])
      show "takes p p' (ip_prefix p, ip_next p)" using f(6) True by (simp add: takes_def)
      show "fills d' (ip_prefix p, ip_next p)" using f(6) True gd d by (simp add: fills_def)
      show "\<not> unissued d'" using f(3) lc True d by (intro issued_not_unissued) simp
    qed (use d f(2) i in auto)
    with True show ?thesis by simp
  next
    case False
    have "numbering_ok rg (ds @ [d'])" by (rule new_row [OF ok p]) (use d f(2,5) False i in auto)
    with False show ?thesis by simp
  qed
qed

lemma create_body_ok:
  assumes ok: "books_ok bk" and c: "create_body fresh i body key digest today now bk = Inr (d, bk')"
    and f: "fresh \<noteq> []" and i: "i \<notin> iv_id ` set (ib_docs bk)"
    and g: "good_date today" "\<And>t. bd_issue body = Some t \<Longrightarrow> good_date t"
  shows "books_ok bk'"
proof -
  obtain lk where lk: "resolve_links body bk = Inr lk" using c by (auto simp: create_body_def split: sum.splits)
  obtain p bk1 where r: "resolve_complete_issuer fresh (bd_issuer body) bk = Inr (p, bk1)"
    using c lk by (auto simp: create_body_def split: sum.splits)
  note r1 = resolve_complete_inv [OF ok [unfolded books_ok_def] f r]
  have ok1: "numbering_ok (ib_issuers bk1) (ib_docs bk)" and p: "p \<in> set (ib_issuers bk1)"
    using r1 by (auto simp del: ball_simps)
  have lock: "lock_issuer fresh (Some (ip_id p)) (ib_issuers bk1) = (p, ib_issuers bk1)"
    using lock_named(1) [OF numbering_okD(1) [OF ok1] p numbering_okD(2) [OF ok1 p]] .
  have bd: "bd_issue (lk_body lk) = bd_issue body"
    using lk by (auto simp: resolve_links_def prefill_def Let_def split: if_splits option.splits sum.splits)
  define allocate where "allocate = (\<not> bd_draft body)"
  obtain e p' where b: "build_invoice i p (lk_body lk) (lk_partner lk) (lk_terms lk) today allocate
      (if allocate then LIssued else LDraft) = (e, p')" by force
  have docs: "ib_docs bk' = ib_docs bk @ [d]"
    and rg: "ib_issuers bk' = (if allocate then put_profile p' (ib_issuers bk1) else ib_issuers bk1)"
    and fields: "iv_id d = iv_id e" "dc_issuer d = dc_issuer e" "iv_number d = iv_number e"
      "iv_issue_date d = iv_issue_date e" "iv_lifecycle d = iv_lifecycle e"
    using c b r1 by (auto simp: create_body_def lk r lock allocate_def Let_def split: if_splits sum.splits
      dest!: insert_doc_inv)
  note e = build_invoice_fields [OF b]
  show ?thesis
    unfolding books_ok_def docs rg
    by (rule new_invoice [OF ok1 p b refl g(1)]) (use fields e(1) i g(2) bd in auto)
qed

lemma same_row_numbered:
  assumes ok: "numbering_ok rg ds" and x: "x \<in> set ds" and i: "iv_id d = iv_id x"
    and k: "iv_number d = iv_number x" "iv_issue_date d = iv_issue_date x" "dc_issuer d = dc_issuer x"
    and u: "unissued d \<longrightarrow> iv_number d = None"
  shows "numbering_ok rg (map (\<lambda>y. if iv_id y = iv_id d then d else y) ds)"
  by (rule keep_row_numbered [OF ok replaces_map [OF numbering_okD(3) [OF ok] x] x _ k u]) (simp_all only: i)

lemma same_row_unnumbered:
  assumes ok: "numbering_ok rg ds" and x: "x \<in> set ds" "iv_number x = None" and i: "iv_id d = iv_id x"
    and p: "p \<in> set rg" "dc_issuer d = Some (ip_id p)" and n: "iv_number d = None"
  shows "numbering_ok rg (map (\<lambda>y. if iv_id y = iv_id d then d else y) ds)"
proof (rule keep_row_unnumbered [OF ok replaces_map [OF numbering_okD(3) [OF ok] x(1)] _ n])
  show "doc_ok rg d" by (rule doc_okI [OF p]) (use n in auto)
  show "iv_number y = None" if "y \<in> set ds" "iv_id y = iv_id d" for y
    using key_unique [OF numbering_okD(3) [OF ok] that(1) x(1)] that(2) i x(2) by simp
qed (simp add: i)

lemma unissued_unnumbered:
  "numbering_ok rg ds \<Longrightarrow> d \<in> set ds \<Longrightarrow> unissued d \<Longrightarrow> iv_number d = None"
  by (rule doc_okE [OF numbering_okD(4)]) auto

lemma edit_body_ok:
  assumes ok: "books_ok bk" and c: "edit_body fresh i body today bk = Inr (d', bk')" and f: "fresh \<noteq> []"
  shows "books_ok bk'"
proof -
  obtain d where d: "get_doc i bk = Some d" "issued_is_editable (lifecycle_of (receivable d))"
    using c by (auto simp: edit_body_def split: option.splits if_splits)
  obtain lk where lk: "resolve_links body bk = Inr lk" using c d by (auto simp: edit_body_def split: sum.splits)
  obtain p bk1 where r: "resolve_complete_issuer fresh (or_else (bd_issuer body) (dc_issuer d)) bk = Inr (p, bk1)"
    using c d lk by (auto simp: edit_body_def split: sum.splits)
  note r1 = resolve_complete_inv [OF ok [unfolded books_ok_def] f r]
  obtain e p' where b: "build_invoice i p (lk_body lk) (lk_partner lk) (lk_terms lk) today False LDraft = (e, p')" by force
  note e = build_invoice_fields [OF b]
  note m = get_doc_mem [OF d(1)]
  have n: "iv_number d = None"
    using unissued_unnumbered [OF ok [unfolded books_ok_def]] m d(2) by (simp add: unissued_def issued_is_editable_def)
  have d': "d' = (copy_draft e d)\<lparr>dc_customer := map_option cu_id (lk_customer lk)\<rparr>"
    and bk': "ib_docs bk' = map (\<lambda>y. if iv_id y = iv_id d' then d' else y) (ib_docs bk)" "ib_issuers bk' = ib_issuers bk1"
    using c r1 d by (auto simp: edit_body_def lk r b Let_def split: sum.splits dest!: put_doc_inv)
  have ok1: "numbering_ok (ib_issuers bk1) (ib_docs bk)" using r1 by (auto simp del: ball_simps)
  have "iv_id d' = iv_id d" "dc_issuer d' = Some (ip_id p)" "iv_number d' = None" "p \<in> set (ib_issuers bk1)"
    "d \<in> set (ib_docs bk)"
    using m r1 e(2) n by (simp_all add: d' copy_draft_def)
  then show ?thesis
    unfolding books_ok_def bk' using same_row_unnumbered [OF ok1 _ n] by blast
qed

lemma issue_body_inv:
  assumes c: "issue_body fresh i o' key digest today now bk = Inr (d', bk')"
  shows "bk' = bk \<or> (\<exists>d p rg. get_doc i bk = Some d \<and> unissued d \<and>
    lock_issuer fresh (dc_issuer d) (ib_issuers bk) = (p, rg) \<and>
    iv_id d' = i \<and> dc_issuer d' = dc_issuer d \<and> iv_lifecycle d' = Some LIssued \<and>
    iv_issue_date d' = (case o' of None \<Rightarrow> today | Some t \<Rightarrow> t) \<and>
    iv_number d' = Some (number_in_series (ip_prefix p) (iv_issue_date d') (ip_next p)) \<and>
    ib_docs bk' = map (\<lambda>y. if iv_id y = i then d' else y) (ib_docs bk) \<and>
    ib_issuers bk' = put_profile (p\<lparr>ip_next := ip_next p + 1\<rparr>) rg)"
proof (cases "bk' = bk")
  case False
  obtain d where d: "get_doc i bk = Some d" "unissued d"
    using c False by (auto simp: issue_body_def unissued_def issued_target_for_def split: sum.splits option.splits if_splits)
  have i: "iv_id d = i" using get_doc_mem [OF d(1)] by simp
  obtain p rg where l: "lock_issuer fresh (dc_issuer d) (ib_issuers bk) = (p, rg)" by force
  define day where "day = (case o' of None \<Rightarrow> today | Some t \<Rightarrow> t)"
  define due where "due = (case iv_due_date d of None \<Rightarrow> ip_terms p | Some u \<Rightarrow> u - iv_issue_date d)"
  define e where "e = d\<lparr>iv_issue_date := day, iv_due_date := Some (day + max 0 due),
    iv_number := Some (number_in_series (ip_prefix p) day (ip_next p)), dc_issue_key := key,
    dc_issue_hash := (if key = None then None else Some digest), iv_lifecycle := Some LIssued,
    dc_issued_at := Some now\<rparr>"
  let ?bk = "put_issuer (p\<lparr>ip_next := ip_next p + 1\<rparr>) (bk\<lparr>ib_issuers := rg\<rparr>)"
  have "(case put_doc e ?bk of Inl err \<Rightarrow> Inl err
      | Inr bk2 \<Rightarrow> Inr (e, emit_event ''issued.created'' i (note_audit ''issued.issue'' i bk2))) = Inr (d', bk')"
    using c False
    unfolding issue_body_def d(1) l next_invoice_number_def Let_def prod.case day_def due_def e_def
    by (simp add: l split: sum.splits option.splits if_splits)
  then obtain bk2 where "put_doc e ?bk = Inr bk2" "d' = e"
    "bk' = emit_event ''issued.created'' i (note_audit ''issued.issue'' i bk2)" by (auto split: sum.splits)
  then have "iv_id d' = i \<and> dc_issuer d' = dc_issuer d \<and> iv_lifecycle d' = Some LIssued \<and>
    iv_issue_date d' = day \<and> iv_number d' = Some (number_in_series (ip_prefix p) (iv_issue_date d') (ip_next p)) \<and>
    ib_docs bk' = map (\<lambda>y. if iv_id y = i then d' else y) (ib_docs bk) \<and>
    ib_issuers bk' = put_profile (p\<lparr>ip_next := ip_next p + 1\<rparr>) rg"
    using i by (simp add: e_def put_doc_inv)
  with d l show ?thesis unfolding day_def by blast
qed simp

lemma issue_body_ok:
  assumes ok: "books_ok bk" and c: "issue_body fresh i o' key digest today now bk = Inr (d', bk')"
    and g: "good_date today" "\<And>t. o' = Some t \<Longrightarrow> good_date t"
  shows "books_ok bk'"
proof (cases "bk' = bk")
  case False
  then obtain d q rg where d: "get_doc i bk = Some d" "unissued d"
    and l: "lock_issuer fresh (dc_issuer d) (ib_issuers bk) = (q, rg)"
    and d': "iv_id d' = i" "dc_issuer d' = dc_issuer d" "iv_lifecycle d' = Some LIssued"
      "iv_issue_date d' = (case o' of None \<Rightarrow> today | Some t \<Rightarrow> t)"
      "iv_number d' = Some (number_in_series (ip_prefix q) (iv_issue_date d') (ip_next q))"
    and bk': "ib_docs bk' = map (\<lambda>y. if iv_id y = i then d' else y) (ib_docs bk)"
      "ib_issuers bk' = put_profile (q\<lparr>ip_next := ip_next q + 1\<rparr>) rg"
    using issue_body_inv [OF c] by blast
  note ok' = ok [unfolded books_ok_def]
  have m: "d \<in> set (ib_docs bk)" "iv_id d = i" using get_doc_mem [OF d(1)] by simp_all
  obtain p where p: "p \<in> set (ib_issuers bk)" "dc_issuer d = Some (ip_id p)"
    by (rule doc_okE [OF numbering_okD(4) [OF ok' m(1)]])
  have q: "q = p" "rg = ib_issuers bk"
    using l lock_named(1) [OF numbering_okD(1) [OF ok'] p(1) numbering_okD(2) [OF ok' p(1)]] by (simp_all add: p(2))
  have gd: "good_date (iv_issue_date d')" unfolding d'(4) by (rule dates_good) (use g in auto)
  show ?thesis
    unfolding books_ok_def bk' q d'(1) [symmetric]
  proof (rule take_number [OF ok' replaces_map [OF numbering_okD(3) [OF ok'] m(1)] _ p(1)])
    show "takes p (p\<lparr>ip_next := ip_next p + 1\<rparr>) (ip_prefix p, ip_next p)" by (simp add: takes_def)
    show "fills d' (ip_prefix p, ip_next p)" using gd d'(5) by (simp add: fills_def q)
    show "\<not> unissued d'" by (rule issued_not_unissued [OF d'(3)])
    show "iv_number x = None" if "x \<in> set (ib_docs bk)" "iv_id x = iv_id d'" for x
      using key_unique [OF numbering_okD(3) [OF ok'] that(1) m(1)] that(2) m(2) d'(1)
        unissued_unnumbered [OF ok' m(1) d(2)] by simp
    show "iv_id d = iv_id d'" by (simp only: m(2) d'(1))
    show "dc_issuer d' = Some (ip_id p)" by (simp only: d'(2) p(2))
  qed
qed (use ok in simp)

lemma duplicate_body_ok:
  assumes ok: "books_ok bk" and c: "duplicate_body fresh i new today bk = Inr (d', bk')"
    and f: "fresh \<noteq> []" and new: "new \<notin> iv_id ` set (ib_docs bk)"
  shows "books_ok bk'"
proof -
  note ok' = ok [unfolded books_ok_def]
  obtain d where d: "get_doc i bk = Some d" using c by (auto simp: duplicate_body_def split: option.splits)
  have m: "d \<in> set (ib_docs bk)" using get_doc_mem [OF d] by simp
  obtain p where p: "p \<in> set (ib_issuers bk)" "dc_issuer d = Some (ip_id p)"
    by (rule doc_okE [OF numbering_okD(4) [OF ok' m]])
  have l: "get_by_id (ip_id p) (ib_issuers bk) = Some p"
    by (rule lock_named(2) [OF numbering_okD(1) [OF ok'] p(1) numbering_okD(2) [OF ok' p(1)]])
  have "iv_id d' = new \<and> dc_issuer d' = Some (ip_id p) \<and> iv_number d' = None \<and>
      ib_docs bk' = ib_docs bk @ [d'] \<and> ib_issuers bk' = ib_issuers bk"
    using c numbering_okD(2) [OF ok' p(1)]
    by (auto simp: duplicate_body_def d p(2) l Let_def split: if_splits sum.splits dest!: insert_doc_inv)
  with new_row [OF ok' p(1)] new show ?thesis by (simp add: books_ok_def)
qed

text \<open>The moves that only restamp a document.\<close>

definition stamps :: "(document \<Rightarrow> document) \<Rightarrow> bool" where
  "stamps f \<longleftrightarrow> (\<forall>d. iv_id (f d) = iv_id d \<and> iv_number (f d) = iv_number d \<and>
     iv_issue_date (f d) = iv_issue_date d \<and> dc_issuer (f d) = dc_issuer d \<and> iv_lifecycle (f d) = iv_lifecycle d)"

lemma stampsD:
  assumes "stamps f"
  shows "iv_id (f d) = iv_id d" "iv_number (f d) = iv_number d" "iv_issue_date (f d) = iv_issue_date d"
    "dc_issuer (f d) = dc_issuer d" "iv_lifecycle (f d) = iv_lifecycle d"
  using assms by (simp_all add: stamps_def)

lemma target_unissued:
  "issued_target_for a l = Inr t \<Longrightarrow> a \<noteq> A_issue \<Longrightarrow> t \<in> {LDraft, LApproved} \<Longrightarrow> l \<in> {LDraft, LApproved}"
  by (cases a) (auto simp: issued_target_for_def split: if_splits)

lemma move_body_ok:
  assumes ok: "books_ok bk" and c: "move_body v a entry f i bk = Inr (d', bk')" and f: "stamps f" "a \<noteq> A_issue"
  shows "books_ok bk'"
proof -
  note ok' = ok [unfolded books_ok_def]
  obtain d t where d: "get_doc i bk = Some d" "issued_target_for a (lifecycle_of (receivable d)) = Inr t"
    and d': "d' = f (d\<lparr>iv_lifecycle := Some t\<rparr>)"
    and bk': "ib_docs bk' = map (\<lambda>y. if iv_id y = iv_id d' then d' else y) (ib_docs bk)" "ib_issuers bk' = ib_issuers bk"
    using c by (auto simp: move_body_def Let_def split: option.splits sum.splits dest!: put_doc_inv)
  have m: "d \<in> set (ib_docs bk)" using get_doc_mem [OF d(1)] by simp
  note k = stampsD [OF f(1), of "d\<lparr>iv_lifecycle := Some t\<rparr>"]
  have u: "unissued d' \<longrightarrow> iv_number d' = None"
  proof
    assume "unissued d'"
    then have "unissued d" using target_unissued [OF d(2) f(2)] k(5) by (simp add: unissued_def d')
    then show "iv_number d' = None" using unissued_unnumbered [OF ok' m] k(2) by (simp add: d')
  qed
  show ?thesis
    unfolding books_ok_def bk'
    by (rule same_row_numbered [OF ok' m]) (use k u in \<open>simp_all add: d'\<close>)
qed

lemma viewed_body_ok:
  assumes ok: "books_ok bk" and c: "viewed_body i now bk = Inr (d', bk')"
  shows "books_ok bk'"
proof (cases "bk' = bk")
  case False
  note ok' = ok [unfolded books_ok_def]
  obtain d where d: "get_doc i bk = Some d" and d': "d' = d\<lparr>iv_viewed_at := Some now\<rparr>"
    and bk': "ib_docs bk' = map (\<lambda>y. if iv_id y = iv_id d' then d' else y) (ib_docs bk)" "ib_issuers bk' = ib_issuers bk"
    using c False by (auto simp: viewed_body_def Let_def split: option.splits sum.splits if_splits dest!: put_doc_inv)
  have m: "d \<in> set (ib_docs bk)" using get_doc_mem [OF d] by simp
  have "unissued d' \<longleftrightarrow> unissued d" by (simp add: d' unissued_def)
  then have u: "unissued d' \<longrightarrow> iv_number d' = None" using unissued_unnumbered [OF ok' m] by (simp add: d')
  show ?thesis
    unfolding books_ok_def bk'
    by (rule same_row_numbered [OF ok' m]) (use u in \<open>simp_all add: d'\<close>)
qed (use ok in simp)

section \<open>Credit notes\<close>

text \<open>A credit note that is written: the note, its issuer, and the invoice it corrects.\<close>

lemma credit_body_inv:
  assumes c: "credit_body_of fresh i new body key digest today bk = Inr (cn', bk')" and ne: "bk' \<noteq> bk"
  obtains d raw p rg cn p' where "get_doc i bk = Some d" "credit_lines d (cb_lines body) = Inr raw"
    "require_receivable d = Inr ()" "\<not> is_credit_note (receivable d)"
    "lock_issuer fresh (dc_issuer d) (ib_issuers bk) = (p, rg)"
    "build_credit_note new p d raw (cb_issue body) (cb_reason body) today = (cn, p')"
    "cn' = cn\<lparr>dc_project := dc_project d, dc_create_key := Some key, dc_create_hash := Some digest\<rparr>"
    "cb_lines body \<noteq> None \<longrightarrow> already_credited d + iv_total cn \<le> iv_total d + 1 / 100"
    "ib_docs bk' = map (\<lambda>x. if iv_id x = i
         then d\<lparr>iv_credited_total := Some (q2 (min (already_credited d + iv_total cn) (iv_total d)))\<rparr> else x)
       (ib_docs bk) @ [cn']"
    "ib_issuers bk' = put_profile p' rg"
proof -
  obtain d where d: "get_doc i bk = Some d" using c by (auto simp: credit_body_of_def split: option.splits)
  have i: "iv_id d = i" using get_doc_mem [OF d] by simp
  have look: "issued_lookup False key (Some digest) bk = Inr None"
    using c ne by (auto simp: credit_body_of_def d split: option.splits sum.splits)
  obtain raw where raw: "credit_lines d (cb_lines body) = Inr raw" "require_receivable d = Inr ()"
    "\<not> is_credit_note (receivable d)"
    using c by (auto simp: credit_body_of_def d look split: sum.splits if_splits)
  have nb: "(cb_expected body \<noteq> None \<and> q2 (already_credited d) \<noteq> q2 (the (cb_expected body))) = False"
    using c by (auto simp: credit_body_of_def d look split: if_splits)
  have nc: "is_credit_note (receivable d) = False" using raw(3) by simp
  obtain p rg where l: "lock_issuer fresh (dc_issuer d) (ib_issuers bk) = (p, rg)" by force
  obtain cn p' where b: "build_credit_note new p d raw (cb_issue body) (cb_reason body) today = (cn, p')" by force
  define d1 where "d1 = d\<lparr>iv_credited_total := Some (q2 (min (already_credited d + iv_total cn) (iv_total d)))\<rparr>"
  define cn1 where "cn1 = cn\<lparr>dc_project := dc_project d, dc_create_key := Some key, dc_create_hash := Some digest\<rparr>"
  have e: "(if cb_lines body \<noteq> None \<and> iv_total d + 1 / 100 < already_credited d + iv_total cn
       then Inl (CreditExceeds (q2 (iv_total d - already_credited d)))
       else (case put_doc d1 (put_issuer p' (bk\<lparr>ib_issuers := rg\<rparr>)) of Inl e \<Rightarrow> Inl e
         | Inr bk2 \<Rightarrow> (case insert_doc cn1 bk2 of Inl e \<Rightarrow> Inl e
           | Inr bk3 \<Rightarrow> Inr (cn1, emit_event ''issued.credit_note'' new (note_audit ''issued.credit_note'' new bk3)))))
     = Inr (cn', bk')"
    using c
    unfolding credit_body_of_def d look option.case sum.case nb if_False raw(1,2) nc Let_def l prod.case b
      d1_def cn1_def
    by assumption
  then have cap: "cb_lines body \<noteq> None \<longrightarrow> already_credited d + iv_total cn \<le> iv_total d + 1 / 100"
    by (auto split: if_splits)
  have e2: "(case put_doc d1 (put_issuer p' (bk\<lparr>ib_issuers := rg\<rparr>)) of Inl e \<Rightarrow> Inl e
         | Inr bk2 \<Rightarrow> (case insert_doc cn1 bk2 of Inl e \<Rightarrow> Inl e
           | Inr bk3 \<Rightarrow> Inr (cn1, emit_event ''issued.credit_note'' new (note_audit ''issued.credit_note'' new bk3))))
     = Inr (cn', bk')"
    using e by (simp split: if_splits)
  obtain bk2 where w1: "put_doc d1 (put_issuer p' (bk\<lparr>ib_issuers := rg\<rparr>)) = Inr bk2"
    using e2 by (cases "put_doc d1 (put_issuer p' (bk\<lparr>ib_issuers := rg\<rparr>))") simp_all
  obtain bk3 where w2: "insert_doc cn1 bk2 = Inr bk3"
    using e2 unfolding w1 sum.case by (cases "insert_doc cn1 bk2") simp_all
  have w3: "cn' = cn1" "bk' = emit_event ''issued.credit_note'' new (note_audit ''issued.credit_note'' new bk3)"
    using e2 unfolding w1 w2 sum.case by simp_all
  have "iv_id d1 = i" by (simp add: d1_def i)
  then have "ib_docs bk' = map (\<lambda>x. if iv_id x = i then d1 else x) (ib_docs bk) @ [cn']"
    "ib_issuers bk' = put_profile p' rg"
    using put_doc_inv [OF w1] insert_doc_inv [OF w2] w3 by simp_all
  with that [OF d raw l b] cap w3(1) show thesis unfolding d1_def cn1_def by blast
qed

lemma credit_body_ok:
  assumes ok: "books_ok bk" and c: "credit_body_of fresh i new body key digest today bk = Inr (cn', bk')"
    and new: "new \<notin> iv_id ` set (ib_docs bk)"
    and g: "good_date today" "\<And>t. cb_issue body = Some t \<Longrightarrow> good_date t"
  shows "books_ok bk'"
proof (cases "bk' = bk")
  case False
  note ok' = ok [unfolded books_ok_def]
  obtain d raw q rg cn q' where d: "get_doc i bk = Some d"
    and l: "lock_issuer fresh (dc_issuer d) (ib_issuers bk) = (q, rg)"
    and b: "build_credit_note new q d raw (cb_issue body) (cb_reason body) today = (cn, q')"
    and cn': "cn' = cn\<lparr>dc_project := dc_project d, dc_create_key := Some key, dc_create_hash := Some digest\<rparr>"
    and docs: "ib_docs bk' = map (\<lambda>x. if iv_id x = i
         then d\<lparr>iv_credited_total := Some (q2 (min (already_credited d + iv_total cn) (iv_total d)))\<rparr> else x)
       (ib_docs bk) @ [cn']"
    and iss: "ib_issuers bk' = put_profile q' rg"
    by (rule credit_body_inv [OF c False]) blast
  note f = build_credit_note_fields [OF b]
  have m: "d \<in> set (ib_docs bk)" "iv_id d = i" using get_doc_mem [OF d] by simp_all
  obtain p where p: "p \<in> set (ib_issuers bk)" "dc_issuer d = Some (ip_id p)" "unissued d \<longrightarrow> iv_number d = None"
    by (rule doc_okE [OF numbering_okD(4) [OF ok' m(1)]]) blast
  have q: "q = p" "rg = ib_issuers bk"
    using l lock_named(1) [OF numbering_okD(1) [OF ok'] p(1) numbering_okD(2) [OF ok' p(1)]] by (simp_all add: p(2))
  define d1 where "d1 = d\<lparr>iv_credited_total := Some (q2 (min (already_credited d + iv_total cn) (iv_total d)))\<rparr>"
  define ds where "ds = map (\<lambda>x. if iv_id x = iv_id d1 then d1 else x) (ib_docs bk)"
  have "unissued d1 \<longleftrightarrow> unissued d" by (simp add: d1_def unissued_def)
  then have ok1: "numbering_ok (ib_issuers bk) ds"
    unfolding ds_def by (intro same_row_numbered [OF ok' m(1)]) (use p(3) in \<open>simp_all add: d1_def\<close>)
  have "map iv_id ds = map iv_id (ib_docs bk)" unfolding ds_def by simp
  then have ids: "iv_id ` set ds = iv_id ` set (ib_docs bk)" by (metis list.set_map)
  have gd: "good_date (iv_issue_date cn)" unfolding f(4) by (rule dates_good) (use g in auto)
  have "numbering_ok (put_profile q' (ib_issuers bk)) (ds @ [cn'])"
  proof (rule new_number [OF ok1 p(1)])
    show "takes p q' (ip_cn_prefix p, ip_next_cn p)" using f(6) q by (simp add: takes_def)
    show "fills cn' (ip_cn_prefix p, ip_next_cn p)" using gd f(5) q by (simp add: fills_def cn')
    show "dc_issuer cn' = Some (ip_id p)" using f(2) q by (simp add: cn')
    show "\<not> unissued cn'" using f(3) by (intro issued_not_unissued) (simp add: cn')
    show "iv_id cn' \<notin> iv_id ` set ds" unfolding ids using f(1) new by (simp add: cn')
  qed
  moreover have "ib_docs bk' = ds @ [cn']" using docs m(2) by (simp add: ds_def d1_def)
  ultimately show ?thesis by (simp add: books_ok_def iss q)
qed (use ok in simp)

lemma keyed_credit_ok:
  assumes ok: "books_ok bk" and c: "keyed_credit fresh i new body key digest today bk = Inr (cn', bk')"
    and new: "new \<notin> iv_id ` set (ib_docs bk)"
    and g: "good_date today" "\<And>t. cb_issue body = Some t \<Longrightarrow> good_date t"
  shows "books_ok bk'"
proof (cases "bk' = bk")
  case False
  then obtain k where "credit_body_of fresh i new body k digest today bk = Inr (cn', bk')"
    using c by (auto simp: keyed_credit_def split: option.splits sum.splits if_splits)
  from credit_body_ok [OF ok this new g] show ?thesis .
qed (use ok in simp)

section \<open>The registry beside the documents\<close>

text \<open>A save keeps the prefix of a series that has begun.\<close>

definition keeps_started :: "issuer_change list \<Rightarrow> issuer_profile \<Rightarrow> bool" where
  "keeps_started body p \<longleftrightarrow>
     (case apply_changes body p of
        Inl _ \<Rightarrow> True
      | Inr p' \<Rightarrow> (1 < ip_next p \<longrightarrow> ip_prefix p' = ip_prefix p) \<and>
                  (1 < ip_next_cn p \<longrightarrow> ip_cn_prefix p' = ip_cn_prefix p))"

lemma keeps_series:
  assumes "keeps_started body p" "apply_changes body p = Inr p'"
  shows "series p' = series p"
  using assms apply_changes_keeps [OF assms(2)] unfolding series_def
  by (cases "1 < ip_next p"; cases "1 < ip_next_cn p") (auto simp: keeps_started_def)

lemma save_numbering:
  assumes ok: "numbering_ok rg ds" and p: "p \<in> set rg" "keeps_started body p" and s: "save_profile body p rg = Inr rg'"
  shows "numbering_ok rg' ds"
proof -
  obtain p' where p': "apply_changes body p = Inr p'" "rg' = put_profile p' rg" by (rule save_profile_inv [OF s])
  note k = apply_changes_keeps [OF p'(1)] and e = keeps_series [OF p(2) p'(1)]
  have p'_in: "p' \<in> set (put_profile p' rg)" using put_profile_in [of p p' rg] k p(1) by simp
  show ?thesis
  proof (rule change_registry [OF ok save_profile_ok [OF numbering_okD(1) [OF ok] p(1) s]])
    fix x assume "x \<in> set rg'"
    then have x: "x = p' \<or> x \<in> set rg" using put_profile_mem unfolding p'(2) by blast
    then show "ip_id x \<noteq> []" using numbering_okD(2) [OF ok] p(1) k by metis
    show "\<exists>p \<in> set rg. s \<in> series p" if "s \<in> series x" for s using x that e p(1) by auto
  next
    fix x d assume x: "x \<in> set rg"
    show "\<exists>x' \<in> set rg'. ip_id x' = ip_id x \<and> series x \<subseteq> series x'"
    proof (cases "ip_id x = ip_id p'")
      case True
      then have "x = p" using k by (intro key_unique [OF registry_okD(1) [OF numbering_okD(1) [OF ok]] x p(1)]) simp
      with p'_in e k show ?thesis unfolding p'(2) by (intro bexI [of _ p']) simp_all
    next
      case False
      with put_profile_others [OF x] show ?thesis unfolding p'(2) by blast
    qed
  qed
qed

lemma committed_numbering:
  assumes "numbering_ok rg ds" "\<And>rg'. r = Inr rg' \<Longrightarrow> numbering_ok rg' ds"
  shows "numbering_ok (snd (committed rg r)) ds"
  using assms by (auto simp: committed_def split: sum.split)

lemma update_numbering:
  assumes ok: "numbering_ok rg ds" and f: "fresh \<noteq> []"
    and k: "keeps_started body (fst (get_or_create fresh rg))"
  shows "numbering_ok (snd (update_issuer fresh body rg)) ds"
proof -
  obtain p rg1 where g: "get_or_create fresh rg = (p, rg1)" by force
  have "numbering_ok rg1 ds" "p \<in> set rg1" using get_or_create_books [OF ok g f] by simp_all
  with save_numbering [of rg1 ds p body] k show ?thesis
    by (simp add: update_issuer_def g committed_numbering)
qed

lemma edit_registry_numbering:
  assumes ok: "numbering_ok rg ds" and k: "\<And>p. get_by_id i rg = Some p \<Longrightarrow> keeps_started body p"
  shows "numbering_ok (snd (update_registry_issuer i body rg)) ds"
proof (cases "get_by_id i rg")
  case (Some p)
  then have p: "p \<in> set rg" using get_by_id_mem by blast
  show ?thesis
    using committed_numbering [OF ok, of "save_profile body p rg"] save_numbering [OF ok p k [OF Some]]
    by (simp add: update_registry_issuer_def Some)
qed (use ok in \<open>simp add: update_registry_issuer_def\<close>)

lemma series_new [simp]: "ip_next p = 1 \<Longrightarrow> ip_next_cn p = 1 \<Longrightarrow> series p = {}"
  by (auto simp: series_def)

lemma create_registry_numbering:
  assumes ok: "numbering_ok rg ds" and f: "fresh \<noteq> []" "i \<noteq> []" and i: "i \<notin> insert fresh (ip_id ` set rg)"
  shows "numbering_ok (snd (create_registry_issuer fresh i body rg)) ds"
proof -
  obtain p rg1 where g: "get_or_create fresh rg = (p, rg1)" by force
  have ok1: "numbering_ok rg1 ds" using get_or_create_books [OF ok g f(1)] by simp
  obtain p' rg2 where c: "create_issuer i rg1 = (p', rg2)" by force
  have i1: "i \<notin> ip_id ` set rg1" using get_or_create_cases [OF g] i by auto
  note c' = create_issuer_ok [OF numbering_okD(1) [OF ok1] i1 c]
  have p': "rg2 = rg1 @ [p']" "ip_id p' = i" "ip_next p' = 1" "ip_next_cn p' = 1"
    using c by (auto simp: create_issuer_def Let_def)
  have ok2: "numbering_ok rg2 ds"
  proof (rule change_registry [OF ok1 c'(1)])
    show "ip_id x \<noteq> []" if "x \<in> set rg2" for x using that numbering_okD(2) [OF ok1] p' f(2) by auto
    show "\<exists>x' \<in> set rg2. ip_id x' = ip_id x \<and> series x \<subseteq> series x'" if "x \<in> set rg1" for x
      using that p'(1) by auto
    show "\<exists>x \<in> set rg1. s \<in> series x" if "x' \<in> set rg2" "s \<in> series x'" for x' s using that p' by auto
  qed
  have "keeps_started body p'" using p' by (simp add: keeps_started_def split: sum.split)
  from save_numbering [OF ok2 c'(2) this] ok1 show ?thesis
    by (simp add: create_registry_issuer_def g c committed_numbering)
qed

lemma default_numbering:
  assumes ok: "numbering_ok rg ds"
  shows "numbering_ok (snd (set_registry_default i rg)) ds"
  unfolding set_registry_default_def
proof (rule committed_numbering [OF ok])
  fix rg' assume s: "set_default i rg = Inr rg'"
  then have rg': "rg' = map (\<lambda>p. p\<lparr>ip_default := (ip_id p = i)\<rparr>) rg" by (auto simp: set_default_def split: option.splits)
  have e: "series (p\<lparr>ip_default := b\<rparr>) = series p" for p b by (simp add: series_def)
  show "numbering_ok rg' ds"
    by (rule change_registry [OF ok set_default_ok [OF numbering_okD(1) [OF ok] s]])
       (use numbering_okD(2) [OF ok] in \<open>auto simp: rg' e\<close>)
qed

lemma delete_numbering:
  assumes ok: "numbering_ok rg ds"
  shows "numbering_ok (snd (delete_registry_issuer i (map dc_issuer ds) rg)) ds"
proof -
  obtain e rg' where d: "delete_registry_issuer i (map dc_issuer ds) rg = (e, rg')" by force
  then have rg': "rg' = rg \<or> (Some i \<notin> dc_issuer ` set ds \<and> rg' = filter (\<lambda>x. ip_id x \<noteq> i) rg)"
    by (auto simp: delete_registry_issuer_def split: option.splits if_splits)
  have "numbering_ok rg' ds"
  proof (rule change_registry [OF ok delete_ok [OF numbering_okD(1) [OF ok] d]])
    fix x y assume x: "x \<in> set rg" "y \<in> set ds" "dc_issuer y = Some (ip_id x)"
    then have "Some (ip_id x) \<in> dc_issuer ` set ds" by (metis image_eqI)
    then have "x \<in> set rg'" using rg' x(1) by auto
    then show "\<exists>x' \<in> set rg'. ip_id x' = ip_id x \<and> series x \<subseteq> series x'" by blast
  qed (use rg' numbering_okD(2) [OF ok] in auto)
  with d show ?thesis by simp
qed

section \<open>The books over time\<close>

text \<open>
  Every request that writes documents or issuers, with new ids and dates of four-digit
  years; \<open>i_settle\<close> stands for what other components do to a document (cash, voiding,
  delivery, interest): its number, issuer and lifecycle stay.
\<close>

inductive issuing :: "issuing_books \<Rightarrow> bool" where
  i_start: "ib_docs bk = [] \<Longrightarrow> ib_issuers bk = [] \<Longrightarrow> issuing bk"
| i_create: "issuing bk \<Longrightarrow> fresh \<noteq> [] \<Longrightarrow> i \<notin> iv_id ` set (ib_docs bk) \<Longrightarrow> good_date today \<Longrightarrow>
    (\<And>t. bd_issue body = Some t \<Longrightarrow> good_date t) \<Longrightarrow>
    issuing (snd (create_issued fresh i sc body key digest today now bk))"
| i_edit: "issuing bk \<Longrightarrow> fresh \<noteq> [] \<Longrightarrow> issuing (snd (edit_draft fresh i body today bk))"
| i_approve: "issuing bk \<Longrightarrow> issuing (snd (approve_draft i now bk))"
| i_issue: "issuing bk \<Longrightarrow> fresh \<noteq> [] \<Longrightarrow> good_date today \<Longrightarrow> (\<And>t. o' = Some t \<Longrightarrow> good_date t) \<Longrightarrow>
    issuing (snd (issue_draft fresh i sc o' key digest today now bk))"
| i_duplicate: "issuing bk \<Longrightarrow> fresh \<noteq> [] \<Longrightarrow> new \<notin> iv_id ` set (ib_docs bk) \<Longrightarrow>
    issuing (snd (duplicate_invoice fresh i new today bk))"
| i_cancel: "issuing bk \<Longrightarrow> issuing (snd (cancel_draft i bk))"
| i_dispute: "issuing bk \<Longrightarrow> issuing (snd (dispute_invoice i reason now bk))"
| i_undispute: "issuing bk \<Longrightarrow> issuing (snd (undispute_invoice i bk))"
| i_write_off: "issuing bk \<Longrightarrow> issuing (snd (write_off_invoice i reason now bk))"
| i_viewed: "issuing bk \<Longrightarrow> issuing (snd (mark_viewed i now bk))"
| i_credit: "issuing bk \<Longrightarrow> fresh \<noteq> [] \<Longrightarrow> new \<notin> iv_id ` set (ib_docs bk) \<Longrightarrow> good_date today \<Longrightarrow>
    (\<And>t. cb_issue cbody = Some t \<Longrightarrow> good_date t) \<Longrightarrow>
    issuing (snd (create_credit_note fresh i new cbody key digest today bk))"
| i_issuer: "issuing bk \<Longrightarrow> fresh \<noteq> [] \<Longrightarrow> keeps_started ch (fst (get_or_create fresh (ib_issuers bk))) \<Longrightarrow>
    issuing (bk\<lparr>ib_issuers := snd (update_issuer fresh ch (ib_issuers bk))\<rparr>)"
| i_register: "issuing bk \<Longrightarrow> fresh \<noteq> [] \<Longrightarrow> i \<noteq> [] \<Longrightarrow> i \<notin> insert fresh (ip_id ` set (ib_issuers bk)) \<Longrightarrow>
    issuing (bk\<lparr>ib_issuers := snd (create_registry_issuer fresh i ch (ib_issuers bk))\<rparr>)"
| i_registry: "issuing bk \<Longrightarrow> (\<And>p. get_by_id i (ib_issuers bk) = Some p \<Longrightarrow> keeps_started ch p) \<Longrightarrow>
    issuing (bk\<lparr>ib_issuers := snd (update_registry_issuer i ch (ib_issuers bk))\<rparr>)"
| i_default: "issuing bk \<Longrightarrow> issuing (bk\<lparr>ib_issuers := snd (set_registry_default i (ib_issuers bk))\<rparr>)"
| i_delete: "issuing bk \<Longrightarrow>
    issuing (bk\<lparr>ib_issuers := snd (delete_registry_issuer i (map dc_issuer (ib_docs bk)) (ib_issuers bk))\<rparr>)"
| i_settle: "issuing bk \<Longrightarrow> stamps f \<Longrightarrow> ib_issuers bk' = ib_issuers bk \<Longrightarrow> ib_docs bk' = map f (ib_docs bk) \<Longrightarrow>
    issuing bk'"

lemma settle_ok:
  assumes ok: "numbering_ok rg ds" and f: "stamps f"
  shows "numbering_ok rg (map f ds)"
proof -
  have fl: "fills (f d) s \<longleftrightarrow> fills d s" for d s by (simp add: fills_def stampsD [OF f])
  have "unissued (f d) \<longleftrightarrow> unissued d" for d by (simp add: unissued_def stampsD [OF f])
  then have "doc_ok rg (f d)" if "d \<in> set ds" for d
    using numbering_okD(4) [OF ok that] by (simp add: doc_ok_def fl stampsD [OF f])
  moreover have "map iv_id (map f ds) = map iv_id ds" by (simp add: stampsD [OF f])
  moreover have "\<exists>d \<in> set (map f ds). fills d s \<and> (\<forall>d' \<in> set (map f ds). fills d' s \<longrightarrow> d' = d)"
    if p: "p \<in> set rg" "s \<in> series p" for p s
  proof -
    obtain d where d: "d \<in> set ds" "fills d s" "\<And>x. x \<in> set ds \<Longrightarrow> fills x s \<Longrightarrow> x = d"
      using numbering_okD(5) [OF ok p] by blast
    have "x = f d" if x: "x \<in> set (map f ds)" "fills x s" for x
    proof -
      obtain y where y: "y \<in> set ds" "x = f y" using x(1) by auto
      with x(2) have "fills y s" using fl [of y s] by simp
      from d(3) [OF y(1) this] y(2) show ?thesis by simp
    qed
    moreover have "f d \<in> set (map f ds)" "fills (f d) s" using d(1,2) fl by simp_all
    ultimately show ?thesis by blast
  qed
  moreover have "distinct (map iv_id (map f ds))"
    using numbering_okD(3) [OF ok] unfolding \<open>map iv_id (map f ds) = map iv_id ds\<close> .
  ultimately show ?thesis using numbering_okD(1,2) [OF ok] unfolding numbering_ok_def by auto
qed

lemma stamp_id: "stamps id" "stamps (\<lambda>d. d\<lparr>dc_approved_at := x\<rparr>)"
  "stamps (\<lambda>d. d\<lparr>dc_disputed_at := x, dc_dispute_reason := y\<rparr>)"
  "stamps (\<lambda>d. d\<lparr>dc_written_off_at := x, dc_writeoff_reason := y\<rparr>)"
  by (simp_all add: stamps_def)

lemma issuing_ok: "issuing bk \<Longrightarrow> books_ok bk"
proof (induction rule: issuing.induct)
  case (i_start bk)
  then show ?case by (simp add: books_ok_def numbering_ok_def registry_ok_def prefixes_apart_def one_default_def)
next
  case (i_create bk fresh i today body sc key digest now)
  have "books_ok (snd (guarded fresh (create_body fresh i body key digest today now) bk))"
  proof (rule guarded_ok [OF i_create(6,2)])
    fix bk1 x bk' assume a: "books_ok bk1" "ib_docs bk1 = ib_docs bk"
      "create_body fresh i body key digest today now bk1 = Inr (x, bk')"
    show "books_ok bk'"
      by (rule create_body_ok [OF a(1,3) i_create(2) _ i_create(4,5)]) (use a(2) i_create(3) in auto)
  qed
  then show ?case
    using i_create(6) by (auto simp: create_issued_def recover_snd split: option.split sum.split)
next
  case (i_edit bk fresh i body today)
  show ?case unfolding edit_draft_def by (rule guarded_ok [OF i_edit(3,2)]) (use edit_body_ok i_edit(2) in blast)
next
  case (i_approve bk i now)
  show ?case
    unfolding approve_draft_def
    by (rule require_enabled_ok [OF i_approve(2)]) (use move_body_ok [OF i_approve(2)] stamp_id in blast)
next
  case (i_issue bk fresh today o' i sc key digest now)
  have "books_ok (snd (guarded fresh (issue_body fresh i o' key digest today now) bk))"
    by (rule guarded_ok [OF i_issue(5,2)]) (use issue_body_ok i_issue(3,4) in blast)
  then show ?case using i_issue(5) by (simp add: issue_draft_def recover_snd)
next
  case (i_duplicate bk fresh new i today)
  show ?case
    unfolding duplicate_invoice_def
    by (rule guarded_ok [OF i_duplicate(4,2)]) (use duplicate_body_ok i_duplicate(2,3) in metis)
next
  case (i_cancel bk i)
  show ?case
    unfolding cancel_draft_def
    by (rule require_enabled_ok [OF i_cancel(2)]) (use move_body_ok [OF i_cancel(2)] stamp_id in blast)
next
  case (i_dispute bk i reason now)
  show ?case
    unfolding dispute_invoice_def
    by (rule require_enabled_ok [OF i_dispute(2)]) (use move_body_ok [OF i_dispute(2)] stamp_id in blast)
next
  case (i_undispute bk i)
  show ?case
    unfolding undispute_invoice_def
    by (rule require_enabled_ok [OF i_undispute(2)]) (use move_body_ok [OF i_undispute(2)] stamp_id in blast)
next
  case (i_write_off bk i reason now)
  show ?case
    unfolding write_off_invoice_def
    by (rule require_enabled_ok [OF i_write_off(2)]) (use move_body_ok [OF i_write_off(2)] stamp_id in blast)
next
  case (i_viewed bk i now)
  show ?case
    unfolding mark_viewed_def by (rule require_enabled_ok [OF i_viewed(2)]) (use viewed_body_ok [OF i_viewed(2)] in blast)
next
  case (i_credit bk fresh new today cbody i key digest)
  show ?case
    unfolding create_credit_note_def
    by (rule guarded_ok [OF i_credit(6,2)]) (use keyed_credit_ok i_credit(3-5) in metis)
next
  case (i_settle bk f bk')
  then show ?case using settle_ok by (simp add: books_ok_def)
qed (auto simp: books_ok_def intro: update_numbering edit_registry_numbering create_registry_numbering
    default_numbering delete_numbering)

section \<open>No number is refused\<close>

lemma check_unique_taken: "check_unique d ds = Inl NumberTaken \<Longrightarrow> clash iv_number d ds"
  by (simp add: check_unique_def split: if_splits)

lemma put_doc_taken: "put_doc d bk = Inl NumberTaken \<Longrightarrow> clash iv_number d (ib_docs bk)"
  by (rule check_unique_taken) (simp add: put_doc_def split: sum.splits)

lemma insert_doc_taken: "insert_doc d bk = Inl NumberTaken \<Longrightarrow> clash iv_number d (ib_docs bk)"
  by (rule check_unique_taken) (simp add: insert_doc_def split: sum.splits)

lemma lookup_not_taken: "issued_lookup b k e bk \<noteq> Inl NumberTaken"
  by (auto simp: issued_lookup_def split: option.splits)

lemma gate_not_taken: "enforce_partner_gate p pb \<noteq> Inl NumberTaken"
  by (auto simp: enforce_partner_gate_def Let_def split: option.splits)

lemma price_not_taken: "price_lines tcs ls \<noteq> Inl NumberTaken"
  by (induction tcs ls rule: price_lines.induct) (auto split: sum.splits if_splits option.splits)

lemma links_not_taken: "resolve_links body bk \<noteq> Inl NumberTaken"
  using price_not_taken by (auto simp: resolve_links_def Let_def split: sum.splits)

lemma complete_not_taken: "resolve_complete_issuer fresh o' bk \<noteq> Inl NumberTaken"
  by (auto simp: resolve_complete_issuer_def Let_def split: sum.splits)

lemmas not_taken = lookup_not_taken gate_not_taken links_not_taken complete_not_taken

lemma clash_number: "clash iv_number d ds \<Longrightarrow> iv_number d = iv_number e \<Longrightarrow> iv_id d = iv_id e \<Longrightarrow> clash iv_number e ds"
  by (simp add: clash_def)

lemma issue_not_taken:
  assumes ok: "books_ok bk" and g: "good_date today" "\<And>t. o' = Some t \<Longrightarrow> good_date t"
  shows "issue_body fresh i o' key digest today now bk \<noteq> Inl NumberTaken"
proof
  assume c: "issue_body fresh i o' key digest today now bk = Inl NumberTaken"
  note ok' = ok [unfolded books_ok_def]
  have look: "(case key of None \<Rightarrow> Inr None | Some k \<Rightarrow> issued_lookup True k (Some digest) bk) = Inr None"
    using c not_taken by (auto simp: issue_body_def split: sum.splits option.splits)
  obtain d where d: "get_doc i bk = Some d"
    using c look by (auto simp: issue_body_def split: option.splits)
  have m: "d \<in> set (ib_docs bk)" using get_doc_mem [OF d] by simp
  obtain p where p: "p \<in> set (ib_issuers bk)" "dc_issuer d = Some (ip_id p)"
    by (rule doc_okE [OF numbering_okD(4) [OF ok' m]])
  have l: "lock_issuer fresh (dc_issuer d) (ib_issuers bk) = (p, ib_issuers bk)"
    using lock_named(1) [OF numbering_okD(1) [OF ok'] p(1) numbering_okD(2) [OF ok' p(1)]] by (simp add: p(2))
  define day where "day = (case o' of None \<Rightarrow> today | Some t \<Rightarrow> t)"
  define due where "due = (case iv_due_date d of None \<Rightarrow> ip_terms p | Some u \<Rightarrow> u - iv_issue_date d)"
  define e where "e = d\<lparr>iv_issue_date := day, iv_due_date := Some (day + max 0 due),
    iv_number := Some (number_in_series (ip_prefix p) day (ip_next p)), dc_issue_key := key,
    dc_issue_hash := (if key = None then None else Some digest), iv_lifecycle := Some LIssued,
    dc_issued_at := Some now\<rparr>"
  have "put_doc e (put_issuer (p\<lparr>ip_next := ip_next p + 1\<rparr>) (bk\<lparr>ib_issuers := ib_issuers bk\<rparr>)) = Inl NumberTaken"
    using c not_taken
    unfolding issue_body_def look d option.case sum.case l next_invoice_number_def Let_def prod.case day_def due_def e_def
    by (auto split: sum.splits if_splits)
  then have "clash iv_number e (ib_docs bk)" using put_doc_taken by fastforce
  moreover have "\<not> clash iv_number e (ib_docs bk)"
  proof (rule taken_is_new [OF ok' _ p(1)])
    show "takes p (p\<lparr>ip_next := ip_next p + 1\<rparr>) (ip_prefix p, ip_next p)" by (simp add: takes_def)
    have "good_date day" unfolding day_def by (rule dates_good) (use g in auto)
    then show "fills e (ip_prefix p, ip_next p)" by (simp add: fills_def e_def)
  qed
  ultimately show False by simp
qed

lemma create_not_taken:
  assumes ok: "books_ok bk" and f: "fresh \<noteq> []" and g: "good_date today" "\<And>t. bd_issue body = Some t \<Longrightarrow> good_date t"
  shows "create_body fresh i body key digest today now bk \<noteq> Inl NumberTaken"
proof
  assume c: "create_body fresh i body key digest today now bk = Inl NumberTaken"
  obtain lk where lk: "resolve_links body bk = Inr lk" using c not_taken by (auto simp: create_body_def split: sum.splits)
  obtain p bk1 where r: "resolve_complete_issuer fresh (bd_issuer body) bk = Inr (p, bk1)"
    using c lk not_taken by (auto simp: create_body_def split: sum.splits)
  note r1 = resolve_complete_inv [OF ok [unfolded books_ok_def] f r]
  have ok1: "numbering_ok (ib_issuers bk1) (ib_docs bk)" and p: "p \<in> set (ib_issuers bk1)"
    using r1 by (auto simp del: ball_simps)
  have lock: "lock_issuer fresh (Some (ip_id p)) (ib_issuers bk1) = (p, ib_issuers bk1)"
    using lock_named(1) [OF numbering_okD(1) [OF ok1] p numbering_okD(2) [OF ok1 p]] .
  have bd: "bd_issue (lk_body lk) = bd_issue body"
    using lk by (auto simp: resolve_links_def prefill_def Let_def split: if_splits option.splits sum.splits)
  define allocate where "allocate = (\<not> bd_draft body)"
  obtain e p' where b: "build_invoice i p (lk_body lk) (lk_partner lk) (lk_terms lk) today allocate
      (if allocate then LIssued else LDraft) = (e, p')" by force
  note f = build_invoice_fields [OF b]
  have cl: "clash iv_number e (ib_docs bk)"
    using c b r1 not_taken
    by (auto simp: create_body_def lk r lock allocate_def Let_def split: if_splits sum.splits
      dest!: insert_doc_taken elim!: clash_number)
  have a: allocate
  proof (rule ccontr)
    assume "\<not> allocate"
    with f(5) cl show False by (simp add: clash_def)
  qed
  have gd: "good_date (iv_issue_date e)" unfolding f(4) by (rule dates_good) (use g bd in auto)
  have "\<not> clash iv_number e (ib_docs bk)"
  proof (rule taken_is_new [OF ok1 _ p])
    show "takes p p' (ip_prefix p, ip_next p)" using f(6) [OF a] by (simp add: takes_def)
    show "fills e (ip_prefix p, ip_next p)" using f(6) [OF a] gd by (simp add: fills_def)
  qed
  with cl show False by simp
qed

lemma guarded_not_taken:
  assumes "books_ok bk" "fresh \<noteq> []" "\<And>bk1. books_ok bk1 \<Longrightarrow> h bk1 \<noteq> Inl NumberTaken"
  shows "fst (guarded fresh h bk) \<noteq> Inl NumberTaken"
proof (cases "guard fresh bk")
  case (Pair e bk1)
  have "e \<noteq> Some NumberTaken" using Pair by (auto simp: guard_def Let_def split: if_splits prod.splits)
  then show ?thesis
    using assms(3) [OF guard_books(1) [OF assms(1) Pair assms(2)]]
    by (auto simp: guarded_def Pair answer_def split: option.split sum.split)
qed

lemma recover_not_taken: "fst r \<noteq> Inl NumberTaken \<Longrightarrow> fst (recover b key digest r) \<noteq> Inl NumberTaken"
  using lookup_not_taken by (auto simp: recover_def split: prod.splits sum.splits option.splits)

lemma numbering_facts:
  assumes run: "issuing bk"
  shows "p \<in> set (ib_issuers bk) \<Longrightarrow> 1 \<le> n \<Longrightarrow> n < ip_next p \<Longrightarrow>
      \<exists>!d. d \<in> set (ib_docs bk) \<and> iv_number d = Some (number_in_series (ip_prefix p) (iv_issue_date d) n)"
    and "p \<in> set (ib_issuers bk) \<Longrightarrow> 1 \<le> n \<Longrightarrow> n < ip_next_cn p \<Longrightarrow>
      \<exists>!d. d \<in> set (ib_docs bk) \<and> iv_number d = Some (number_in_series (ip_cn_prefix p) (iv_issue_date d) n)"
    and "d \<in> set (ib_docs bk) \<Longrightarrow> d' \<in> set (ib_docs bk) \<Longrightarrow> iv_number d \<noteq> None \<Longrightarrow> iv_number d = iv_number d' \<Longrightarrow> d = d'"
    and "fresh \<noteq> [] \<Longrightarrow> good_date today \<Longrightarrow> (\<And>t. bd_issue body = Some t \<Longrightarrow> good_date t) \<Longrightarrow>
      fst (create_issued fresh i sc body key digest today now bk) \<noteq> Inl NumberTaken"
    and "fresh \<noteq> [] \<Longrightarrow> good_date today \<Longrightarrow> (\<And>t. o' = Some t \<Longrightarrow> good_date t) \<Longrightarrow>
      fst (issue_draft fresh i sc o' key digest today now bk) \<noteq> Inl NumberTaken"
proof -
  have ok: "numbering_ok (ib_issuers bk) (ib_docs bk)" using issuing_ok [OF run] by (simp add: books_ok_def)
  have one: "\<exists>!d. d \<in> set (ib_docs bk) \<and> iv_number d = Some (number_in_series pre (iv_issue_date d) n)"
    if s: "p \<in> set (ib_issuers bk)" "(pre, n) \<in> series p" for p pre n
  proof -
    obtain d where d: "d \<in> set (ib_docs bk)" "fills d (pre, n)" using numbering_okD(5) [OF ok s] by blast
    have "x = d" if x: "x \<in> set (ib_docs bk)" "iv_number x = Some (number_in_series pre (iv_issue_date x) n)" for x
    proof -
      obtain s' where "iv_number x = None \<or> fills x s'" by (rule doc_okE [OF numbering_okD(4) [OF ok x(1)]]) blast
      then have "fills x (pre, n)" using x(2) by (simp add: fills_def)
      then show ?thesis using numbering_okD(5) [OF ok s] d x(1) by blast
    qed
    moreover have "iv_number d = Some (number_in_series pre (iv_issue_date d) n)" using d(2) by (simp add: fills_def)
    ultimately show ?thesis using d(1) by blast
  qed
  show "p \<in> set (ib_issuers bk) \<Longrightarrow> 1 \<le> n \<Longrightarrow> n < ip_next p \<Longrightarrow>
      \<exists>!d. d \<in> set (ib_docs bk) \<and> iv_number d = Some (number_in_series (ip_prefix p) (iv_issue_date d) n)"
    by (rule one [of p]) (auto simp: series_def)
  show "p \<in> set (ib_issuers bk) \<Longrightarrow> 1 \<le> n \<Longrightarrow> n < ip_next_cn p \<Longrightarrow>
      \<exists>!d. d \<in> set (ib_docs bk) \<and> iv_number d = Some (number_in_series (ip_cn_prefix p) (iv_issue_date d) n)"
    by (rule one [of p]) (auto simp: series_def)
  show "d \<in> set (ib_docs bk) \<Longrightarrow> d' \<in> set (ib_docs bk) \<Longrightarrow> iv_number d \<noteq> None \<Longrightarrow> iv_number d = iv_number d' \<Longrightarrow> d = d'"
    by (rule numbers_distinct [OF ok])
  have b: "books_ok bk" by (rule issuing_ok [OF run])
  show "fst (create_issued fresh i sc body key digest today now bk) \<noteq> Inl NumberTaken"
    if g: "fresh \<noteq> []" "good_date today" "\<And>t. bd_issue body = Some t \<Longrightarrow> good_date t"
  proof -
    have "fst (guarded fresh (create_body fresh i body key digest today now) bk) \<noteq> Inl NumberTaken"
      by (rule guarded_not_taken [OF b g(1)]) (use create_not_taken g in blast)
    from recover_not_taken [OF this] show ?thesis
      using lookup_not_taken by (auto simp: create_issued_def split: option.splits sum.splits)
  qed
  show "fst (issue_draft fresh i sc o' key digest today now bk) \<noteq> Inl NumberTaken"
    if g: "fresh \<noteq> []" "good_date today" "\<And>t. o' = Some t \<Longrightarrow> good_date t"
  proof -
    have "fst (guarded fresh (issue_body fresh i o' key digest today now) bk) \<noteq> Inl NumberTaken"
      by (rule guarded_not_taken [OF b g(1)]) (use issue_not_taken g in blast)
    from recover_not_taken [OF this] recover_not_taken [of "(Inl ScopeChanged, bk)"] show ?thesis
      by (auto simp: issue_draft_def)
  qed
qed


section \<open>A concrete run\<close>

definition sample_registration :: "issuer_change list" where
  "sample_registration = [SetField IF_legal_name (Some ''SIA Bid''), SetField IF_vat_number (Some ''LV1''),
     SetField IF_address_line1 (Some ''Brivibas 1''), SetField IF_city (Some ''Riga''),
     SetField IF_postal_code (Some ''LV-1001''), SetField IF_country (Some ''lv'')]"
definition no_buyer :: buyer where
  "no_buyer = \<lparr>by_name = None, by_email = None, by_vat_number = None, by_address = None, by_city = None, by_postal_code = None, by_country = None\<rparr>"
definition sample_body :: invoice_body where
  "sample_body = \<lparr>bd_issuer = None, bd_partner = None, bd_project = None, bd_customer = None,
     bd_buyer = no_buyer\<lparr>by_name := Some ''Buyer''\<rparr>, bd_issue = None, bd_supply = None, bd_due = None,
     bd_currency = None, bd_scheme = ''standard'', bd_note = None, bd_po = None, bd_exemption = None,
     bd_penalty = None, bd_lines = [\<lparr>li_description = ''Work'', li_quantity = 2, li_unit = ''C62'', li_unit_price = 50,
       li_discount = 0, li_vat_rate = 21, li_tax_code = None\<rparr>], bd_draft = False\<rparr>"
definition empty_books :: issuing_books where
  "empty_books = \<lparr>ib_enabled = True, ib_issuers = [], ib_partners = \<lparr>pb_partners = [], pb_documents = [], pb_trail = []\<rparr>,
     ib_customers = [], ib_projects = [], ib_tax_codes = [], ib_docs = [], ib_trail = [], ib_events = []\<rparr>"
definition sample_scope :: scope where "sample_scope = \<lparr>sc_org = ''o'', sc_user = ''u'', sc_expected_org = None, sc_expected_user = None\<rparr>"
definition sample_start :: issuing_books where
  "sample_start = empty_books\<lparr>ib_issuers := snd (update_issuer ''is-1'' sample_registration [])\<rparr>"
definition sample_books :: issuing_books where
  "sample_books = snd (create_issued ''is-2'' ''d-1'' sample_scope sample_body None ''h'' 739000 0 sample_start)"

lemma sample_numbers: "map ip_next (ib_issuers sample_books) = [2]" "map iv_number (ib_docs sample_books) = [Some ''INV-2024-0001'']"
  by code_simp+

lemma sample_run: "issuing sample_books"
proof -
  have "issuing empty_books" by (rule i_start) (simp_all add: empty_books_def)
  then have "issuing (empty_books\<lparr>ib_issuers := snd (update_issuer ''is-1'' sample_registration (ib_issuers empty_books))\<rparr>)"
    by (rule i_issuer) (simp, code_simp)
  then have "issuing sample_start" by (simp add: sample_start_def empty_books_def)
  then show ?thesis
    unfolding sample_books_def
    by (rule i_create) (simp, simp add: sample_start_def empty_books_def, code_simp, simp add: sample_body_def)
qed


end
