(* ===== verification/CreditNotes.thy ===== *)
theory CreditNotes
  imports Numbering
begin

text \<open>
  What the handlers of \<open>IssuingRoutes\<close> promise beyond the numbers: a credit note never
  raises the credited amount above the invoice, a full credit settles it, a keyed command
  takes effect once, nothing is issued to a partner whose papers are not signed, and
  issuing fixes the draft. The last sections give the runs where the code does not do
  what its comments say.
\<close>

section \<open>Totals depend on rates and nets\<close>

lemma buckets_cong:
  "map (\<lambda>l. (nl_vat_rate l, nl_net l)) ls = map (\<lambda>l. (nl_vat_rate l, nl_net l)) ls' \<Longrightarrow> buckets_of ls = buckets_of ls'"
proof (induction ls arbitrary: ls' rule: rev_induct)
  case (snoc l ls)
  then obtain ms m where "ls' = ms @ [m]" by (cases ls' rule: rev_cases) auto
  with snoc show ?case by (simp add: buckets_snoc)
qed simp

lemma totals_cong:
  assumes "map (\<lambda>l. (nl_vat_rate l, nl_net l)) (map (norm_of (s \<in> set ZERO_VAT_SCHEMES)) raw) =
    map (\<lambda>l. (nl_vat_rate l, nl_net l)) (map (norm_of (s \<in> set ZERO_VAT_SCHEMES)) raw')"
  shows "vr_total (vat_compute raw s) = vr_total (vat_compute raw' s)"
proof -
  have "map nl_net (map (norm_of (s \<in> set ZERO_VAT_SCHEMES)) raw) = map nl_net (map (norm_of (s \<in> set ZERO_VAT_SCHEMES)) raw')"
    using arg_cong [OF assms, of "map snd"] by (simp add: comp_def)
  with buckets_cong [OF assms] show ?thesis by (simp only: vat_compute_def Let_def vat_result.simps)
qed

text \<open>A line whose figures fit their columns is credited by the amount it was invoiced at.\<close>

definition fits :: "line_in \<Rightarrow> bool" where
  "fits l \<longleftrightarrow> on_grid 3 (li_quantity l) \<and> on_cents (li_unit_price l) \<and> on_cents (li_discount l) \<and>
     on_cents (li_vat_rate l) \<and> 0 \<le> li_discount l \<and> li_discount l \<le> 100"

lemma row_round_trip:
  assumes "fits l"
  shows "nl_net (norm_of z (raw_of_row 1 (line_row n (norm_of z (raw_of_line l)) c))) = nl_net (norm_of z (raw_of_line l))"
    "nl_vat_rate (norm_of z (raw_of_row 1 (line_row n (norm_of z (raw_of_line l)) c))) = nl_vat_rate (norm_of z (raw_of_line l))"
  using assms
  by (simp_all add: fits_def norm_of_def raw_of_row_def line_row_def raw_of_line_def Let_def q_fix q2_eq_q)

lemma rows_round_trip:
  assumes "list_all fits ls" "length cs = length ls"
  shows "map (\<lambda>l. (nl_vat_rate l, nl_net l)) (map (norm_of z) (map (raw_of_row 1) (line_rows n (map (norm_of z) (map raw_of_line ls)) cs))) =
    map (\<lambda>l. (nl_vat_rate l, nl_net l)) (map (norm_of z) (map raw_of_line ls))"
  using assms
proof (induction ls arbitrary: n cs)
  case (Cons l ls)
  then obtain c ds where "cs = c # ds" by (cases cs) auto
  with Cons show ?case by (simp add: row_round_trip)
qed simp

lemma full_credit_total:
  assumes "list_all fits ls" "length cs = length ls"
    and "dc_lines d = line_rows 1 (vr_lines (vat_compute (map raw_of_line ls) (dc_scheme d))) cs"
  shows "vr_total (vat_compute (credit_note_lines_for_full d) (dc_scheme d)) =
    vr_total (vat_compute (map raw_of_line ls) (dc_scheme d))"
  unfolding credit_note_lines_for_full_def assms(3)
  by (rule totals_cong) (use rows_round_trip [OF assms(1,2)] in \<open>simp add: vat_compute_def Let_def\<close>)

section \<open>Credit notes\<close>

lemma vr_total_cents [simp]: "on_cents (vr_total (vat_compute raw s))"
  by (simp add: vat_compute_def Let_def)

lemma guarded_inv:
  assumes "guarded fresh h bk = (Inr x, bk')"
  obtains bk1 where "h bk1 = Inr (x, bk')" "ib_docs bk1 = ib_docs bk" "ib_partners bk1 = ib_partners bk"
proof -
  obtain e bk1 where g: "guard fresh bk = (e, bk1)" by force
  then have "ib_docs bk1 = ib_docs bk" "ib_partners bk1 = ib_partners bk"
    by (auto simp: guard_def Let_def split: if_splits prod.splits)
  moreover have "h bk1 = Inr (x, bk')"
    using assms by (auto simp: guarded_def g answer_def split: option.splits sum.splits)
  ultimately show thesis using that by blast
qed

lemma lookup_mem: "issued_lookup b key e bk = Inr (Some row) \<Longrightarrow> row \<in> set (ib_docs bk)"
  by (auto simp: issued_lookup_def split: option.splits if_splits dest!: find_mem)

lemma credit_reply_inv:
  assumes c: "create_credit_note fresh i new body key digest today bk = (Inr cn, bk')"
    and n: "cn \<notin> set (ib_docs bk)"
  obtains bk1 k where "credit_body_of fresh i new body k digest today bk1 = Inr (cn, bk')" "bk' \<noteq> bk1"
    "ib_docs bk1 = ib_docs bk" "key = Some k"
proof -
  obtain bk1 where k: "keyed_credit fresh i new body key digest today bk1 = Inr (cn, bk')" "ib_docs bk1 = ib_docs bk"
    using c unfolding create_credit_note_def by (rule guarded_inv)
  then obtain ky where b: "credit_body_of fresh i new body ky digest today bk1 = Inr (cn, bk')" "key = Some ky"
    using n lookup_mem [of False _ "Some digest" bk1 cn]
    by (auto simp: keyed_credit_def split: option.splits sum.splits if_splits)
  have "bk' \<noteq> bk1"
  proof
    assume "bk' = bk1"
    have "length (ib_docs bk') = Suc (length (ib_docs bk1)) \<or> cn \<in> set (ib_docs bk1)"
      using b lookup_mem [of False ky "Some digest" bk1]
      by (auto simp: credit_body_of_def Let_def split: option.splits sum.splits if_splits prod.splits
          dest!: put_doc_inv insert_doc_inv)
    with n k(2) \<open>bk' = bk1\<close> show False by simp
  qed
  with b k(2) that show thesis by blast
qed

lemma lock_mem: "lock_issuer fresh o' rg = (p, rg') \<Longrightarrow> p \<in> set rg'"
  using get_or_create_cases [of fresh rg p rg'] get_by_id_mem [of "the o'" rg p]
  by (auto simp: lock_issuer_def split: option.splits if_splits)

lemma get_doc_cong: "ib_docs bk1 = ib_docs bk \<Longrightarrow> get_doc i bk1 = get_doc i bk"
  by (simp add: get_doc_def)

text \<open>
  C23: a credit note is bounded. Whenever a credit note is written, it corrects a live
  invoice, carries a number of its own series, and is the only new document; the corrected
  invoice keeps everything but its credited total, which grows by the note and is cut at
  the invoiced total; and a note over lines the caller chose never brings the credited
  amount more than a cent above the total.
\<close>

theorem credit_note_bounded:
  assumes "create_credit_note fresh i new body key digest today bk = (Inr cn, bk')" "cn \<notin> set (ib_docs bk)"
  shows "\<exists>d c. get_doc i bk = Some d \<and> require_receivable d = Inr () \<and> \<not> is_credit_note (receivable d) \<and>
    iv_doc_type cn = DocCreditNote \<and> dc_corrected cn = Some i \<and>
    (\<exists>p \<in> set (ib_issuers bk'). iv_number cn = Some (number_in_series (ip_cn_prefix p) (iv_issue_date cn) (ip_next_cn p - 1))) \<and>
    ib_docs bk' = map (\<lambda>x. if iv_id x = i then d\<lparr>iv_credited_total := Some c\<rparr> else x) (ib_docs bk) @ [cn] \<and>
    c = q2 (min (already_credited d + iv_total cn) (iv_total d)) \<and> (on_cents (iv_total d) \<longrightarrow> c \<le> iv_total d) \<and>
    (cb_lines body \<noteq> None \<longrightarrow> already_credited d + iv_total cn \<le> iv_total d + 1 / 100)"
proof -
  obtain bk1 k where b: "credit_body_of fresh i new body k digest today bk1 = Inr (cn, bk')" "bk' \<noteq> bk1"
    and s: "ib_docs bk1 = ib_docs bk" by (rule credit_reply_inv [OF assms])
  obtain d raw p rg cn0 p' where d: "get_doc i bk1 = Some d" "require_receivable d = Inr ()"
      "\<not> is_credit_note (receivable d)"
    and l: "lock_issuer fresh (dc_issuer d) (ib_issuers bk1) = (p, rg)" and iss: "ib_issuers bk' = put_profile p' rg"
    and f: "build_credit_note new p d raw (cb_issue body) (cb_reason body) today = (cn0, p')"
    and cn: "cn = cn0\<lparr>dc_project := dc_project d, dc_create_key := Some k, dc_create_hash := Some digest\<rparr>"
    and cap: "cb_lines body \<noteq> None \<longrightarrow> already_credited d + iv_total cn0 \<le> iv_total d + 1 / 100"
    and docs: "ib_docs bk' = map (\<lambda>x. if iv_id x = i
         then d\<lparr>iv_credited_total := Some (q2 (min (already_credited d + iv_total cn0) (iv_total d)))\<rparr> else x)
       (ib_docs bk1) @ [cn]"
    by (rule credit_body_inv [OF b]) blast
  note f' = build_credit_note_fields [OF f]
  have i: "iv_id d = i" using get_doc_mem [OF d(1)] by simp
  have "q2 (min x (iv_total d)) \<le> iv_total d" if "on_cents (iv_total d)" for x
    using cents.rnd_mono [of "min x (iv_total d)" "iv_total d"] cents.rnd_fix [OF that] by simp
  moreover have "\<exists>p \<in> set (ib_issuers bk').
      iv_number cn = Some (number_in_series (ip_cn_prefix p) (iv_issue_date cn) (ip_next_cn p - 1))"
    using put_profile_in [OF _ lock_mem [OF l], of p'] f'(5,6) by (intro bexI [of _ p']) (simp_all add: iss cn)
  moreover have "iv_doc_type cn = DocCreditNote" "dc_corrected cn = Some i" "iv_total cn0 = iv_total cn"
    using f'(8,9) i by (simp_all add: cn)
  ultimately show ?thesis
    using d cap docs s unfolding get_doc_cong [OF s] by auto
qed


section \<open>Where the remainder overshoots\<close>

text \<open>
  The note over the remaining part scales the unit prices and rounds every line. For a
  document of many small lines the rounding adds up.
\<close>

definition cent_line :: "issued_line \<Rightarrow> bool" where
  "cent_line l \<longleftrightarrow> il_quantity l = 1 \<and> il_unit_price l = 1 / 100 \<and> il_discount l = 0 \<and> il_vat_rate l = 0"

lemma half_cent: "q2 (1 / 200) = 1 / 100"
  by (simp add: q2_def half_up_def)

lemma cent_line_half:
  "cent_line l \<Longrightarrow> nl_net (norm_of z (raw_of_row (1 / 2) l)) = 1 / 100 \<and> nl_vat_rate (norm_of z (raw_of_row (1 / 2) l)) = 0"
proof -
  assume "cent_line l"
  then have e: "il_quantity l = 1" "il_unit_price l = 1 / 100" "il_discount l = 0" "il_vat_rate l = 0"
    unfolding cent_line_def by blast+
  show ?thesis by (simp add: norm_of_def raw_of_row_def Let_def e half_cent)
qed

lemma buckets_one_rate:
  "ls \<noteq> [] \<Longrightarrow> (\<And>l. l \<in> set ls \<Longrightarrow> nl_vat_rate l = 0 \<and> nl_net l = c) \<Longrightarrow>
   buckets_of ls = [\<lparr>rb_rate = 0, rb_base = of_nat (length ls) * c, rb_vat = 0\<rparr>]"
proof (induction ls rule: rev_induct)
  case (snoc l ls)
  show ?case
  proof (cases "ls = []")
    case True
    with snoc.prems show ?thesis by (simp add: buckets_of_def)
  next
    case False
    then have "buckets_of ls = [\<lparr>rb_rate = 0, rb_base = of_nat (length ls) * c, rb_vat = 0\<rparr>]"
      using snoc by simp
    with snoc.prems(2) [of l] show ?thesis by (simp add: buckets_snoc algebra_simps)
  qed
qed simp

lemma on_cents_hundredth [simp]: "on_cents (of_nat k / 100)"
  unfolding on_grid_def by (rule exI [of _ "int k"]) simp

lemma half_credit_total:
  assumes "ls \<noteq> []" "list_all cent_line ls"
  shows "vr_total (vat_compute (map (raw_of_row (1 / 2)) ls) s) = of_nat (length ls) / 100"
proof -
  let ?z = "s \<in> set ZERO_VAT_SCHEMES" and ?n = "of_nat (length ls) / (100 :: decimal)"
  have l: "nl_vat_rate l = 0 \<and> nl_net l = 1 / 100" if "l \<in> set (map (norm_of ?z) (map (raw_of_row (1 / 2)) ls))" for l
    using that assms(2) cent_line_half by (auto simp: list_all_iff)
  have "buckets_of (map (norm_of ?z) (map (raw_of_row (1 / 2)) ls)) = [\<lparr>rb_rate = 0, rb_base = ?n, rb_vat = 0\<rparr>]"
    using buckets_one_rate [of "map (norm_of ?z) (map (raw_of_row (1 / 2)) ls)" "1 / 100"] l assms(1)
    by (simp del: map_map)
  moreover have "map nl_net (map (norm_of ?z) (map (raw_of_row (1 / 2)) ls)) = replicate (length ls) (1 / 100)"
    using l by (intro replicate_eqI) auto
  moreover have "q2 ?n = ?n" by (rule cents.rnd_fix) simp
  ultimately show ?thesis by (simp add: vat_compute_def Let_def sum_list_replicate close_bucket_def)
qed

text \<open>
  The remainder can be credited twice over. For an invoice of 2m lines of one cent
  with m cents already credited, the note without lines is for 2m cents: twice the
  uncredited remainder. The comments in the code say that it grosses to exactly the
  remainder and that this path cannot over-credit.
\<close>

theorem remainder_credit_overshoots:
  assumes lines: "list_all cent_line (dc_lines d)" "length (dc_lines d) = 2 * m" "0 < m"
    and total: "iv_total d = of_nat (2 * m) / 100" and half: "already_credited d = of_nat m / 100"
  shows "\<exists>raw. credit_lines d None = Inr raw \<and>
    iv_total (fst (build_credit_note i p d raw day nt today)) = 2 * q2 (iv_total d - already_credited d)"
proof -
  have r: "q2 (iv_total d - already_credited d) = of_nat m / 100"
    by (simp add: total half diff_divide_distrib [symmetric] cents.rnd_fix)
  have f: "of_nat m / 100 / iv_total d = 1 / (2 :: decimal)" using lines(3) by (simp add: total)
  have raw: "credit_lines d None = Inr (map (raw_of_row (1 / 2)) (dc_lines d))"
    using lines(3) unfolding credit_lines_def Let_def option.case r f by (simp add: half total f [unfolded total])
  have "dc_lines d \<noteq> []" using lines(2,3) by auto
  from half_credit_total [OF this lines(1), of "dc_scheme d"]
  have "vr_total (vat_compute (map (raw_of_row (1 / 2)) (dc_lines d)) (dc_scheme d)) = 2 * (of_nat m / 100)"
    by (simp add: lines(2))
  then have "iv_total (fst (build_credit_note i p d (map (raw_of_row (1 / 2)) (dc_lines d)) day nt today)) = 2 * (of_nat m / 100)"
    by (simp add: build_credit_note_def Let_def next_credit_note_number_def)
  with raw r show ?thesis by auto
qed

section \<open>Keyed commands\<close>

lemma find_append_new: "find P xs = None \<Longrightarrow> P x \<Longrightarrow> find P (xs @ [x]) = Some x"
  by (induction xs) (auto split: if_splits)

lemma lookup_None: "issued_lookup b key e bk = Inr None \<Longrightarrow>
    find (\<lambda>d. (if b then dc_issue_key d else dc_create_key d) = Some key) (ib_docs bk) = None"
  by (cases b) (auto simp: issued_lookup_def split: option.splits if_splits)

lemma lookup_found:
  assumes "find (\<lambda>d. (if b then dc_issue_key d else dc_create_key d) = Some key) (ib_docs bk) = Some d"
    and "(if b then dc_issue_hash d else dc_create_hash d) = Some h"
  shows "issued_lookup b key (Some h') bk = (if h' = h then Inr (Some d) else Inl CommandConflict)"
  using assms by (simp add: issued_lookup_def)

lemma lookup_hit:
  "issued_lookup b key (Some h) bk = Inr (Some d) \<Longrightarrow>
    issued_lookup b key (Some h') bk = (if h' = h then Inr (Some d) else Inl CommandConflict)"
  by (auto simp: issued_lookup_def split: option.splits if_splits)

lemma create_body_key:
  assumes "create_body fresh i body (Some k) digest today now bk = Inr (d, bk')"
  shows "dc_create_key d = Some k \<and> dc_create_hash d = Some digest \<and> ib_docs bk' = ib_docs bk @ [d]"
  using assms
  by (auto simp: create_body_def Let_def resolve_complete_issuer_def split: sum.splits if_splits prod.splits
      dest!: insert_doc_inv)

lemma recover_inv:
  assumes "recover b (Some k) h r = (Inr d, bk')"
  shows "r = (Inr d, bk') \<or> issued_lookup b k (Some h) bk' = Inr (Some d)"
  using assms by (auto simp: recover_def split: prod.splits sum.splits option.splits if_splits)

lemma create_then_lookup:
  assumes "create_issued fresh i sc body (Some k) h today now bk = (Inr d, bk')"
  shows "issued_lookup False k (Some h') bk' = (if h' = h then Inr (Some d) else Inl CommandConflict)"
proof (cases "issued_lookup False k (Some h) bk")
  case (Inl e)
  with assms show ?thesis by (auto simp: create_issued_def split: if_splits)
next
  case (Inr r)
  note look = Inr
  show ?thesis
  proof (cases r)
    case (Some row)
    with assms look have "row = d" "bk' = bk" by (auto simp: create_issued_def split: if_splits)
    with look Some lookup_hit show ?thesis by simp
  next
    case None
    then have "recover False (Some k) h (guarded fresh (create_body fresh i body (Some k) h today now) bk) = (Inr d, bk')"
      using assms look by (simp add: create_issued_def split: if_splits)
    then consider "guarded fresh (create_body fresh i body (Some k) h today now) bk = (Inr d, bk')"
      | "issued_lookup False k (Some h) bk' = Inr (Some d)"
      using recover_inv by blast
    then show ?thesis
    proof cases
      case 1
      then obtain bk1 where b: "create_body fresh i body (Some k) h today now bk1 = Inr (d, bk')"
        and s: "ib_docs bk1 = ib_docs bk" by (rule guarded_inv)
      note c = create_body_key [OF b]
      have "find (\<lambda>d. dc_create_key d = Some k) (ib_docs bk) = None"
        using lookup_None [of False k "Some h" bk] look None by simp
      then have "find (\<lambda>d. dc_create_key d = Some k) (ib_docs bk') = Some d"
        using c s by (simp add: find_append_new)
      with lookup_found [of False k bk' d h h'] c show ?thesis by simp
    qed (rule lookup_hit)
  qed
qed

text \<open>
  C25: a keyed create command takes effect once. After it has answered with a document,
  the same key with the same digest answers with that document and changes nothing,
  whatever else the second request carries; with another digest it is refused and changes
  nothing; and reading the command gives the document.
\<close>

theorem create_command_once:
  assumes "create_issued fresh i sc body (Some k) h today now bk = (Inr d, bk')" "\<not> scope_changed sc'"
  shows "create_issued fresh' i' sc' body' (Some k) h today' now' bk' = (Inr d, bk') \<and>
    (h' \<noteq> h \<longrightarrow> create_issued fresh' i' sc' body' (Some k) h' today' now' bk' = (Inl CommandConflict, bk')) \<and>
    get_invoice_command k False bk' = Inr d"
proof -
  note l = create_then_lookup [OF assms(1)]
  have "find (\<lambda>d. dc_create_key d = Some k) (ib_docs bk') = Some d"
    using l [of h] by (auto simp: issued_lookup_def split: option.splits if_splits)
  then have "get_invoice_command k False bk' = Inr d" by (simp add: get_invoice_command_def issued_lookup_def)
  with l assms(2) show ?thesis by (simp add: create_issued_def)
qed

section \<open>The partner gate\<close>

lemma gate_ready: "enforce_partner_gate (Some p) pb = Inr u \<Longrightarrow> is_ready pb p"
  by (simp add: enforce_partner_gate_def is_ready_def Let_def split: if_splits)

lemma create_gate:
  assumes "create_body fresh i body key digest today now bk = Inr (d, bk')" "iv_number d \<noteq> None"
  shows "\<exists>p. enforce_partner_gate p (ib_partners bk) = Inr () \<and> iv_partner d = map_option pt_id p \<and>
    (p = None \<or> p = get_partner (the (iv_partner d)) (ib_partners bk))"
proof -
  obtain lk where lk: "resolve_links body bk = Inr lk" using assms(1) by (auto simp: create_body_def split: sum.splits)
  have p: "lk_partner lk = None \<or> (\<exists>q. lk_partner lk = Some q \<and> get_partner (pt_id q) (ib_partners bk) = Some q)"
  proof (cases "lk_partner lk")
    case (Some q)
    have "lk_partner lk = (if truthy (bd_partner body) then get_partner (the (bd_partner body)) (ib_partners bk) else None)"
      using lk by (auto simp: resolve_links_def Let_def split: if_splits sum.splits option.splits)
    with Some have g: "get_partner (the (bd_partner body)) (ib_partners bk) = Some q" by (simp split: if_splits)
    then have "pt_id q = the (bd_partner body)" unfolding get_partner_def by (auto dest!: find_mem)
    with Some g show ?thesis by simp
  qed simp
  obtain q bk1 where r: "resolve_complete_issuer fresh (bd_issuer body) bk = Inr (q, bk1)"
    using assms(1) lk by (auto simp: create_body_def split: sum.splits)
  then have s: "ib_partners bk1 = ib_partners bk"
    by (auto simp: resolve_complete_issuer_def Let_def split: sum.splits if_splits)
  have nd: "\<not> bd_draft body"
    using assms lk r
    by (auto simp: create_body_def Let_def build_invoice_def split: sum.splits if_splits prod.splits)
  then have "enforce_partner_gate (lk_partner lk) (ib_partners bk) = Inr ()" "iv_partner d = map_option pt_id (lk_partner lk)"
    using assms(1) lk r s
    by (auto simp: create_body_def Let_def build_invoice_def split: sum.splits if_splits prod.splits)
  with p show ?thesis by auto
qed

text \<open>
  C26: nothing is issued past the partner gate. A document that a create or an issue
  request numbers for a partner finds, for every kind of paper the partner requires, a
  signed document of that kind on file.
\<close>

theorem issued_behind_gate:
  assumes reply: "create_issued fresh i sc body key h today now bk = (Inr d, bk') \<or>
      issue_draft fresh i sc o' key h today now bk = (Inr d, bk')"
    and new: "d \<notin> set (ib_docs bk)" "iv_number d \<noteq> None"
    and p: "iv_partner d = Some j" "j \<noteq> []" "get_partner j (ib_partners bk) = Some p" and k: "kind \<in> set (required_kinds p)"
  shows "\<exists>f \<in> set (pb_documents (ib_partners bk)). pd_partner f = pt_id p \<and> pd_kind f = kind \<and> pd_status f = ''signed''"
proof -
  have hit: False if "issued_lookup b ky (Some h) bk1 = Inr (Some d)" "ib_docs bk1 = ib_docs bk" for b ky bk1
    using lookup_mem [OF that(1)] that(2) new(1) by simp
  have guards: "ib_docs (snd (guarded fresh g bk)) = ib_docs bk" if "fst (guarded fresh g bk) = Inl e" for g :: "issuing_books \<Rightarrow> document body_result" and e
    using that by (auto simp: guarded_def answer_def guard_def Let_def split: prod.splits option.splits sum.splits if_splits)
  have rec: "r = (Inr d, bk')" if "recover b key h r = (Inr d, bk')" "\<And>e. fst r = Inl e \<Longrightarrow> ib_docs (snd r) = ib_docs bk" for b r
    using that hit by (auto simp: recover_def split: prod.splits sum.splits option.splits if_splits)
  have "is_ready (ib_partners bk) p"
    using reply
  proof
    assume c: "create_issued fresh i sc body key h today now bk = (Inr d, bk')"
    then have "recover False key h (guarded fresh (create_body fresh i body key h today now) bk) = (Inr d, bk')"
      using hit by (auto simp: create_issued_def split: if_splits sum.splits option.splits)
    then have "guarded fresh (create_body fresh i body key h today now) bk = (Inr d, bk')" by (rule rec) (rule guards)
    then obtain bk1 where b: "create_body fresh i body key h today now bk1 = Inr (d, bk')" and s: "ib_partners bk1 = ib_partners bk"
      by (rule guarded_inv)
    from create_gate [OF b new(2)] p s show ?thesis by (auto intro: gate_ready)
  next
    assume c: "issue_draft fresh i sc o' key h today now bk = (Inr d, bk')"
    then have "(if scope_changed sc then (Inl ScopeChanged, bk)
        else guarded fresh (issue_body fresh i o' key h today now) bk) = (Inr d, bk')"
      unfolding issue_draft_def by (rule rec) (auto simp: guards split: if_splits)
    then have "guarded fresh (issue_body fresh i o' key h today now) bk = (Inr d, bk')" by (simp split: if_splits)
    then obtain bk1 where b: "issue_body fresh i o' key h today now bk1 = Inr (d, bk')"
      and s: "ib_docs bk1 = ib_docs bk" "ib_partners bk1 = ib_partners bk"
      by (rule guarded_inv)
    have "enforce_partner_gate (get_partner j (ib_partners bk)) (ib_partners bk) = Inr ()"
      using b s p hit [of True] new(1) get_doc_mem [of i bk1 d]
      by (auto simp: issue_body_def Let_def split: option.splits sum.splits if_splits prod.splits)
    then show ?thesis using p(3) by (auto intro: gate_ready)
  qed
  with k show ?thesis by (auto simp: ready_iff)
qed

section \<open>Copies\<close>

lemma duplicate_inv:
  assumes "duplicate_invoice fresh i new today bk = (Inr d, bk1)" "get_doc i bk = Some src" "new \<notin> iv_id ` set (ib_docs bk)"
  shows "get_doc new bk1 = Some d \<and> dc_scheme d = dc_scheme src \<and> dc_exemption d = None"
proof -
  obtain bk0 where b: "duplicate_body fresh i new today bk0 = Inr (d, bk1)" and s: "ib_docs bk0 = ib_docs bk"
    using assms(1) unfolding duplicate_invoice_def by (rule guarded_inv)
  have g: "get_doc i bk0 = Some src" using assms(2) s by (simp add: get_doc_def)
  have "ib_docs bk1 = ib_docs bk @ [d] \<and> iv_id d = new \<and> dc_scheme d = dc_scheme src \<and> dc_exemption d = None"
    using b g s by (auto simp: duplicate_body_def Let_def split: if_splits sum.splits prod.splits dest!: insert_doc_inv)
  moreover have "find (\<lambda>d. iv_id d = new) (ib_docs bk) = None" using assms(3) by (auto simp: find_None_iff)
  ultimately show ?thesis by (simp add: get_doc_def find_append_new)
qed

lemma issue_unkeyed_inv:
  assumes "issue_draft fresh i sc o' None dg today now bk = (Inr e, bk')" "get_doc i bk = Some d"
  shows "\<exists>n. iv_id e = i \<and> iv_number e = Some n \<and> iv_lifecycle e = Some LIssued \<and> dc_scheme e = dc_scheme d \<and> dc_exemption e = dc_exemption d"
proof -
  have "(if scope_changed sc then (Inl ScopeChanged, bk)
        else guarded fresh (issue_body fresh i o' None dg today now) bk) = (Inr e, bk')"
    using assms(1) by (auto simp: issue_draft_def recover_def split: prod.splits sum.splits if_splits)
  then obtain bk0 where b: "issue_body fresh i o' None dg today now bk0 = Inr (e, bk')" and s: "ib_docs bk0 = ib_docs bk"
    by (auto split: if_splits elim: guarded_inv)
  have g: "get_doc i bk0 = Some d" "iv_id d = i" using assms(2) s get_doc_mem [OF assms(2)] by (simp_all add: get_doc_def)
  show ?thesis
    using b g by (auto simp: issue_body_def Let_def split: option.splits sum.splits if_splits prod.splits)
qed

lemma built_reason:
  "bd_scheme body \<in> set ZERO_VAT_SCHEMES \<Longrightarrow>
   dc_exemption (fst (build_invoice i p body partner terms today al lc)) \<noteq> None"
  by (auto simp: build_invoice_def Let_def SCHEME_NOTES_def ZERO_VAT_SCHEMES_def split: prod.splits)

text \<open>
  A copy of an untaxed invoice loses its reason. Building an invoice under a scheme
  without VAT always states a reason for the exemption; the copy made from it has none,
  and issuing the copy numbers a final invoice under the same scheme without one.
\<close>

theorem duplicate_loses_reason:
  assumes "get_doc i bk = Some src" "dc_scheme src \<in> set ZERO_VAT_SCHEMES"
    and "duplicate_invoice fresh i new today bk = (Inr d, bk1)" "new \<notin> iv_id ` set (ib_docs bk)"
    and "issue_draft fresh' new sc o' None dg today' now bk1 = (Inr e, bk2)"
  shows "iv_id e = new \<and> iv_lifecycle e = Some LIssued \<and> iv_number e \<noteq> None \<and>
    dc_scheme e \<in> set ZERO_VAT_SCHEMES \<and> dc_exemption e = None"
  using duplicate_inv [OF assms(3,1,4)] issue_unkeyed_inv [OF assms(5)] assms(2) by auto

section \<open>Concrete runs\<close>

lemma reply_answered: "\<not> isl (fst r) \<Longrightarrow> \<exists>d bk. r = (Inr d, bk)"
  by (cases r; cases "fst r") auto

definition sample_credit :: credit_body where
  "sample_credit = \<lparr>cb_expected = None, cb_lines = None, cb_issue = None, cb_reason = None\<rparr>"
definition sample_credited :: "document reply" where
  "sample_credited = create_credit_note ''is-2'' ''d-1'' ''c-1'' sample_credit (Some ''key-0001'') ''h'' 739001 sample_books"

lemma sample_invoice:
  obtains d where "get_doc ''d-1'' sample_books = Some d" "already_credited d = 0" "iv_lifecycle d = Some LIssued"
    "iv_amount_paid d = Some 0" "iv_total d = 121"
    "dc_lines d = line_rows 1 (vr_lines (vat_compute (map raw_of_line (bd_lines sample_body)) (dc_scheme d))) [None]"
    "iv_total d = vr_total (vat_compute (map raw_of_line (bd_lines sample_body)) (dc_scheme d))"
proof -
  have "(case get_doc ''d-1'' sample_books of Some d \<Rightarrow> already_credited d = 0 \<and> iv_lifecycle d = Some LIssued \<and>
     iv_amount_paid d = Some 0 \<and> iv_total d = 121 | None \<Rightarrow> False)" by code_simp
  moreover have "(case get_doc ''d-1'' sample_books of Some d \<Rightarrow>
     dc_lines d = line_rows 1 (vr_lines (vat_compute (map raw_of_line (bd_lines sample_body)) (dc_scheme d))) [None] \<and>
     iv_total d = vr_total (vat_compute (map raw_of_line (bd_lines sample_body)) (dc_scheme d)) | None \<Rightarrow> False)" by code_simp
  ultimately show thesis using that by (cases "get_doc ''d-1'' sample_books") auto
qed

lemma sample_credit_run:
  obtains cn bk where "create_credit_note ''is-2'' ''d-1'' ''c-1'' sample_credit (Some ''key-0001'') ''h'' 739001 sample_books = (Inr cn, bk)"
    "iv_total cn = 121" "cn \<notin> set (ib_docs sample_books)"
proof -
  have c: "(case sample_credited of (Inr cn, _) \<Rightarrow> iv_id cn = ''c-1'' \<and> iv_total cn = 121 | _ \<Rightarrow> False)" by code_simp
  moreover have "map iv_id (ib_docs sample_books) = [''d-1'']" by code_simp
  then have "cn \<notin> set (ib_docs sample_books)" if "iv_id cn = ''c-1''" for cn using that by auto
  ultimately show thesis using that by (cases sample_credited) (auto simp: sample_credited_def split: sum.splits)
qed

theorem credit_note_bounded_witness:
  "\<exists>cn bk d. create_credit_note ''is-2'' ''d-1'' ''c-1'' sample_credit (Some ''key-0001'') ''h'' 739001 sample_books = (Inr cn, bk) \<and>
     get_doc ''d-1'' sample_books = Some d \<and> dc_corrected cn = Some ''d-1'' \<and> length (ib_docs bk) = 2"
proof -
  obtain cn bk where c: "create_credit_note ''is-2'' ''d-1'' ''c-1'' sample_credit (Some ''key-0001'') ''h'' 739001 sample_books = (Inr cn, bk)"
    "cn \<notin> set (ib_docs sample_books)" by (rule sample_credit_run)
  have "length (ib_docs sample_books) = 1" by code_simp
  with credit_note_bounded [OF c] c(1) show ?thesis by auto
qed


definition cent_document :: document where
  "cent_document = (case get_doc ''d-1'' sample_books of Some d \<Rightarrow> d\<lparr>dc_lines := replicate 2 \<lparr>il_position = 1,
     il_description = ''x'', il_quantity = 1, il_unit = ''C62'', il_unit_price = 1 / 100, il_discount = 0,
     il_vat_rate = 0, il_net = 1 / 100, il_tax_code = None\<rparr>, iv_total := 2 / 100, iv_credited_total := Some (1 / 100)\<rparr>)"

theorem remainder_credit_overshoots_witness:
  "\<exists>raw. credit_lines cent_document None = Inr raw \<and>
     iv_total (fst (build_credit_note ''c-9'' (hd (ib_issuers sample_books)) cent_document raw None None 739001)) = 2 * q2 (2 / 100 - 1 / 100)"
proof -
  obtain d where d: "get_doc ''d-1'' sample_books = Some d" by (rule sample_invoice)
  have e: "list_all cent_line (dc_lines cent_document)" "length (dc_lines cent_document) = 2 * 1"
    "iv_total cent_document = of_nat (2 * 1) / 100" "already_credited cent_document = of_nat 1 / 100"
    by (simp_all add: cent_document_def d already_credited_def cent_line_def numeral_2_eq_2)
  from remainder_credit_overshoots [OF e(1,2) _ e(3,4)] show ?thesis by (simp add: e(3,4))
qed

theorem create_command_once_witness:
  "\<exists>d bk. create_issued ''is-2'' ''d-1'' sample_scope sample_body (Some ''key-0001'') ''h'' 739000 0 sample_start = (Inr d, bk) \<and>
     create_issued ''is-3'' ''d-2'' sample_scope sample_body (Some ''key-0001'') ''h'' 739005 9 bk = (Inr d, bk) \<and>
     create_issued ''is-3'' ''d-2'' sample_scope sample_body (Some ''key-0001'') ''other'' 739005 9 bk = (Inl CommandConflict, bk)"
proof -
  have "\<not> isl (fst (create_issued ''is-2'' ''d-1'' sample_scope sample_body (Some ''key-0001'') ''h'' 739000 0 sample_start))"
    by code_simp
  then obtain d bk where "create_issued ''is-2'' ''d-1'' sample_scope sample_body (Some ''key-0001'') ''h'' 739000 0 sample_start = (Inr d, bk)"
    by (auto dest!: reply_answered)
  moreover have "\<not> scope_changed sample_scope" by (simp add: scope_changed_def sample_scope_def)
  ultimately show ?thesis using create_command_once [of _ _ _ _ "''key-0001''" "''h''"] by blast
qed

text \<open>A partner that asks for a signed contract, and has one.\<close>

definition sample_partner :: partner where
  "sample_partner = \<lparr>pt_id = ''p-1'', pt_name = ''Buyer'', pt_field = (\<lambda>_. None), pt_requires_contract = True,
     pt_requires_acceptance = False, pt_penalty_enabled = True, pt_penalty_rate = Some 10, pt_active = True\<rparr>"
definition partner_start :: issuing_books where
  "partner_start = sample_start\<lparr>ib_partners := \<lparr>pb_partners = [sample_partner], pb_documents =
     [\<lparr>pd_id = ''f-1'', pd_partner = ''p-1'', pd_kind = CONTRACT, pd_title = ''Contract'', pd_reference = None, pd_note = None,
       pd_status = ''signed'', pd_signed_by = Some ''A'', pd_signed_date = Some 738000\<rparr>], pb_trail = []\<rparr>\<rparr>"

theorem issued_behind_gate_witness:
  "\<exists>d bk. create_issued ''is-2'' ''d-1'' sample_scope (sample_body\<lparr>bd_partner := Some ''p-1''\<rparr>) None ''h'' 739000 0 partner_start = (Inr d, bk) \<and>
     (\<exists>f \<in> set (pb_documents (ib_partners partner_start)). pd_partner f = ''p-1'' \<and> pd_kind f = CONTRACT \<and> pd_status f = ''signed'')"
proof -
  let ?r = "create_issued ''is-2'' ''d-1'' sample_scope (sample_body\<lparr>bd_partner := Some ''p-1''\<rparr>) None ''h'' 739000 0 partner_start"
  have "(case ?r of (Inr d, _) \<Rightarrow> iv_partner d = Some ''p-1'' \<and> iv_number d \<noteq> None | _ \<Rightarrow> False)" by code_simp
  then obtain d bk where r: "?r = (Inr d, bk)" "iv_partner d = Some ''p-1''" "iv_number d \<noteq> None"
    by (cases ?r) (auto split: sum.splits)
  have "d \<notin> set (ib_docs partner_start)" by (simp add: partner_start_def sample_start_def empty_books_def)
  moreover have "get_partner ''p-1'' (ib_partners partner_start) = Some sample_partner" "CONTRACT \<in> set (required_kinds sample_partner)" "pt_id sample_partner = ''p-1''"
    by (simp_all add: partner_start_def get_partner_def sample_partner_def required_kinds_def)
  ultimately show ?thesis using issued_behind_gate [OF disjI1 [OF r(1)] _ r(3,2)] r(1) by auto
qed

definition exempt_books :: issuing_books where
  "exempt_books = snd (create_issued ''is-2'' ''d-1'' sample_scope (sample_body\<lparr>bd_scheme := ''exempt''\<rparr>) None ''h'' 739000 0 sample_start)"
definition exempt_copy :: "document reply" where
  "exempt_copy = duplicate_invoice ''is-2'' ''d-1'' ''d-2'' 739002 exempt_books"

theorem duplicate_loses_reason_witness:
  "\<exists>src d bk e bk'. get_doc ''d-1'' exempt_books = Some src \<and> dc_exemption src \<noteq> None \<and>
     duplicate_invoice ''is-2'' ''d-1'' ''d-2'' 739002 exempt_books = (Inr d, bk) \<and>
     issue_draft ''is-2'' ''d-2'' sample_scope None None ''h'' 739002 5 bk = (Inr e, bk') \<and> dc_exemption e = None"
proof -
  have "(case get_doc ''d-1'' exempt_books of Some src \<Rightarrow> dc_scheme src = ''exempt'' \<and> dc_exemption src \<noteq> None | None \<Rightarrow> False)" by code_simp
  then obtain src where src: "get_doc ''d-1'' exempt_books = Some src" "dc_scheme src = ''exempt''" "dc_exemption src \<noteq> None"
    by (auto split: option.splits)
  have "\<not> isl (fst exempt_copy)" by code_simp
  then obtain d bk where d: "exempt_copy = (Inr d, bk)" by (auto dest!: reply_answered)
  let ?i = "issue_draft ''is-2'' ''d-2'' sample_scope None None ''h'' 739002 5"
  have "\<not> isl (fst (?i (snd exempt_copy)))" by code_simp
  then obtain e bk' where e: "?i bk = (Inr e, bk')" unfolding d snd_conv by (auto dest!: reply_answered)
  have "map iv_id (ib_docs exempt_books) = [''d-1'']" by code_simp
  from arg_cong [OF this, of set] have "''d-2'' \<notin> iv_id ` set (ib_docs exempt_books)" by simp
  with duplicate_loses_reason [OF src(1) _ d [unfolded exempt_copy_def] _ e] src(2,3) d e src(1)
  show ?thesis by (auto simp: ZERO_VAT_SCHEMES_def exempt_copy_def)
qed

end
