(* ===== verification/Penalty.thy ===== *)
theory Penalty
  imports Numbering "HOL-Library.List_Lexorder" "HOL-Library.Char_ord"
begin

text \<open>
  \<open>services/partners.py\<close> (penalty invoicing), \<open>services/late_interest.py\<close> and the
  partner handlers of \<open>api/routes/partners.py\<close>: the interest that is still billable on a
  partner's overdue invoices, per currency, the invoice over it with the stamp it leaves
  on what it charged, and the advisory figure of an invoice. The history of an invoice
  under penalty billing is a transition system whose invariant bounds the days charged.
\<close>

section \<open>Partner handlers\<close>

datatype partner_reply_error = PartnerModuleDisabled | PartnerRefused partner_error

definition partner_route ::
  "(partner_books \<Rightarrow> partner_error + partner_books) \<Rightarrow> issuing_books \<Rightarrow> partner_reply_error + issuing_books" where
  "partner_route h bk =
     (if \<not> ib_enabled bk then Inl PartnerModuleDisabled
      else (case h (ib_partners bk) of
              Inl e \<Rightarrow> Inl (PartnerRefused e)
            | Inr pb \<Rightarrow> Inr (bk\<lparr>ib_partners := pb\<rparr>)))"

definition create_partner_route :: "partner \<Rightarrow> issuing_books \<Rightarrow> partner_reply_error + issuing_books" where
  "create_partner_route body = partner_route (\<lambda>pb. Inr (create_partner body pb))"

definition update_partner_route ::
  "ident \<Rightarrow> partner_change list \<Rightarrow> issuing_books \<Rightarrow> partner_reply_error + issuing_books" where
  "update_partner_route i body = partner_route (update_partner i body)"

definition add_document_route ::
  "ident \<Rightarrow> ident \<Rightarrow> string \<Rightarrow> string \<Rightarrow> string option \<Rightarrow> string option \<Rightarrow> issuing_books \<Rightarrow>
   partner_reply_error + issuing_books" where
  "add_document_route did i kind title reference nt = partner_route (add_document did i kind title reference nt)"

definition sign_document_route ::
  "ident \<Rightarrow> ident \<Rightarrow> string option \<Rightarrow> date option \<Rightarrow> date \<Rightarrow> issuing_books \<Rightarrow> partner_reply_error + issuing_books" where
  "sign_document_route i did signed_by on today = partner_route (sign_document i did signed_by on today)"

definition delete_document_route :: "ident \<Rightarrow> ident \<Rightarrow> issuing_books \<Rightarrow> partner_reply_error + issuing_books" where
  "delete_document_route i did = partner_route (delete_document i did)"

section \<open>What is still billable\<close>

record penalty_line =
  pl_invoice :: ident
  pl_number :: string
  pl_days :: int
  pl_outstanding :: decimal
  pl_penalty :: decimal

record penalty_summary =
  ps_currency :: string
  ps_penalty :: decimal
  ps_outstanding :: decimal
  ps_days :: int
  ps_lines :: "penalty_line list"
  ps_currencies :: "string list"

definition penalty_line_of :: "date \<Rightarrow> document \<Rightarrow> penalty_line option" where
  "penalty_line_of today d =
     (if status_of (receivable d) today \<noteq> AR_OVERDUE then None
      else (case iv_number d of
              None \<Rightarrow> None
            | Some n \<Rightarrow>
                let pen = billable_penalty_of (receivable d) today
                in if pen \<le> 0 then None
                   else Some \<lparr>pl_invoice = iv_id d, pl_number = n, pl_days = unbilled_days_of (receivable d) today,
                              pl_outstanding = outstanding_of (receivable d), pl_penalty = pen\<rparr>))"

text \<open>The buckets, as the currency of each line, in the order of the rows.\<close>

definition penalty_rows :: "ident \<Rightarrow> date \<Rightarrow> document list \<Rightarrow> (string \<times> penalty_line) list" where
  "penalty_rows partner today ds =
     List.map_filter (\<lambda>d. map_option (Pair (iv_currency d)) (penalty_line_of today d))
       (filter (\<lambda>d. iv_partner d = Some partner \<and> iv_kind d = ''standard'') ds)"

definition bucket :: "string \<Rightarrow> (string \<times> penalty_line) list \<Rightarrow> penalty_line list" where
  "bucket c rows = map snd (filter (\<lambda>r. fst r = c) rows)"

definition owed_in :: "(string \<times> penalty_line) list \<Rightarrow> string \<Rightarrow> decimal" where
  "owed_in rows c = sum_list (map pl_penalty (bucket c rows))"

text \<open>\<open>max(present, key=(owed, name))\<close>\<close>

definition largest :: "(string \<times> penalty_line) list \<Rightarrow> string list \<Rightarrow> string" where
  "largest rows cs =
     foldl (\<lambda>b c. if owed_in rows b < owed_in rows c \<or> (owed_in rows b = owed_in rows c \<and> b < c) then c else b)
       (hd cs) (tl cs)"

definition penalty_summary :: "ident \<Rightarrow> date \<Rightarrow> string option \<Rightarrow> document list \<Rightarrow> penalty_summary" where
  "penalty_summary partner today currency ds =
     (let rows = penalty_rows partner today ds; present = sort (remdups (map fst rows))
      in if present = []
         then \<lparr>ps_currency = ''EUR'', ps_penalty = 0, ps_outstanding = 0, ps_days = 0, ps_lines = [], ps_currencies = []\<rparr>
         else let c = (case currency of None \<Rightarrow> largest rows present | Some c \<Rightarrow> c); ls = bucket c rows
              in \<lparr>ps_currency = c, ps_penalty = q2 (sum_list (map pl_penalty ls)),
                  ps_outstanding = q2 (sum_list (map pl_outstanding ls)),
                  ps_days = foldl max 0 (map pl_days ls), ps_lines = ls, ps_currencies = present\<rparr>)"

section \<open>The penalty invoice\<close>

datatype penalty_block = PenaltyNotEnabled | PenaltyNoContract | PenaltyNothingToBill
datatype penalty_error = PenaltyModuleDisabled | PenaltyPartnerUnknown | PenaltyBlocked penalty_block
  | PenaltyConflict issue_error

definition penalty_detail :: "string \<Rightarrow> penalty_line \<Rightarrow> string" where
  "penalty_detail currency l =
     pl_number l @ '' ('' @ str_nat (nat (pl_days l)) @ ''d, '' @ currency @ '' '' @ str_cents (pl_penalty l) @ '')''"

fun join_with :: "string \<Rightarrow> string list \<Rightarrow> string" where
  "join_with sep [] = []"
| "join_with sep [x] = x"
| "join_with sep (x # xs) = x @ sep @ join_with sep xs"

text \<open>The columns the constructor does not name take their defaults; \<open>issuer_id\<close> is one.\<close>

definition penalty_document :: "ident \<Rightarrow> issuer_profile \<Rightarrow> string \<Rightarrow> partner \<Rightarrow> penalty_summary \<Rightarrow> date \<Rightarrow> document" where
  "penalty_document i profile number p s today =
     \<lparr>iv_id = i, iv_doc_type = DocInvoice, iv_kind = ''penalty'', iv_partner = Some (pt_id p),
      iv_number = Some number, iv_currency = ps_currency s, iv_lifecycle = Some LIssued,
      iv_issue_date = today, iv_due_date = Some today, iv_total = ps_penalty s,
      iv_credited_total = Some 0, iv_amount_paid = Some 0, iv_paid_date = None, iv_sent_at = None,
      iv_viewed_at = None, iv_voided_at = None, iv_penalty_rate = None, iv_interest_billed_through = None,
      dc_issuer = None, dc_customer = None, dc_project = None, dc_corrected = None,
      dc_corrected_number = None, dc_supply = None,
      dc_buyer = \<lparr>by_name = Some (pt_name p), by_email = pt_field p PF_email,
        by_vat_number = pt_field p PF_vat_number, by_address = pt_field p PF_address_line1,
        by_city = pt_field p PF_city, by_postal_code = pt_field p PF_postal_code,
        by_country = pt_field p PF_country\<rparr>,
      dc_seller = seller_snapshot profile, dc_scheme = ''exempt'',
      dc_note = Some (''Late-payment interest on overdue invoices: '' @
        join_with ''; '' (map (penalty_detail (ps_currency s)) (ps_lines s)) @ ''.''),
      dc_po = None, dc_exemption = None, dc_subtotal = ps_penalty s, dc_tax_total = 0,
      dc_lines = [\<lparr>il_position = 1,
        il_description = ''Late-payment interest on '' @ str_nat (length (ps_lines s)) @ '' overdue invoice(s)'',
        il_quantity = 1, il_unit = ''C62'', il_unit_price = ps_penalty s, il_discount = 0, il_vat_rate = 0,
        il_net = ps_penalty s, il_tax_code = None\<rparr>],
      dc_create_key = None, dc_create_hash = None, dc_issue_key = None, dc_issue_hash = None,
      dc_approved_at = None, dc_issued_at = None, dc_disputed_at = None, dc_dispute_reason = None,
      dc_written_off_at = None, dc_writeoff_reason = None\<rparr>"

definition stamp_billed :: "date \<Rightarrow> penalty_line list \<Rightarrow> document list \<Rightarrow> document list" where
  "stamp_billed today ls ds =
     map (\<lambda>d. if iv_id d \<in> set (map pl_invoice ls) then d\<lparr>iv_interest_billed_through := Some today\<rparr> else d) ds"

definition penalty_blocked :: "partner_books \<Rightarrow> partner \<Rightarrow> penalty_summary \<Rightarrow> penalty_block option" where
  "penalty_blocked pb p s =
     (if \<not> pt_penalty_enabled p then Some PenaltyNotEnabled
      else if \<not> has_signed_contract pb p then Some PenaltyNoContract
      else if ps_penalty s \<le> 0 then Some PenaltyNothingToBill
      else None)"

definition generate_penalty ::
  "ident \<Rightarrow> ident \<Rightarrow> partner \<Rightarrow> date \<Rightarrow> string option \<Rightarrow> issuing_books \<Rightarrow> penalty_error + document \<times> issuing_books" where
  "generate_penalty fresh i p today currency bk =
     (let s = penalty_summary (pt_id p) today currency (ib_docs bk) in
      case penalty_blocked (ib_partners bk) p s of
        Some b \<Rightarrow> Inl (PenaltyBlocked b)
      | None \<Rightarrow>
          let (profile, rg) = lock_issuer fresh None (ib_issuers bk);
              (number, profile') = next_invoice_number profile today;
              d = penalty_document i profile' number p s today
          in (case insert_doc d (put_issuer profile' (bk\<lparr>ib_issuers := rg\<rparr>)) of
                Inl e \<Rightarrow> Inl (PenaltyConflict e)
              | Inr bk2 \<Rightarrow> Inr (d, bk2\<lparr>ib_docs := stamp_billed today (ps_lines s) (ib_docs bk2)\<rparr>)))"

text \<open>The two handlers: the preview with the reason it would be refused, and the invoice.\<close>

definition partner_penalty ::
  "ident \<Rightarrow> date \<Rightarrow> string option \<Rightarrow> issuing_books \<Rightarrow> penalty_error + penalty_summary \<times> penalty_block option" where
  "partner_penalty j today currency bk =
     (if \<not> ib_enabled bk then Inl PenaltyModuleDisabled
      else (case get_partner j (ib_partners bk) of
              None \<Rightarrow> Inl PenaltyPartnerUnknown
            | Some p \<Rightarrow>
                let s = penalty_summary (pt_id p) today currency (ib_docs bk)
                in Inr (s, penalty_blocked (ib_partners bk) p s)))"

definition penalty_invoice ::
  "ident \<Rightarrow> ident \<Rightarrow> ident \<Rightarrow> date \<Rightarrow> string option \<Rightarrow> issuing_books \<Rightarrow> penalty_error + document \<times> issuing_books" where
  "penalty_invoice fresh i j today currency bk =
     (if \<not> ib_enabled bk then Inl PenaltyModuleDisabled
      else (case get_partner j (ib_partners bk) of
              None \<Rightarrow> Inl PenaltyPartnerUnknown
            | Some p \<Rightarrow>
                (case generate_penalty fresh i p today currency bk of
                   Inl e \<Rightarrow> Inl e
                 | Inr (d, bk2) \<Rightarrow> Inr (d, note_audit ''issued.penalty'' i bk2))))"

section \<open>The advisory figure\<close>

definition STATUTORY_MARGIN_PP :: decimal where "STATUTORY_MARGIN_PP = 8"
definition RECOVERY_COST_EUR :: decimal where "RECOVERY_COST_EUR = 40"
definition DEFAULT_BASE_RATE_PP :: decimal where "DEFAULT_BASE_RATE_PP = 215 / 100"

datatype late_figure =
    LateUnavailable string int
  | LateContractual (lf_rate: decimal) (lf_days: int) (lf_outstanding: decimal) (lf_interest: decimal)
      (lf_total: decimal)
  | LateStatutory (lf_base: decimal) (lf_configured: bool) (lf_rate: decimal) (lf_days: int)
      (lf_outstanding: decimal) (lf_interest: decimal) (lf_recovery: decimal) (lf_total: decimal)

text \<open>\<open>Decimal(rate or DEFAULT)\<close>: a rate of zero counts as none.\<close>

definition base_rate_or_default :: "decimal option \<Rightarrow> decimal" where
  "base_rate_or_default r = (case r of None \<Rightarrow> DEFAULT_BASE_RATE_PP | Some x \<Rightarrow> if x = 0 then DEFAULT_BASE_RATE_PP else x)"

definition late_interest :: "issued_invoice \<Rightarrow> decimal option \<Rightarrow> date \<Rightarrow> late_figure option" where
  "late_interest iv org_rate today =
     (if iv_doc_type iv \<noteq> DocInvoice then None
      else (case iv_due_date iv of
        None \<Rightarrow> None
      | Some due \<Rightarrow>
          if today \<le> due then None
          else let outstanding = iv_total iv - paid_of iv - credited_of iv; days = today - due
               in if outstanding \<le> 0 then None
                  else if py_upper (str_or (Some (iv_currency iv)) ''EUR'') \<noteq> ''EUR''
                  then Some (LateUnavailable (iv_currency iv) days)
                  else (case (case iv_penalty_rate iv of None \<Rightarrow> None | Some r \<Rightarrow> if 0 < r then Some r else None) of
                     Some rate \<Rightarrow>
                       let interest = accrual outstanding rate days
                       in Some (LateContractual rate days (q2 outstanding) (q2 interest) (q2 interest))
                   | None \<Rightarrow>
                       let base = base_rate_or_default org_rate; rate = base + STATUTORY_MARGIN_PP;
                           interest = accrual outstanding rate days
                       in Some (LateStatutory base (org_rate \<noteq> None) rate days (q2 outstanding) (q2 interest)
                                 (q2 RECOVERY_COST_EUR) (q2 (interest + RECOVERY_COST_EUR))))))"

text \<open>The setting: cleared, replaced, or left as it is.\<close>

definition update_base_rate :: "bool \<Rightarrow> decimal option \<Rightarrow> decimal option \<Rightarrow> decimal option" where
  "update_base_rate clear r current = (if clear then None else case r of None \<Rightarrow> current | Some x \<Rightarrow> Some x)"

section \<open>Lemmas on the summary\<close>

lemma map_filter_mem: "y \<in> set (List.map_filter f xs) \<longleftrightarrow> (\<exists>x \<in> set xs. f x = Some y)"
  by (induction xs) (auto simp: List.map_filter_simps split: option.splits)

lemma grid_sum_list: "(\<And>x. x \<in> set xs \<Longrightarrow> on_grid n x) \<Longrightarrow> on_grid n (sum_list xs)"
  by (induction xs) auto

lemma sort_Nil_iff: "sort xs = [] \<longleftrightarrow> xs = []"
  by (metis set_empty set_sort)

lemma penalty_line_ofD:
  assumes "penalty_line_of today d = Some l"
  shows "pl_invoice l = iv_id d \<and> 0 < pl_penalty l \<and> 0 < pl_days l \<and> pl_days l = unbilled_days_of (receivable d) today \<and>
    pl_penalty l = billable_penalty_of (receivable d) today \<and> status_of (receivable d) today = AR_OVERDUE \<and>
    pl_outstanding l = outstanding_of (receivable d)"
  using assms
  by (auto simp: penalty_line_of_def billable_penalty_of_def Let_def split: if_splits option.splits)

lemma bucket_rows:
  "bucket c (penalty_rows j today ds) =
     List.map_filter (penalty_line_of today) (filter (\<lambda>d. iv_partner d = Some j \<and> iv_kind d = ''standard'' \<and> iv_currency d = c) ds)"
  by (induction ds) (auto simp: bucket_def penalty_rows_def List.map_filter_simps split: option.splits)

lemma bucket_distinct:
  "distinct (map iv_id ds) \<Longrightarrow> distinct (map pl_invoice (bucket c (penalty_rows j today ds)))"
proof (induction ds)
  case (Cons d ds)
  have "pl_invoice l \<in> iv_id ` set ds" if "l \<in> set (bucket c (penalty_rows j today ds))" for l
    using that by (auto simp: bucket_rows map_filter_mem dest!: penalty_line_ofD)
  then have "iv_id d \<notin> pl_invoice ` set (bucket c (penalty_rows j today ds))" using Cons.prems by auto
  moreover have "distinct (map pl_invoice (bucket c (penalty_rows j today ds)))" using Cons by simp
  moreover have "pl_invoice l = iv_id d" if "penalty_line_of today d = Some l" for l
    using penalty_line_ofD [OF that] by simp
  ultimately show ?case
    unfolding bucket_rows by (auto simp: List.map_filter_simps split: option.splits)
qed (simp add: bucket_rows List.map_filter_simps)

lemma summary_lines:
  "ps_lines (penalty_summary j today c ds) = bucket (ps_currency (penalty_summary j today c ds)) (penalty_rows j today ds)"
  by (auto simp: penalty_summary_def Let_def bucket_def sort_Nil_iff)

lemma summary_line:
  assumes "l \<in> set (ps_lines (penalty_summary j today c ds))"
  obtains d where "d \<in> set ds" "iv_partner d = Some j" "iv_kind d = ''standard''"
    "iv_currency d = ps_currency (penalty_summary j today c ds)" "penalty_line_of today d = Some l"
  using assms unfolding summary_lines bucket_rows by (auto simp: map_filter_mem)

lemma summary_total: "ps_penalty (penalty_summary j today c ds) = sum_list (map pl_penalty (ps_lines (penalty_summary j today c ds)))"
proof -
  have "on_cents (pl_penalty l)" if "l \<in> set (bucket k (penalty_rows j today ds))" for k l
    using that by (auto simp: bucket_rows map_filter_mem billable_penalty_of_def Let_def
        dest!: penalty_line_ofD split: option.splits)
  then have "on_cents (sum_list (map pl_penalty (bucket k (penalty_rows j today ds))))" for k
    by (intro grid_sum_list) auto
  then show ?thesis by (auto simp: penalty_summary_def Let_def cents.rnd_fix)
qed

lemma penalty_document_fields [simp]:
  "iv_id (penalty_document i pr n p s t) = i" "iv_kind (penalty_document i pr n p s t) = ''penalty''"
  "iv_total (penalty_document i pr n p s t) = ps_penalty s" "iv_currency (penalty_document i pr n p s t) = ps_currency s"
  "iv_number (penalty_document i pr n p s t) = Some n" "dc_issuer (penalty_document i pr n p s t) = None"
  "iv_partner (penalty_document i pr n p s t) = Some (pt_id p)" "iv_doc_type (penalty_document i pr n p s t) = DocInvoice"
  by (simp_all add: penalty_document_def)

lemma insert_doc_rest: "insert_doc d bk = Inr bk' \<Longrightarrow> bk' = bk\<lparr>ib_docs := ib_docs bk @ [d]\<rparr>"
  by (auto simp: insert_doc_def split: sum.splits)

lemma generate_penalty_inv:
  assumes g: "generate_penalty fresh i p today c bk = Inr (pd, bk')" and s: "s = penalty_summary (pt_id p) today c (ib_docs bk)"
  shows "penalty_blocked (ib_partners bk) p s = None \<and> ib_docs bk' = stamp_billed today (ps_lines s) (ib_docs bk @ [pd]) \<and>
    iv_id pd = i \<and> iv_kind pd = ''penalty'' \<and> iv_total pd = ps_penalty s \<and> iv_currency pd = ps_currency s \<and>
    ib_partners bk' = ib_partners bk \<and> ib_enabled bk' = ib_enabled bk"
proof -
  obtain pr rg where l: "lock_issuer fresh None (ib_issuers bk) = (pr, rg)" by force
  obtain n pr' where n: "next_invoice_number pr today = (n, pr')" by force
  have b: "penalty_blocked (ib_partners bk) p s = None"
    using g by (auto simp: generate_penalty_def Let_def s split: option.splits)
  let ?d = "penalty_document i pr' n p s today"
  have "(case insert_doc ?d (put_issuer pr' (bk\<lparr>ib_issuers := rg\<rparr>)) of
      Inl e \<Rightarrow> Inl (PenaltyConflict e)
    | Inr bk2 \<Rightarrow> Inr (?d, bk2\<lparr>ib_docs := stamp_billed today (ps_lines s) (ib_docs bk2)\<rparr>)) = Inr (pd, bk')"
    using g unfolding generate_penalty_def Let_def s [symmetric] b option.case l n prod.case .
  then obtain bk2 where i: "insert_doc ?d (put_issuer pr' (bk\<lparr>ib_issuers := rg\<rparr>)) = Inr bk2"
    and r: "pd = ?d" "bk' = bk2\<lparr>ib_docs := stamp_billed today (ps_lines s) (ib_docs bk2)\<rparr>"
    by (auto split: sum.splits)
  show ?thesis using b insert_doc_rest [OF i] by (simp add: r put_issuer_def)
qed

lemma penalty_invoice_inv:
  assumes "penalty_invoice fresh i j today c bk = Inr (pd, bk')" "s = penalty_summary j today c (ib_docs bk)"
  shows "\<exists>p. get_partner j (ib_partners bk) = Some p \<and> pt_id p = j \<and> penalty_blocked (ib_partners bk) p s = None \<and>
    ib_docs bk' = stamp_billed today (ps_lines s) (ib_docs bk @ [pd]) \<and> iv_id pd = i \<and> iv_kind pd = ''penalty'' \<and>
    iv_total pd = ps_penalty s \<and> iv_currency pd = ps_currency s \<and> ib_partners bk' = ib_partners bk \<and> ib_enabled bk' = ib_enabled bk \<and> ib_enabled bk"
proof -
  obtain p where p: "get_partner j (ib_partners bk) = Some p" and en: "ib_enabled bk"
    using assms(1) by (auto simp: penalty_invoice_def split: option.splits if_splits)
  then have j: "pt_id p = j" by (auto simp: get_partner_def dest!: find_mem)
  obtain bk2 where g: "generate_penalty fresh i p today c bk = Inr (pd, bk2)" and r: "bk' = note_audit ''issued.penalty'' i bk2"
    using assms(1) unfolding penalty_invoice_def p option.case using en by (auto split: sum.splits)
  have e: "ib_docs bk' = ib_docs bk2" "ib_partners bk' = ib_partners bk2" "ib_enabled bk' = ib_enabled bk2"
    by (simp_all add: r note_audit_def)
  show ?thesis
    using generate_penalty_inv [OF g refl] p j en unfolding assms(2) e j by (elim conjE, intro exI [of _ p] conjI) (rule j | assumption)+
qed

section \<open>The history of an invoice under penalty billing\<close>

definition charged_days :: "ident \<Rightarrow> penalty_line list \<Rightarrow> int" where
  "charged_days i ls = sum_list (map pl_days (filter (\<lambda>l. pl_invoice l = i) ls))"

lemma charged_none: "i \<notin> set (map pl_invoice ls) \<Longrightarrow> charged_days i ls = 0"
proof -
  assume "i \<notin> set (map pl_invoice ls)"
  then have "filter (\<lambda>l. pl_invoice l = i) ls = []" by (auto simp: filter_empty_conv)
  then show ?thesis by (simp add: charged_days_def)
qed

lemma charged_one:
  assumes "distinct (map pl_invoice ls)" "l \<in> set ls"
  shows "charged_days (pl_invoice l) ls = pl_days l"
  using assms
proof (induction ls)
  case (Cons k ls)
  show ?case
  proof (cases "l = k")
    case True
    with Cons.prems charged_none [of "pl_invoice k" ls] show ?thesis by (simp add: charged_days_def)
  next
    case False
    with Cons.prems have "pl_invoice k \<noteq> pl_invoice l" by auto
    with Cons False show ?thesis by (simp add: charged_days_def)
  qed
qed simp

lemma get_doc_unique:
  assumes "distinct (map iv_id (ib_docs bk))" "d \<in> set (ib_docs bk)"
  shows "get_doc (iv_id d) bk = Some d"
  unfolding get_doc_def by (rule find_key_unique [OF assms])

lemma get_doc_stamped:
  assumes "get_doc i bk = Some d" "ib_docs bk' = stamp_billed t ls (ib_docs bk @ ds)"
  shows "get_doc i bk' = Some (if i \<in> set (map pl_invoice ls) then d\<lparr>iv_interest_billed_through := Some t\<rparr> else d)"
proof -
  have "find (\<lambda>d. iv_id d = i) (stamp_billed t ls (xs @ ds)) =
      Some (if i \<in> set (map pl_invoice ls) then d\<lparr>iv_interest_billed_through := Some t\<rparr> else d)"
    if "find (\<lambda>d. iv_id d = i) xs = Some d" for xs
    using that
  proof (induction xs)
    case (Cons x xs)
    show ?case
    proof (cases "iv_id x = i")
      case True
      with Cons.prems have "x = d" by simp
      with True show ?thesis unfolding stamp_billed_def by simp
    next
      case False
      with Cons show ?thesis unfolding stamp_billed_def by simp
    qed
  qed simp
  from this [OF assms(1) [unfolded get_doc_def]] show ?thesis unfolding get_doc_def assms(2) .
qed

text \<open>
  \<open>under_billing i due n t bk\<close>: the invoice was unbilled at the start, \<open>n\<close> days of it have been
  charged by penalty invoices, the last of them at \<open>t\<close> or before. Between them anything
  may happen that leaves its due date and its stamp alone: payments, credits, moves of
  the lifecycle, new documents.
\<close>

inductive under_billing :: "ident \<Rightarrow> date \<Rightarrow> int \<Rightarrow> date \<Rightarrow> issuing_books \<Rightarrow> bool" where
  ub_start: "get_doc i bk = Some d \<Longrightarrow> iv_due_date d = Some due \<Longrightarrow> iv_interest_billed_through d = None \<Longrightarrow>
     distinct (map iv_id (ib_docs bk)) \<Longrightarrow> under_billing i due 0 t bk"
| ub_bill: "under_billing i due n t bk \<Longrightarrow> t \<le> today \<Longrightarrow> new \<notin> iv_id ` set (ib_docs bk) \<Longrightarrow>
     penalty_invoice fresh new j today c bk = Inr (pd, bk') \<Longrightarrow>
     under_billing i due (n + charged_days i (ps_lines (penalty_summary j today c (ib_docs bk)))) today bk'"
| ub_other: "under_billing i due n t bk \<Longrightarrow> get_doc i bk = Some d \<Longrightarrow> get_doc i bk' = Some d' \<Longrightarrow>
     iv_due_date d' = iv_due_date d \<Longrightarrow> iv_interest_billed_through d' = iv_interest_billed_through d \<Longrightarrow>
     distinct (map iv_id (ib_docs bk')) \<Longrightarrow> under_billing i due n t bk'"

definition billed_ok :: "ident \<Rightarrow> date \<Rightarrow> int \<Rightarrow> date \<Rightarrow> issuing_books \<Rightarrow> bool" where
  "billed_ok i due n t bk \<longleftrightarrow> distinct (map iv_id (ib_docs bk)) \<and> 0 \<le> n \<and>
     (\<exists>d. get_doc i bk = Some d \<and> iv_due_date d = Some due \<and>
        (case iv_interest_billed_through d of None \<Rightarrow> n = 0 | Some s \<Rightarrow> s \<le> t \<and> n \<le> max 0 (s - due)))"

lemma stamp_ids [simp]: "map iv_id (stamp_billed t ls ds) = map iv_id ds"
  by (simp add: stamp_billed_def)

lemma billed_ok_bill:
  assumes ok: "billed_ok i due n t bk" and t: "t \<le> today" and new: "new \<notin> iv_id ` set (ib_docs bk)"
    and p: "penalty_invoice fresh new j today c bk = Inr (pd, bk')"
  shows "billed_ok i due (n + charged_days i (ps_lines (penalty_summary j today c (ib_docs bk)))) today bk'"
proof -
  let ?s = "penalty_summary j today c (ib_docs bk)"
  obtain d where d: "get_doc i bk = Some d" "iv_due_date d = Some due" and ids: "distinct (map iv_id (ib_docs bk))"
    and n: "0 \<le> n" "case iv_interest_billed_through d of None \<Rightarrow> n = 0 | Some s \<Rightarrow> s \<le> t \<and> n \<le> max 0 (s - due)"
    using ok unfolding billed_ok_def by blast
  have docs: "ib_docs bk' = stamp_billed today (ps_lines ?s) (ib_docs bk @ [pd])" "iv_id pd = new"
    using penalty_invoice_inv [OF p refl] by blast+
  note g = get_doc_stamped [OF d(1) docs(1)]
  have ids': "distinct (map iv_id (ib_docs bk'))" using ids new docs by simp
  show ?thesis
  proof (cases "i \<in> set (map pl_invoice (ps_lines ?s))")
    case False
    with g n t d ids' charged_none [OF False] show ?thesis
      by (auto simp: billed_ok_def split: option.splits)
  next
    case True
    then obtain l where l: "l \<in> set (ps_lines ?s)" "pl_invoice l = i" by auto
    obtain e where e: "e \<in> set (ib_docs bk)" "penalty_line_of today e = Some l" by (rule summary_line [OF l(1)])
    have "iv_id e = i" using penalty_line_ofD [OF e(2)] l(2) by simp
    then have "e = d" using get_doc_unique [OF ids e(1)] d(1) by simp
    then have pd: "pl_days l = unbilled_days_of (receivable d) today" "0 < pl_days l"
      using penalty_line_ofD [OF e(2)] by simp_all
    have "distinct (map pl_invoice (ps_lines ?s))" unfolding summary_lines by (rule bucket_distinct [OF ids])
    then have "charged_days i (ps_lines ?s) = pl_days l" using charged_one [OF _ l(1)] l(2) by simp
    then have "0 \<le> n + charged_days i (ps_lines ?s)" "n + charged_days i (ps_lines ?s) \<le> max 0 (today - due)"
      using n t pd d(2) by (auto simp: unbilled_days_of_def issued_invoice.truncate_def Let_def split: option.splits if_splits)
    then show ?thesis using True g d(2) ids' unfolding billed_ok_def by auto
  qed
qed

lemma under_billing_ok: "under_billing i due n t bk \<Longrightarrow> billed_ok i due n t bk"
proof (induction rule: under_billing.induct)
  case (ub_bill i due n t bk today new fresh j c pd bk')
  from billed_ok_bill [OF ub_bill.IH ub_bill.hyps(2-4)] show ?case .
qed (auto simp: billed_ok_def)

text \<open>
  C28: no day is charged twice. Over any history of penalty invoices, in any currency and
  with anything happening between them that leaves the due date and the stamp alone, the
  days of an invoice charged so far are at most its days overdue at the last bill.
\<close>

theorem penalty_days_once:
  assumes "under_billing i due n t bk"
  shows "0 \<le> n \<and> n \<le> max 0 (t - due)"
  using under_billing_ok [OF assms] by (auto simp: billed_ok_def split: option.splits)

section \<open>The invoice\<close>

lemma stamped_no_line: "penalty_line_of today (d\<lparr>iv_interest_billed_through := Some today\<rparr>) = None"
proof (cases "penalty_line_of today (d\<lparr>iv_interest_billed_through := Some today\<rparr>)")
  case (Some l)
  have "unbilled_days_of (receivable (d\<lparr>iv_interest_billed_through := Some today\<rparr>)) today \<le> 0"
    by (auto simp: unbilled_days_of_def issued_invoice.truncate_def Let_def split: option.splits)
  with penalty_line_ofD [OF Some] show ?thesis by simp
qed

lemma stamped_bucket:
  assumes "iv_kind pd = ''penalty''" "ls = bucket c (penalty_rows j today ds)"
  shows "bucket c (penalty_rows j today (stamp_billed today ls (ds @ [pd]))) = []"
proof -
  have "penalty_line_of today e = None"
    if e: "e \<in> set (stamp_billed today ls (ds @ [pd]))" "iv_partner e = Some j" "iv_kind e = ''standard''" "iv_currency e = c" for e
  proof (rule ccontr)
    assume "penalty_line_of today e \<noteq> None"
    then obtain l where l: "penalty_line_of today e = Some l" by blast
    obtain x where x: "x \<in> set (ds @ [pd])"
      and ex: "e = (if iv_id x \<in> pl_invoice ` set ls then x\<lparr>iv_interest_billed_through := Some today\<rparr> else x)"
      using e(1) unfolding stamp_billed_def set_map by (rule imageE) (rule that)
    have n: "iv_id x \<notin> pl_invoice ` set ls"
    proof
      assume "iv_id x \<in> pl_invoice ` set ls"
      then have "e = x\<lparr>iv_interest_billed_through := Some today\<rparr>" using ex by (simp only: if_True)
      then have "penalty_line_of today e = None" by (simp only: stamped_no_line)
      with l show False by (simp only: option.distinct)
    qed
    then have "e = x" using ex by (simp only: if_False)
    then have "x \<in> set ds" using x e(3) assms(1) by auto
    then have "l \<in> set ls"
      using e l \<open>e = x\<close> unfolding assms(2) bucket_rows map_filter_mem by (intro bexI [of _ x]) simp_all
    moreover have "pl_invoice l = iv_id x" using penalty_line_ofD [OF l] \<open>e = x\<close> by simp
    ultimately show False using n by (metis image_eqI)
  qed
  then have "y \<notin> set (bucket c (penalty_rows j today (stamp_billed today ls (ds @ [pd]))))" for y
    unfolding bucket_rows map_filter_mem by auto
  then show ?thesis by (metis list.set_intros(1) neq_Nil_conv)
qed

lemma named_bucket: "ps_lines (penalty_summary j today (Some c) ds) = bucket c (penalty_rows j today ds)"
  by (auto simp: penalty_summary_def Let_def bucket_def sort_Nil_iff)


section \<open>What the advisory figure says\<close>

lemma late_contractual:
  assumes "lifecycle_of iv = LIssued" "iv_doc_type iv = DocInvoice" "iv_due_date iv = Some due" "due < today"
    "iv_currency iv = ''EUR''" "iv_penalty_rate iv = Some r" "0 < r"
    "on_cents (iv_total iv)" "on_cents (paid_of iv)" "on_cents (credited_of iv)" "paid_of iv + credited_of iv < iv_total iv"
  shows "\<exists>i. late_interest iv org today = Some (LateContractual r (today - due) (outstanding_of iv) i i) \<and> i = penalty_of iv today"
proof -
  have "effective_total iv = iv_total iv - credited_of iv"
    using assms by (simp add: is_credit_note_def effective_total_def cents.rnd_fix grid_diff)
  then have o: "outstanding_of iv = iv_total iv - paid_of iv - credited_of iv" "0 < outstanding_of iv"
    using outstanding_live [of iv] assms by (simp_all add: is_credit_note_def)
  have "q2 (outstanding_of iv) = outstanding_of iv" by (rule cents.rnd_fix) simp
  then show ?thesis
    using assms o(2)
    by (simp add: late_interest_def penalty_of_def days_overdue_of_def Let_def str_or_def upper_char_def is_lower_def flip: o(1))
qed

text \<open>The figure does not look at the lifecycle, nor at a void; and a rate of zero is read as unset.\<close>

lemma late_of_dead:
  assumes "late_interest iv org today = Some f"
  shows "late_interest (iv\<lparr>iv_lifecycle := Some LWrittenOff, iv_voided_at := v\<rparr>) org today = Some f \<and>
    outstanding_of (iv\<lparr>iv_lifecycle := Some LWrittenOff, iv_voided_at := v\<rparr>) = 0"
proof -
  have "late_interest (iv\<lparr>iv_lifecycle := Some LWrittenOff, iv_voided_at := v\<rparr>) org today = late_interest iv org today"
    unfolding late_interest_def paid_of_def credited_of_def by (simp add: Let_def cong: option.case_cong if_cong)
  then show ?thesis using assms by (simp add: outstanding_of_def lifecycle_of_def cents.rnd_fix)
qed

lemma late_zero_rate: "base_rate_or_default (Some 0) = DEFAULT_BASE_RATE_PP"
  by (simp add: base_rate_or_default_def)

section \<open>A concrete run\<close>

definition second_body :: invoice_body where
  "second_body = sample_body\<lparr>bd_issuer := Some ''is-2'', bd_partner := Some ''p-1'', bd_issue := Some 738900,
     bd_due := Some 738900, bd_penalty := Some 10\<rparr>"
definition contract_books :: partner_books where
  "contract_books = \<lparr>pb_partners = [\<lparr>pt_id = ''p-1'', pt_name = ''Buyer'', pt_field = (\<lambda>_. None), pt_requires_contract = True,
       pt_requires_acceptance = False, pt_penalty_enabled = True, pt_penalty_rate = None, pt_active = True\<rparr>],
     pb_documents = [\<lparr>pd_id = ''f-1'', pd_partner = ''p-1'', pd_kind = CONTRACT, pd_title = ''Contract'', pd_reference = None,
       pd_note = None, pd_status = ''signed'', pd_signed_by = None, pd_signed_date = Some 738000\<rparr>], pb_trail = []\<rparr>"

definition on_registry :: "(registry \<Rightarrow> issuer_error option \<times> registry) \<Rightarrow> issuing_books \<Rightarrow> issuing_books" where
  "on_registry f bk = bk\<lparr>ib_issuers := snd (f (ib_issuers bk))\<rparr>"

definition two_issuers :: issuing_books where
  "two_issuers = on_registry (create_registry_issuer ''x'' ''is-2'' sample_registration)
     (sample_start\<lparr>ib_partners := contract_books\<rparr>)"
definition overdue_books :: issuing_books where
  "overdue_books = snd (create_issued ''x'' ''d-1'' sample_scope second_body None ''h'' 739000 0 two_issuers)"
definition penalty_reply :: "penalty_error + document \<times> issuing_books" where
  "penalty_reply = penalty_invoice ''x'' ''d-2'' ''p-1'' 739000 None overdue_books"

definition billed_books :: issuing_books where
  "billed_books = (case penalty_reply of Inr (d, bk) \<Rightarrow> bk | Inl _ \<Rightarrow> overdue_books)"
definition reissued_books :: issuing_books where
  "reissued_books =
     (let bk1 = on_registry (set_registry_default ''is-2'') billed_books;
          bk2 = on_registry (delete_registry_issuer ''is-1'' (map dc_issuer (ib_docs bk1))) bk1
      in on_registry (create_registry_issuer ''x'' ''is-3'' sample_registration) bk2)"
text \<open>
  The number of a penalty invoice can be taken again. The penalty invoice keeps no
  issuer, so the entity whose series it was numbered from can be deleted once it is not
  the default; the next entity gets the free prefix and starts at the number that the
  penalty invoice carries, and its first invoice is refused by the database.
\<close>

theorem penalty_number_reused:
  "map iv_number (ib_docs billed_books) = [Some ''INV2-2024-0001'', Some ''INV-2024-0001''] \<and>
   map iv_kind (ib_docs billed_books) = [''standard'', ''penalty''] \<and>
   map ip_id (ib_issuers reissued_books) = [''is-2'', ''is-3''] \<and> map ip_prefix (ib_issuers reissued_books) = [''INV2-'', ''INV-''] \<and>
   fst (create_issued ''x'' ''d-3'' sample_scope (sample_body\<lparr>bd_issuer := Some ''is-3''\<rparr>) None ''h'' 739001 0 reissued_books) = Inl NumberTaken"
proof (intro conjI)
  show "map iv_number (ib_docs billed_books) = [Some ''INV2-2024-0001'', Some ''INV-2024-0001'']" by code_simp
  show "map iv_kind (ib_docs billed_books) = [''standard'', ''penalty'']" by code_simp
  show "map ip_id (ib_issuers reissued_books) = [''is-2'', ''is-3'']" by code_simp
  show "map ip_prefix (ib_issuers reissued_books) = [''INV2-'', ''INV-'']" by code_simp
  show "fst (create_issued ''x'' ''d-3'' sample_scope (sample_body\<lparr>bd_issuer := Some ''is-3''\<rparr>) None ''h'' 739001 0 reissued_books) = Inl NumberTaken"
    by code_simp
qed

lemma answered_Inr: "\<not> isl r \<Longrightarrow> \<exists>x bk. r = Inr (x, bk)"
  by (cases r) auto

lemma overdue_run:
  obtains pd d where "penalty_invoice ''x'' ''d-2'' ''p-1'' 739000 None overdue_books = Inr (pd, billed_books)"
    "get_doc ''d-1'' overdue_books = Some d" "iv_due_date d = Some 738900" "iv_interest_billed_through d = None"
    "map iv_id (ib_docs overdue_books) = [''d-1'']"
proof -
  have "\<not> isl penalty_reply" by code_simp
  then obtain pd bk where r: "penalty_reply = Inr (pd, bk)" by (auto dest!: answered_Inr)
  then have "penalty_reply = Inr (pd, billed_books)" unfolding billed_books_def r by simp
  moreover have "(case get_doc ''d-1'' overdue_books of None \<Rightarrow> False
    | Some d \<Rightarrow> iv_due_date d = Some 738900 \<and> iv_interest_billed_through d = None)" by code_simp
  moreover have "map iv_id (ib_docs overdue_books) = [''d-1'']" by code_simp
  ultimately show thesis using that by (auto simp: penalty_reply_def split: option.splits)
qed

lemma overdue_ids:
  "map iv_id (ib_docs overdue_books) = [''d-1''] \<Longrightarrow> ''d-2'' \<notin> iv_id ` set (ib_docs overdue_books) \<and> distinct (map iv_id (ib_docs overdue_books))"
  by (auto simp: map_eq_Cons_conv)

theorem penalty_days_once_witness:
  "under_billing ''d-1'' 738900 (charged_days ''d-1'' (ps_lines (penalty_summary ''p-1'' 739000 None (ib_docs overdue_books)))) 739000 billed_books \<and>
   charged_days ''d-1'' (ps_lines (penalty_summary ''p-1'' 739000 None (ib_docs overdue_books))) \<le> 100"
proof -
  obtain pd d where p: "penalty_invoice ''x'' ''d-2'' ''p-1'' 739000 None overdue_books = Inr (pd, billed_books)"
    and d: "get_doc ''d-1'' overdue_books = Some d" "iv_due_date d = Some 738900" "iv_interest_billed_through d = None"
    and ids: "map iv_id (ib_docs overdue_books) = [''d-1'']" by (rule overdue_run)
  have "under_billing ''d-1'' 738900 0 738900 overdue_books"
    by (rule ub_start [OF d]) (simp add: overdue_ids [OF ids])
  from ub_bill [OF this _ _ p] have "under_billing ''d-1'' 738900 (charged_days ''d-1'' (ps_lines (penalty_summary ''p-1'' 739000 None (ib_docs overdue_books)))) 739000 billed_books"
    by (simp add: overdue_ids [OF ids])
  from this penalty_days_once [OF this] show ?thesis by simp
qed


end
