(* ===== verification/ExpensePolicy.thy ===== *)
theory ExpensePolicy
  imports Fx ApWorkflow
begin

text \<open>
  Expense items and the spending policy: \<open>services/expense_policy.py\<close> and the item part
  of \<open>services/expenses.py\<close>. An item is built from the request, its foreign amount is
  converted under the one rate convention, and the policy reads the items of a report
  and returns findings, of which only the configured codes block.
\<close>

section \<open>Items\<close>

datatype expense_type = XStandard | XMileage | XPerDiem

record expense_item =
  xi_id :: ident
  xi_date :: date
  xi_category :: string
  xi_description :: string
  xi_merchant :: "string option"
  xi_amount :: decimal
  xi_currency :: "string option"
  xi_original :: "decimal option"
  xi_fx_rate :: "decimal option"
  xi_fx_source :: "fx_source option"
  xi_vat :: decimal
  xi_reclaimable :: bool
  xi_payment :: string
  xi_billable :: bool
  xi_billable_customer :: "string option"
  xi_comment :: "string option"
  xi_type :: expense_type
  xi_distance :: "decimal option"
  xi_mileage_rate :: "decimal option"
  xi_unit :: "string option"
  xi_days :: "decimal option"
  xi_day_rate :: "decimal option"
  xi_declaration :: "string option"
  xi_bank_reference :: "string option"
  xi_receipt :: "string option"

text \<open>The request of one item: the fields the claimant may set.\<close>

record item_in =
  in_date :: date
  in_category :: string
  in_description :: string
  in_merchant :: "string option"
  in_amount :: decimal
  in_vat :: decimal
  in_reclaimable :: bool
  in_payment :: string
  in_billable :: bool
  in_billable_customer :: "string option"
  in_comment :: "string option"
  in_declaration :: "string option"
  in_currency :: "string option"
  in_original :: "decimal option"
  in_fx_rate :: "decimal option"
  in_fx_source :: "fx_source option"
  in_type :: expense_type
  in_distance :: "decimal option"
  in_mileage_rate :: "decimal option"
  in_unit :: "string option"
  in_days :: "decimal option"
  in_day_rate :: "decimal option"

datatype item_error = RateUnavailable string date | CrossCurrency string string | RateFault fx_error

definition derive_amount :: "item_in \<Rightarrow> decimal" where
  "derive_amount p =
     q2 (if in_type p = XMileage \<and> in_amount p = 0
         then or_zero (in_distance p) * or_zero (in_mileage_rate p)
         else if in_type p = XPerDiem \<and> in_amount p = 0
         then or_zero (in_days p) * or_zero (in_day_rate p)
         else in_amount p)"

definition item_from :: "ident \<Rightarrow> item_in \<Rightarrow> expense_item" where
  "item_from i p =
     \<lparr>xi_id = i, xi_date = in_date p, xi_category = in_category p, xi_description = in_description p,
      xi_merchant = in_merchant p, xi_amount = derive_amount p,
      xi_currency = (if truthy (in_currency p) then map_option py_upper (in_currency p) else None),
      xi_original = map_option q2 (in_original p), xi_fx_rate = in_fx_rate p, xi_fx_source = in_fx_source p,
      xi_vat = q2 (in_vat p), xi_reclaimable = in_reclaimable p, xi_payment = in_payment p,
      xi_billable = in_billable p, xi_billable_customer = in_billable_customer p, xi_comment = in_comment p,
      xi_type = in_type p, xi_distance = in_distance p, xi_mileage_rate = in_mileage_rate p,
      xi_unit = in_unit p, xi_days = in_days p, xi_day_rate = map_option q2 (in_day_rate p),
      xi_declaration = in_declaration p, xi_bank_reference = None, xi_receipt = None\<rparr>"

text \<open>\<open>quantize\<close> without a rounding mode: ties go to the even digit.\<close>

definition half_even :: "rat \<Rightarrow> int" where
  "half_even x =
     (let f = \<lfloor>x\<rfloor>; r = x - of_int f
      in if r < 1 / 2 then f else if 1 / 2 < r then f + 1 else if even f then f else f + 1)"

definition rate_exp :: "decimal \<Rightarrow> decimal" where
  "rate_exp x = of_int (half_even (x * 10 ^ 8)) / 10 ^ 8"

definition apply_item_fx :: "ecb_rate list \<Rightarrow> string \<Rightarrow> expense_item \<Rightarrow> item_error + expense_item" where
  "apply_item_fx st report_currency it =
     (let rc = py_upper (if report_currency = [] then ''EUR'' else report_currency);
          c = (if truthy (xi_currency it) then map_option py_upper (xi_currency it) else None);
          it1 = it\<lparr>xi_currency := c\<rparr>
      in (case (xi_original it, c) of
            (Some original, Some cc) \<Rightarrow>
              if cc = rc
              then Inr (it1\<lparr>xi_amount := (if xi_amount it = 0 then q2 original else xi_amount it),
                            xi_fx_source := (if cc = ''EUR'' then Some SrcEur else None), xi_fx_rate := None\<rparr>)
              else if xi_amount it \<noteq> 0
              then Inr (it1\<lparr>xi_fx_source := Some SrcStated, xi_fx_rate := Some (rate_exp (original / xi_amount it))\<rparr>)
              else if or_zero (xi_fx_rate it) \<noteq> 0
              then Inr (it1\<lparr>xi_amount := q2 (original / or_zero (xi_fx_rate it)), xi_fx_source := Some SrcStated\<rparr>)
              else if rc = ''EUR''
              then (case to_eur st original cc (xi_date it) of
                      Inl e \<Rightarrow> Inl (RateFault e)
                    | Inr (Some eur, Some r) \<Rightarrow>
                        Inr (it1\<lparr>xi_amount := eur, xi_fx_source := Some SrcEcb, xi_fx_rate := Some (rate_exp (rs_rate r))\<rparr>)
                    | Inr _ \<Rightarrow> Inl (RateUnavailable cc (xi_date it)))
              else Inl (CrossCurrency cc rc)
          | _ \<Rightarrow> Inr (it1\<lparr>xi_fx_source := None, xi_fx_rate := None\<rparr>)))"

fun build_items :: "ecb_rate list \<Rightarrow> string \<Rightarrow> (ident \<times> item_in) list \<Rightarrow> item_error + expense_item list" where
  "build_items st rc [] = Inr []"
| "build_items st rc ((i, p) # ps) =
     (case apply_item_fx st rc (item_from i p) of
        Inl e \<Rightarrow> Inl e
      | Inr it \<Rightarrow> (case build_items st rc ps of Inl e \<Rightarrow> Inl e | Inr its \<Rightarrow> Inr (it # its)))"

definition compute_totals :: "expense_item list \<Rightarrow> decimal \<times> decimal" where
  "compute_totals items = (q2 (sum_list (map xi_amount items)), q2 (sum_list (map xi_vat items)))"

definition reclaimable_vat_of :: "expense_item list \<Rightarrow> decimal" where
  "reclaimable_vat_of items = q2 (sum_list (map xi_vat (filter xi_reclaimable items)))"

definition stripped :: "string option \<Rightarrow> bool" where
  "stripped s \<longleftrightarrow> truthy s \<and> py_strip (the s) \<noteq> []"

definition item_missing :: "expense_item \<Rightarrow> string list" where
  "item_missing it =
     (if stripped (xi_comment it) then [] else [''business purpose'']) @
     (if xi_receipt it = None \<and> \<not> (xi_type it \<in> {XMileage, XPerDiem} \<or> stripped (xi_declaration it))
      then [''receipt or a missing-receipt declaration''] else [])"

definition incomplete_items :: "expense_item list \<Rightarrow> (expense_item \<times> string list) list" where
  "incomplete_items items =
     filter (\<lambda>(it, m). m \<noteq> []) (map (\<lambda>it. (it, item_missing it)) items)"

section \<open>The policy\<close>

definition RULE_CODES :: "string list" where
  "RULE_CODES =
     [''over_item_max'', ''over_category_cap'', ''missing_receipt'', ''out_of_policy_category'',
      ''unsupported_currency'', ''mileage_rate'', ''missing_business_purpose'', ''late_submission'',
      ''weekend_spend'', ''duplicate_receipt'', ''duplicate_amount_date_merchant'']"

text \<open>The JSON columns, decoded.\<close>

record expense_policy =
  ep_active :: bool
  ep_item_max :: "decimal option"
  ep_receipt_over :: "decimal option"
  ep_caps :: "(string \<times> decimal) list"
  ep_categories :: "string list"
  ep_currencies :: "string list"
  ep_weekend :: bool
  ep_duplicates :: bool
  ep_mileage_rate :: "decimal option"
  ep_tolerance :: "decimal option"
  ep_purpose_over :: "decimal option"
  ep_late_days :: "int option"
  ep_blocking :: "string list"
  ep_version :: int

definition caps_of :: "expense_policy option \<Rightarrow> (string \<times> decimal) list" where
  "caps_of p = (case p of None \<Rightarrow> [] | Some x \<Rightarrow> ep_caps x)"

definition allowed_categories_of :: "expense_policy option \<Rightarrow> string list" where
  "allowed_categories_of p = (case p of None \<Rightarrow> [] | Some x \<Rightarrow> ep_categories x)"

definition allowed_currencies_of :: "expense_policy option \<Rightarrow> string list" where
  "allowed_currencies_of p = (case p of None \<Rightarrow> [] | Some x \<Rightarrow> map py_upper (ep_currencies x))"

definition blocking_rules_of :: "expense_policy option \<Rightarrow> string list" where
  "blocking_rules_of p = (case p of None \<Rightarrow> [] | Some x \<Rightarrow> ep_blocking x)"

text \<open>Money columns keep two decimals and mileage columns four; \<open>p\<close> is the requested policy.\<close>

definition upsert_policy :: "expense_policy \<Rightarrow> expense_policy option \<Rightarrow> expense_policy" where
  "upsert_policy p old =
     p\<lparr>ep_item_max := map_option q2 (ep_item_max p), ep_receipt_over := map_option q2 (ep_receipt_over p),
       ep_currencies := map py_upper (ep_currencies p),
       ep_mileage_rate := map_option (\<lambda>x. q x 4) (ep_mileage_rate p),
       ep_tolerance := map_option (\<lambda>x. q x 4) (ep_tolerance p),
       ep_purpose_over := map_option q2 (ep_purpose_over p),
       ep_blocking := filter (\<lambda>c. c \<in> set RULE_CODES) (ep_blocking p),
       ep_version := (case old of None \<Rightarrow> 0 | Some o' \<Rightarrow> ep_version o') + 1\<rparr>"

record finding =
  fd_code :: string
  fd_blocks :: bool
  fd_item :: ident
  fd_category :: string
  fd_amount :: decimal
  fd_limit :: "decimal option"

definition finding_of :: "string \<Rightarrow> string list \<Rightarrow> expense_item \<Rightarrow> decimal option \<Rightarrow> finding" where
  "finding_of code blockers it limit =
     \<lparr>fd_code = code, fd_blocks = (code \<in> set blockers), fd_item = xi_id it, fd_category = xi_category it,
      fd_amount = xi_amount it, fd_limit = limit\<rparr>"

definition over :: "decimal option \<Rightarrow> expense_item \<Rightarrow> bool" where
  "over limit it \<longleftrightarrow> (case limit of None \<Rightarrow> False | Some l \<Rightarrow> l < xi_amount it)"

definition no_receipt :: "expense_item \<Rightarrow> bool" where
  "no_receipt it \<longleftrightarrow> \<not> truthy (xi_receipt it) \<and> \<not> stripped (xi_declaration it)"

text \<open>\<open>date.weekday() >= 5\<close>: day 1 of the calendar is a Monday.\<close>

definition weekend :: "date \<Rightarrow> bool" where
  "weekend d \<longleftrightarrow> 5 \<le> (d + 6) mod 7"

definition item_checks :: "expense_policy \<Rightarrow> string \<Rightarrow> date \<Rightarrow> expense_item \<Rightarrow> (string \<times> bool \<times> decimal option) list" where
  "item_checks p report_ccy today it =
     [(''over_item_max'', over (ep_item_max p) it, ep_item_max p),
      (''over_category_cap'', over (map_of (ep_caps p) (xi_category it)) it, map_of (ep_caps p) (xi_category it)),
      (''missing_receipt'', over (ep_receipt_over p) it \<and> no_receipt it, ep_receipt_over p),
      (''out_of_policy_category'', ep_categories p \<noteq> [] \<and> xi_category it \<notin> set (ep_categories p), None),
      (''unsupported_currency'', ep_currencies p \<noteq> [] \<and>
         py_upper (str_or (xi_currency it) report_ccy) \<notin> set (allowed_currencies_of (Some p)), None),
      (''mileage_rate'', xi_type it = XMileage \<and>
         (case (ep_mileage_rate p, xi_mileage_rate it) of
            (Some a, Some b) \<Rightarrow> or_zero (ep_tolerance p) < \<bar>b - a\<bar> | _ \<Rightarrow> False), ep_mileage_rate p),
      (''missing_business_purpose'', over (ep_purpose_over p) it \<and> \<not> stripped (xi_comment it), ep_purpose_over p),
      (''late_submission'', (case ep_late_days p of None \<Rightarrow> False | Some n \<Rightarrow> n < today - xi_date it), None),
      (''weekend_spend'', ep_weekend p \<and> weekend (xi_date it), None)]"

definition item_findings :: "expense_policy \<Rightarrow> string \<Rightarrow> date \<Rightarrow> expense_item \<Rightarrow> finding list" where
  "item_findings p report_ccy today it =
     List.map_filter (\<lambda>(code, fires, limit). if fires then Some (finding_of code (ep_blocking p) it limit) else None)
       (item_checks p report_ccy today it)"

text \<open>The groups of a dictionary of lists, in the order in which the keys first occur.\<close>

definition groups :: "('a \<Rightarrow> 'k option) \<Rightarrow> 'a list \<Rightarrow> 'a list list" where
  "groups key xs =
     map (\<lambda>k. filter (\<lambda>x. key x = Some k) xs) (rev (remdups (rev (List.map_filter key xs))))"

definition receipt_key :: "expense_item \<Rightarrow> string option" where
  "receipt_key it = (if truthy (xi_receipt it) then xi_receipt it else None)"

definition triple_key :: "expense_item \<Rightarrow> (decimal \<times> date \<times> string) option" where
  "triple_key it =
     (let m = py_lower (py_strip (str_or (xi_merchant it) []))
      in if m = [] then None else Some (xi_amount it, xi_date it, m))"

definition duplicate_findings :: "string \<Rightarrow> string list \<Rightarrow> (expense_item \<Rightarrow> 'k option) \<Rightarrow> expense_item list \<Rightarrow> finding list" where
  "duplicate_findings code blockers key items =
     concat (map (\<lambda>g. if 1 < length g then map (\<lambda>it. finding_of code blockers it None) g else []) (groups key items))"

definition expense_evaluate ::
  "expense_policy option \<Rightarrow> string \<Rightarrow> expense_item list \<Rightarrow> date \<Rightarrow> finding list" where
  "expense_evaluate policy currency items today =
     (case policy of
        None \<Rightarrow> []
      | Some p \<Rightarrow>
          if \<not> ep_active p then []
          else let rc = py_upper (if currency = [] then ''EUR'' else currency)
               in concat (map (item_findings p rc today) items) @
                  (if ep_duplicates p
                   then duplicate_findings ''duplicate_receipt'' (ep_blocking p) receipt_key items @
                        duplicate_findings ''duplicate_amount_date_merchant'' (ep_blocking p) triple_key items
                   else []))"

definition blocking_findings :: "finding list \<Rightarrow> finding list" where
  "blocking_findings fs = filter fd_blocks fs"

definition violations :: "expense_policy option \<Rightarrow> expense_item list \<Rightarrow> finding list" where
  "violations policy items =
     (case policy of
        None \<Rightarrow> []
      | Some p \<Rightarrow>
          if \<not> ep_active p then []
          else concat (map (\<lambda>it.
            (if over (ep_item_max p) it then [finding_of ''over_item_max'' (ep_blocking p) it (ep_item_max p)] else []) @
            (if over (map_of (ep_caps p) (xi_category it)) it
             then [finding_of ''over_category_cap'' (ep_blocking p) it (map_of (ep_caps p) (xi_category it))] else []) @
            (if over (ep_receipt_over p) it \<and> no_receipt it
             then [finding_of ''missing_receipt'' (ep_blocking p) it (ep_receipt_over p)] else [])) items))"

section \<open>Lemmas\<close>

lemma map_filter_if:
  "List.map_filter (\<lambda>(c, b, l). if b then Some (f c l) else None) rows = map (\<lambda>(c, b, l). f c l) (filter (\<lambda>(c, b, l). b) rows)"
  by (induction rows) (auto simp: List.map_filter_simps)

lemma groups_set:
  "g \<in> set (groups key xs) \<longleftrightarrow> (\<exists>k. g = filter (\<lambda>x. key x = Some k) xs \<and> g \<noteq> [])"
proof -
  have m: "k \<in> set (List.map_filter key xs) \<longleftrightarrow> (\<exists>x \<in> set xs. key x = Some k)" for k
    by (induction xs) (auto simp: List.map_filter_simps split: option.splits)
  show ?thesis by (auto simp: groups_def m filter_empty_conv)
qed

lemma filter_twice:
  assumes "distinct xs" "x \<in> set xs" "P x"
  shows "1 < length (filter P xs) \<longleftrightarrow> (\<exists>y \<in> set xs. y \<noteq> x \<and> P y)"
proof -
  have "length (filter P xs) = card {y \<in> set xs. P y}"
    using distinct_card [of "filter P xs"] assms(1) by simp
  also have "{y \<in> set xs. P y} = insert x {y \<in> set xs. y \<noteq> x \<and> P y}" using assms(2,3) by auto
  finally have "length (filter P xs) = Suc (card {y \<in> set xs. y \<noteq> x \<and> P y})" by simp
  moreover have "0 < card {y \<in> set xs. y \<noteq> x \<and> P y} \<longleftrightarrow> (\<exists>y \<in> set xs. y \<noteq> x \<and> P y)"
    by (auto simp: card_gt_0_iff)
  ultimately show ?thesis by simp
qed

lemma duplicates_exact:
  assumes "distinct items"
  shows "f \<in> set (duplicate_findings code blockers key items) \<longleftrightarrow>
    (\<exists>it \<in> set items. f = finding_of code blockers it None \<and> key it \<noteq> None \<and>
       (\<exists>other \<in> set items. other \<noteq> it \<and> key other = key it))"
proof
  assume "f \<in> set (duplicate_findings code blockers key items)"
  then obtain k it where l: "1 < length (filter (\<lambda>x. key x = Some k) items)" and it: "it \<in> set items" "key it = Some k"
    "f = finding_of code blockers it None"
    by (auto simp: duplicate_findings_def groups_set split: if_splits)
  with filter_twice [OF assms it(1), of "\<lambda>x. key x = Some k"] show "\<exists>it \<in> set items. f = finding_of code blockers it None \<and>
      key it \<noteq> None \<and> (\<exists>other \<in> set items. other \<noteq> it \<and> key other = key it)"
    by (intro bexI [OF _ it(1)]) auto
next
  assume "\<exists>it \<in> set items. f = finding_of code blockers it None \<and> key it \<noteq> None \<and>
       (\<exists>other \<in> set items. other \<noteq> it \<and> key other = key it)"
  then obtain it where i: "it \<in> set items" "f = finding_of code blockers it None" "key it \<noteq> None"
    "\<exists>other \<in> set items. other \<noteq> it \<and> key other = key it" by blast
  then obtain k where k: "key it = Some k" by blast
  note it = i(1,2) k i(4) [unfolded k]
  let ?g = "filter (\<lambda>x. key x = Some k) items"
  have "1 < length ?g" using filter_twice [OF assms it(1), of "\<lambda>x. key x = Some k"] it(3,4) by simp
  moreover from this have "?g \<in> set (groups key items)" by (auto simp: groups_set)
  ultimately show "f \<in> set (duplicate_findings code blockers key items)"
    unfolding duplicate_findings_def using it(1-3) by (auto intro!: bexI [of _ ?g])
qed

lemma finding_fields [simp]:
  "fd_code (finding_of c b it l) = c" "fd_blocks (finding_of c b it l) = (c \<in> set b)" "fd_item (finding_of c b it l) = xi_id it"
  by (simp_all add: finding_of_def)

lemma finding_exists:
  "(\<exists>f. (\<exists>it \<in> I. f = finding_of k b it l \<and> Q it \<and> R it) \<and> fd_code f = c \<and> fd_item f = i) \<longleftrightarrow>
   (\<exists>it \<in> I. xi_id it = i \<and> c = k \<and> Q it \<and> R it)"
  by auto

lemma item_finding_exists:
  "(\<exists>f. (\<exists>it \<in> I. \<exists>k l. Q it k l \<and> f = finding_of k b it l) \<and> fd_code f = c \<and> fd_item f = i) \<longleftrightarrow>
   (\<exists>it \<in> I. xi_id it = i \<and> (\<exists>l. Q it c l))"
  by (intro iffI; elim exE conjE bexE) (auto intro: finding_fields)

lemma item_findings_mem:
  "f \<in> set (item_findings p rc today it) \<longleftrightarrow> (\<exists>c l. (c, True, l) \<in> set (item_checks p rc today it) \<and> f = finding_of c (ep_blocking p) it l)"
  unfolding item_findings_def map_filter_if by force

text \<open>What each code of the policy means, for an item among the items of its report.\<close>

definition breaks :: "expense_policy \<Rightarrow> string \<Rightarrow> date \<Rightarrow> expense_item list \<Rightarrow> string \<Rightarrow> expense_item \<Rightarrow> bool" where
  "breaks p currency today items c it \<longleftrightarrow>
     (\<exists>l. (c, True, l) \<in> set (item_checks p (py_upper (if currency = [] then ''EUR'' else currency)) today it)) \<or>
     (ep_duplicates p \<and> c = ''duplicate_receipt'' \<and> receipt_key it \<noteq> None \<and>
        (\<exists>other \<in> set items. other \<noteq> it \<and> receipt_key other = receipt_key it)) \<or>
     (ep_duplicates p \<and> c = ''duplicate_amount_date_merchant'' \<and> triple_key it \<noteq> None \<and>
        (\<exists>other \<in> set items. other \<noteq> it \<and> triple_key other = triple_key it))"

lemma evaluate_mem:
  assumes "distinct items" "ep_active p"
  shows "(\<exists>f \<in> set (expense_evaluate (Some p) currency items today). fd_code f = c \<and> fd_item f = i) \<longleftrightarrow>
    (\<exists>it \<in> set items. xi_id it = i \<and> breaks p currency today items c it)"
proof -
  let ?rc = "py_upper (if currency = [] then ''EUR'' else currency)"
  have "f \<in> set (expense_evaluate (Some p) currency items today) \<longleftrightarrow>
      (\<exists>it \<in> set items. f \<in> set (item_findings p ?rc today it)) \<or>
      (ep_duplicates p \<and> (f \<in> set (duplicate_findings ''duplicate_receipt'' (ep_blocking p) receipt_key items) \<or>
         f \<in> set (duplicate_findings ''duplicate_amount_date_merchant'' (ep_blocking p) triple_key items)))" for f
    using assms(2) by (simp add: expense_evaluate_def Let_def)
  then have "(\<exists>f \<in> set (expense_evaluate (Some p) currency items today). fd_code f = c \<and> fd_item f = i) \<longleftrightarrow>
      (\<exists>f. (\<exists>it \<in> set items. f \<in> set (item_findings p ?rc today it)) \<and> fd_code f = c \<and> fd_item f = i) \<or>
      ep_duplicates p \<and> (\<exists>f. f \<in> set (duplicate_findings ''duplicate_receipt'' (ep_blocking p) receipt_key items) \<and> fd_code f = c \<and> fd_item f = i) \<or>
      ep_duplicates p \<and> (\<exists>f. f \<in> set (duplicate_findings ''duplicate_amount_date_merchant'' (ep_blocking p) triple_key items) \<and> fd_code f = c \<and> fd_item f = i)"
    by blast
  also have "(\<exists>f. (\<exists>it \<in> set items. f \<in> set (item_findings p ?rc today it)) \<and> fd_code f = c \<and> fd_item f = i) \<longleftrightarrow>
      (\<exists>it \<in> set items. xi_id it = i \<and> (\<exists>l. (c, True, l) \<in> set (item_checks p ?rc today it)))"
    unfolding item_findings_mem by (rule item_finding_exists)
  also have "(\<exists>f. f \<in> set (duplicate_findings ''duplicate_receipt'' (ep_blocking p) receipt_key items) \<and> fd_code f = c \<and> fd_item f = i) \<longleftrightarrow>
      (\<exists>it \<in> set items. xi_id it = i \<and> c = ''duplicate_receipt'' \<and> receipt_key it \<noteq> None \<and>
        (\<exists>other \<in> set items. other \<noteq> it \<and> receipt_key other = receipt_key it))"
    unfolding duplicates_exact [OF assms(1)] by (rule finding_exists)
  also have "(\<exists>f. f \<in> set (duplicate_findings ''duplicate_amount_date_merchant'' (ep_blocking p) triple_key items) \<and> fd_code f = c \<and> fd_item f = i) \<longleftrightarrow>
      (\<exists>it \<in> set items. xi_id it = i \<and> c = ''duplicate_amount_date_merchant'' \<and> triple_key it \<noteq> None \<and>
        (\<exists>other \<in> set items. other \<noteq> it \<and> triple_key other = triple_key it))"
    unfolding duplicates_exact [OF assms(1)] by (rule finding_exists)
  finally show ?thesis unfolding breaks_def by blast
qed

lemma finding_blocks: "f \<in> set (expense_evaluate (Some p) currency items today) \<Longrightarrow> fd_blocks f \<longleftrightarrow> fd_code f \<in> set (ep_blocking p)"
  by (auto simp: expense_evaluate_def Let_def item_findings_mem duplicate_findings_def finding_of_def split: if_splits)


text \<open>The codes the older view knows.\<close>

definition ITEM_CODES :: "string list" where
  "ITEM_CODES = [''over_item_max'', ''over_category_cap'', ''missing_receipt'']"

lemma first_three:
  "filter (\<lambda>(c, b, l). b \<and> c \<in> set ITEM_CODES)
     [(''over_item_max'', b1, l1), (''over_category_cap'', b2, l2), (''missing_receipt'', b3, l3), (''out_of_policy_category'', b4, l4),
      (''unsupported_currency'', b5, l5), (''mileage_rate'', b6, l6), (''missing_business_purpose'', b7, l7), (''late_submission'', b8, l8),
      (''weekend_spend'', b9, l9)] =
   (if b1 then [(''over_item_max'', b1, l1)] else []) @ (if b2 then [(''over_category_cap'', b2, l2)] else []) @
   (if b3 then [(''missing_receipt'', b3, l3)] else [])"
  by (simp add: ITEM_CODES_def)

lemma filter_findings:
  "filter (\<lambda>f. fd_code f \<in> C) (map (\<lambda>(c, b, l). finding_of c k it l) (filter (\<lambda>(c, b, l). b) rows)) =
   map (\<lambda>(c, b, l). finding_of c k it l) (filter (\<lambda>(c, b, l). b \<and> c \<in> C) rows)"
  by (induction rows) auto

lemma item_view:
  "filter (\<lambda>f. fd_code f \<in> set ITEM_CODES) (item_findings p rc today it) =
    (if over (ep_item_max p) it then [finding_of ''over_item_max'' (ep_blocking p) it (ep_item_max p)] else []) @
    (if over (map_of (ep_caps p) (xi_category it)) it
     then [finding_of ''over_category_cap'' (ep_blocking p) it (map_of (ep_caps p) (xi_category it))] else []) @
    (if over (ep_receipt_over p) it \<and> no_receipt it
     then [finding_of ''missing_receipt'' (ep_blocking p) it (ep_receipt_over p)] else [])"
  unfolding item_findings_def map_filter_if item_checks_def filter_findings first_three by (simp only: map_append if_distrib) simp

lemma filter_concat_map: "filter P (concat (map f xs)) = concat (map (\<lambda>x. filter P (f x)) xs)"
  by (induction xs) auto

text \<open>
  The two readers of the policy agree. The older item-only view returns exactly the
  findings of the full evaluation with the three codes it knows, in the same order.
\<close>

theorem violations_agree:
  "violations policy items =
   filter (\<lambda>f. fd_code f \<in> set ITEM_CODES)
     (expense_evaluate policy currency items today)"
proof (cases policy)
  case (Some p)
  have d: "filter (\<lambda>f. fd_code f \<in> set ITEM_CODES) (duplicate_findings c b k items) = []"
    if "c \<in> {''duplicate_receipt'', ''duplicate_amount_date_merchant''}" for c b and k :: "expense_item \<Rightarrow> 'k option"
    using that by (auto simp: ITEM_CODES_def duplicate_findings_def filter_empty_conv split: if_splits)
  show ?thesis
    unfolding Some violations_def expense_evaluate_def Let_def option.case
    by (simp add: d filter_concat_map item_view del: append_assoc)
qed (simp add: violations_def expense_evaluate_def)

text \<open>Conversion: what the claimant sends as provenance is never used.\<close>

lemma fx_source_ignored: "apply_item_fx st rc (it\<lparr>xi_fx_source := s\<rparr>) = apply_item_fx st rc it"
  by (cases "xi_original it"; cases "truthy (xi_currency it)")
    (auto simp: apply_item_fx_def Let_def split: option.splits sum.splits)

end
