(* ===== verification/ExpenseReports.thy ===== *)
theory ExpenseReports
  imports ExpensePolicy
begin

text \<open>
  Expense reports: \<open>models/expense.py\<close>, \<open>services/expense_approval.py\<close> and the writing
  handlers of \<open>api/routes/expenses.py\<close>. The claimant edits and submits, the chain of
  approval steps decides, and the two finance actions follow. A handler answers with an
  error or the new books; ids and \<open>now\<close> are arguments. Items are read in the order of
  their dates, as the relationship loads them. The cost dimensions of an item are left out.
\<close>

section \<open>State\<close>

datatype xstep_status = XPending | XApproved | XRejected | XSkipped
datatype xstep_kind = KindApprover | KindFinanceFinal

record expense_step =
  es_id :: ident
  es_report :: ident
  es_policy :: "ident option"
  es_seq :: nat
  es_kind :: xstep_kind
  es_approver :: "ident option"
  es_approver_email :: "string option"
  es_status :: xstep_status
  es_decided_by :: "ident option"
  es_decided_by_email :: "string option"
  es_decided_at :: "instant option"
  es_note :: "string option"

record appr_policy =
  xp_id :: ident
  xp_name :: string
  xp_active :: bool
  xp_priority :: int
  xp_min :: "decimal option"
  xp_approvers :: "ident list"
  xp_finance_final :: bool
  xp_finance_approver :: "ident option"
  xp_version :: int

record expense_report =
  xr_id :: ident
  xr_employee :: ident
  xr_employee_name :: string
  xr_deleted_by :: "string option"
  xr_title :: string
  xr_status :: expense_status
  xr_currency :: string
  xr_note :: "string option"
  xr_total :: decimal
  xr_vat_total :: decimal
  xr_total_eur :: "decimal option"
  xr_submitted_at :: "instant option"
  xr_decided_at :: "instant option"
  xr_decided_by :: "string option"
  xr_decision_note :: "string option"
  xr_version :: int
  xr_reimbursed_at :: "instant option"
  xr_payment_method :: "string option"
  xr_payment_reference :: "string option"
  xr_batch :: "ident option"
  xr_items :: "expense_item list"

record expense_txn =
  xt_id :: ident
  xt_employee :: ident
  xt_date :: date
  xt_description :: string
  xt_merchant :: "string option"
  xt_amount :: decimal
  xt_currency :: string
  xt_source :: string
  xt_status :: string
  xt_item :: "ident option"
  xt_version :: int
  xt_batch :: "ident option"
  xt_row :: "nat option"
  xt_currency_source :: "string option"
  xt_deleted_by :: "string option"

record expense_user =
  xu_id :: ident
  xu_email :: string
  xu_name :: string
  xu_approver :: bool
  xu_admin :: bool
  xu_platform_admin :: bool
  xu_member :: bool
  xu_here :: bool

text \<open>\<open>xu_member\<close>: a membership in the organisation; \<open>xu_here\<close>: it is the user's active one.\<close>

record expense_books =
  xb_enabled :: bool
  xb_reports :: "expense_report list"
  xb_steps :: "expense_step list"
  xb_policy :: "expense_policy option"
  xb_appr :: "appr_policy list"
  xb_txns :: "expense_txn list"
  xb_users :: "expense_user list"
  xb_rates :: "ecb_rate list"
  xb_comments :: "(ident \<times> ident \<times> string) list"
  xb_trail :: "(string \<times> ident) list"
  xb_events :: "(string \<times> ident) list"

datatype expense_fault =
    XModuleDisabled | XNotFound | XNotOwner | XNotEditable | XIllegal expense_error | XEmpty
  | XIncomplete "(expense_item \<times> string list) list" | XPolicyBlocked "finding list" | XItem item_error
  | XNotApprover | XNotAdmin | XStale int | XOwnReport | XNotAwaiting expense_status | XNoPendingStep
  | XOtherApprover | XApproverNotFound | XItemNotFound | XNullColumn | XNotOwnDraft
  | XTxnNotFound | XTxnSelection | XBadId | XCurrencyMismatch | XVatTooHigh | XAmountsDiffer decimal decimal
  | XVersionRequired | XBadKey | XKeyConflict | XNoAccess | XOutOfRange | XAccountRequired
  | XCurrencyInvalid | XCurrencyRequired | XImportCurrency | XTooManyRows | XResultUnavailable | XNoCommand

section \<open>Reading\<close>

definition find_report :: "ident \<Rightarrow> expense_books \<Rightarrow> expense_report option" where
  "find_report i bk = find (\<lambda>r. xr_id r = i \<and> xr_deleted_by r = None) (xb_reports bk)"

definition load_report :: "ident \<Rightarrow> expense_books \<Rightarrow> expense_report option" where
  "load_report i bk = map_option (\<lambda>r. r\<lparr>xr_items := sort_key xi_date (xr_items r)\<rparr>) (find_report i bk)"

definition put_report :: "expense_report \<Rightarrow> expense_books \<Rightarrow> expense_books" where
  "put_report r bk = bk\<lparr>xb_reports := map (\<lambda>x. if xr_id x = xr_id r then r else x) (xb_reports bk)\<rparr>"

definition can_oversee :: "expense_user \<Rightarrow> bool" where
  "can_oversee u \<longleftrightarrow> xu_approver u \<or> xu_admin u"

definition require_view :: "expense_report \<Rightarrow> expense_user \<Rightarrow> expense_fault + unit" where
  "require_view r u = (if \<not> can_oversee u \<and> xr_employee r \<noteq> xu_id u then Inl XNotFound else Inr ())"

definition require_owner_editable :: "expense_report \<Rightarrow> expense_user \<Rightarrow> expense_fault + unit" where
  "require_owner_editable r u =
     (if xr_employee r \<noteq> xu_id u then Inl XNotOwner
      else if \<not> expense_is_editable (xr_status r) then Inl XNotEditable
      else Inr ())"

definition xaudit :: "string \<Rightarrow> ident \<Rightarrow> expense_books \<Rightarrow> expense_books" where
  "xaudit action i bk = bk\<lparr>xb_trail := xb_trail bk @ [(action, i)]\<rparr>"

definition xemit :: "string \<Rightarrow> ident \<Rightarrow> expense_books \<Rightarrow> expense_books" where
  "xemit ev i bk = bk\<lparr>xb_events := xb_events bk @ [(ev, i)]\<rparr>"

definition with_totals :: "expense_report \<Rightarrow> expense_report" where
  "with_totals r = r\<lparr>xr_total := fst (compute_totals (xr_items r)), xr_vat_total := snd (compute_totals (xr_items r))\<rparr>"

text \<open>The guard and the load that the handlers of one report begin with.\<close>

definition on_report ::
  "ident \<Rightarrow> (expense_report \<Rightarrow> expense_fault + expense_books) \<Rightarrow> expense_books \<Rightarrow> expense_fault + expense_books" where
  "on_report i h bk =
     (if \<not> xb_enabled bk then Inl XModuleDisabled
      else (case load_report i bk of None \<Rightarrow> Inl XNotFound | Some r \<Rightarrow> h r))"

definition on_own_report ::
  "ident \<Rightarrow> expense_user \<Rightarrow> (expense_report \<Rightarrow> expense_fault + expense_books) \<Rightarrow> expense_books \<Rightarrow>
   expense_fault + expense_books" where
  "on_own_report i u h bk =
     on_report i (\<lambda>r. case require_owner_editable r u of Inl e \<Rightarrow> Inl e | Inr _ \<Rightarrow> h r) bk"

section \<open>The approval chain\<close>

definition report_amount_eur :: "expense_report \<Rightarrow> decimal" where
  "report_amount_eur r = (case xr_total_eur r of Some x \<Rightarrow> x | None \<Rightarrow> xr_total r)"

definition expense_matches :: "appr_policy \<Rightarrow> expense_report \<Rightarrow> bool" where
  "expense_matches p r \<longleftrightarrow> (case xp_min p of None \<Rightarrow> True | Some m \<Rightarrow> m \<le> report_amount_eur r)"

definition expense_policy_for :: "appr_policy list \<Rightarrow> expense_report \<Rightarrow> appr_policy option" where
  "expense_policy_for ps r =
     find (\<lambda>p. expense_matches p r) (sort_key xp_priority (filter xp_active ps))"

definition email_of :: "expense_user list \<Rightarrow> ident \<Rightarrow> string option" where
  "email_of us i = map_option xu_email (find (\<lambda>u. xu_id u = i \<and> xu_member u) us)"

definition expense_step_for ::
  "(nat \<Rightarrow> ident) \<Rightarrow> expense_user list \<Rightarrow> ident \<Rightarrow> ident option \<Rightarrow> nat \<Rightarrow> xstep_kind \<Rightarrow> ident option \<Rightarrow> expense_step" where
  "expense_step_for fresh us rid pid n kind approver =
     \<lparr>es_id = fresh n, es_report = rid, es_policy = pid, es_seq = n, es_kind = kind, es_approver = approver,
      es_approver_email = (case approver of None \<Rightarrow> None | Some a \<Rightarrow> email_of us a), es_status = XPending,
      es_decided_by = None, es_decided_by_email = None, es_decided_at = None, es_note = None\<rparr>"

definition expense_chain ::
  "(nat \<Rightarrow> ident) \<Rightarrow> expense_user list \<Rightarrow> ident \<Rightarrow> appr_policy option \<Rightarrow> expense_step list" where
  "expense_chain fresh us rid policy =
     (let steps = (case policy of
                     None \<Rightarrow> []
                   | Some p \<Rightarrow>
                       map (\<lambda>n. expense_step_for fresh us rid (Some (xp_id p)) n KindApprover (Some (xp_approvers p ! n)))
                         [0..<length (xp_approvers p)] @
                       (if xp_finance_final p
                        then [expense_step_for fresh us rid (Some (xp_id p)) (length (xp_approvers p)) KindFinanceFinal
                                (xp_finance_approver p)]
                        else []))
      in if steps = [] then [expense_step_for fresh us rid (map_option xp_id policy) 0 KindApprover None] else steps)"

definition expense_steps :: "ident \<Rightarrow> expense_books \<Rightarrow> expense_step list" where
  "expense_steps rid bk = sort_key es_seq (filter (\<lambda>s. es_report s = rid) (xb_steps bk))"

definition delete_chain :: "ident \<Rightarrow> expense_books \<Rightarrow> expense_books" where
  "delete_chain rid bk = bk\<lparr>xb_steps := filter (\<lambda>s. es_report s \<noteq> rid) (xb_steps bk)\<rparr>"

definition expense_pending :: "expense_step list \<Rightarrow> expense_step option" where
  "expense_pending steps = find (\<lambda>s. es_status s = XPending) (sort_key es_seq steps)"

definition expense_chain_state :: "expense_step list \<Rightarrow> expense_status" where
  "expense_chain_state steps =
     (if \<exists>s \<in> set steps. es_status s = XRejected then E_rejected
      else if \<not> (\<exists>s \<in> set steps. es_status s = XPending) then E_approved
      else if \<exists>s \<in> set steps. es_status s = XApproved then E_partially_approved
      else E_submitted)"

definition expense_assigned :: "expense_step \<Rightarrow> expense_user \<Rightarrow> bool" where
  "expense_assigned s u \<longleftrightarrow> es_approver s = None \<or> xu_platform_admin u \<or> es_approver s = Some (xu_id u)"

definition skip_if_pending :: "expense_step \<Rightarrow> expense_step" where
  "skip_if_pending s = (if es_status s = XPending then s\<lparr>es_status := XSkipped\<rparr> else s)"

definition decide_step :: "expense_user \<Rightarrow> bool \<Rightarrow> string option \<Rightarrow> instant \<Rightarrow> expense_step \<Rightarrow> expense_step" where
  "decide_step u ok nt now s =
     s\<lparr>es_status := (if ok then XApproved else XRejected), es_decided_by := Some (xu_id u),
       es_decided_by_email := Some (xu_email u), es_decided_at := Some now, es_note := nt\<rparr>"

definition pending_report_count :: "expense_books \<Rightarrow> nat" where
  "pending_report_count bk =
     length (filter (\<lambda>r. xr_deleted_by r = None \<and> xr_status r = E_submitted) (xb_reports bk))"

text \<open>The routing policies: created, replaced against a version, deleted.\<close>

definition create_approval_policy :: "expense_user \<Rightarrow> appr_policy \<Rightarrow> expense_books \<Rightarrow> expense_fault + expense_books" where
  "create_approval_policy u p bk =
     (if \<not> xb_enabled bk then Inl XModuleDisabled
      else if \<not> xu_admin u then Inl XNotAdmin
      else Inr (xaudit ''expense.approval_policy'' []
        (bk\<lparr>xb_appr := xb_appr bk @ [p\<lparr>xp_min := map_option q2 (xp_min p), xp_version := 1\<rparr>]\<rparr>)))"

definition update_approval_policy ::
  "expense_user \<Rightarrow> ident \<Rightarrow> int \<Rightarrow> appr_policy \<Rightarrow> expense_books \<Rightarrow> expense_fault + expense_books" where
  "update_approval_policy u i version body bk =
     (if \<not> xb_enabled bk then Inl XModuleDisabled
      else if \<not> xu_admin u then Inl XNotAdmin
      else (case find (\<lambda>p. xp_id p = i) (xb_appr bk) of
              None \<Rightarrow> Inl XNotFound
            | Some p \<Rightarrow>
                if version \<noteq> xp_version p then Inl (XStale (xp_version p))
                else Inr (xaudit ''expense.approval_policy'' i
                  (bk\<lparr>xb_appr := map (\<lambda>x. if xp_id x = i
                        then body\<lparr>xp_id := i, xp_min := map_option q2 (xp_min body), xp_version := xp_version p + 1\<rparr>
                        else x) (xb_appr bk)\<rparr>))))"

definition delete_approval_policy :: "expense_user \<Rightarrow> ident \<Rightarrow> expense_books \<Rightarrow> expense_fault + expense_books" where
  "delete_approval_policy u i bk =
     (if \<not> xb_enabled bk then Inl XModuleDisabled
      else if \<not> xu_admin u then Inl XNotAdmin
      else (case find (\<lambda>p. xp_id p = i) (xb_appr bk) of
              None \<Rightarrow> Inl XNotFound
            | Some _ \<Rightarrow> Inr (xaudit ''expense.approval_policy'' i
                (bk\<lparr>xb_appr := filter (\<lambda>x. xp_id x \<noteq> i) (xb_appr bk)\<rparr>))))"

definition set_policy :: "expense_user \<Rightarrow> ident \<Rightarrow> expense_policy \<Rightarrow> expense_books \<Rightarrow> expense_fault + expense_books" where
  "set_policy u i body bk =
     (if \<not> xb_enabled bk then Inl XModuleDisabled
      else if \<not> xu_admin u then Inl XNotAdmin
      else Inr (xaudit ''expense.policy_set'' i (bk\<lparr>xb_policy := Some (upsert_policy body (xb_policy bk))\<rparr>)))"

section \<open>Submitting and withdrawing\<close>

definition report_findings :: "expense_books \<Rightarrow> expense_report \<Rightarrow> date \<Rightarrow> finding list" where
  "report_findings bk r today = expense_evaluate (xb_policy bk) (xr_currency r) (xr_items r) today"

text \<open>The dry run: every finding, and whether the submission would be stopped.\<close>

definition policy_check ::
  "ident \<Rightarrow> expense_user \<Rightarrow> date \<Rightarrow> expense_books \<Rightarrow> expense_fault + finding list \<times> bool" where
  "policy_check i u today bk =
     (if \<not> xb_enabled bk then Inl XModuleDisabled
      else (case load_report i bk of
              None \<Rightarrow> Inl XNotFound
            | Some r \<Rightarrow>
                (case require_view r u of
                   Inl e \<Rightarrow> Inl e
                 | Inr _ \<Rightarrow> Inr (report_findings bk r today,
                     blocking_findings (report_findings bk r today) = []))))"

definition total_in_eur :: "ecb_rate list \<Rightarrow> expense_report \<Rightarrow> date \<Rightarrow> expense_fault + decimal option" where
  "total_in_eur st r today =
     (if py_upper (xr_currency r) = ''EUR'' then Inr (Some (xr_total r))
      else (case to_eur st (xr_total r) (xr_currency r) today of
              Inl e \<Rightarrow> Inl (XItem (RateFault e)) | Inr (eur, _) \<Rightarrow> Inr eur))"

definition submit_report ::
  "(nat \<Rightarrow> ident) \<Rightarrow> ident \<Rightarrow> expense_user \<Rightarrow> date \<Rightarrow> instant \<Rightarrow> expense_books \<Rightarrow> expense_fault + expense_books" where
  "submit_report fresh i u today now bk =
     on_report i (\<lambda>r.
       if xr_employee r \<noteq> xu_id u then Inl XNotOwner
       else (case target_for ''submit'' (xr_status r) of
          Inl e \<Rightarrow> Inl (XIllegal e)
        | Inr target \<Rightarrow>
            if xr_items r = [] then Inl XEmpty
            else if incomplete_items (xr_items r) \<noteq> [] then Inl (XIncomplete (incomplete_items (xr_items r)))
            else if blocking_findings (report_findings bk r today) \<noteq> []
            then Inl (XPolicyBlocked (blocking_findings (report_findings bk r today)))
            else (case total_in_eur (xb_rates bk) r today of
               Inl e \<Rightarrow> Inl e
             | Inr eur \<Rightarrow>
                 let r' = r\<lparr>xr_status := target, xr_submitted_at := Some now, xr_decided_at := None,
                            xr_decided_by := None, xr_decision_note := None, xr_total_eur := eur\<rparr>;
                     chain = expense_chain fresh (xb_users bk) i (expense_policy_for (xb_appr bk) r');
                     bk1 = delete_chain i (put_report r' bk)
                 in Inr (xemit ''expense.submitted'' i (xaudit ''expense.submit'' i
                      (bk1\<lparr>xb_steps := xb_steps bk1 @ chain\<rparr>)))))) bk"

definition withdraw_report :: "ident \<Rightarrow> expense_user \<Rightarrow> expense_books \<Rightarrow> expense_fault + expense_books" where
  "withdraw_report i u bk =
     on_report i (\<lambda>r.
       if xr_employee r \<noteq> xu_id u then Inl XNotOwner
       else (case target_for ''withdraw'' (xr_status r) of
               Inl e \<Rightarrow> Inl (XIllegal e)
             | Inr target \<Rightarrow>
                 Inr (xaudit ''expense.transition'' i
                   (delete_chain i (put_report (r\<lparr>xr_status := target, xr_submitted_at := None\<rparr>) bk))))) bk"

section \<open>Deciding\<close>

text \<open>The actions the request schema lets through.\<close>

definition DECISIONS :: "string list" where
  "DECISIONS = [''approve'', ''reject'', ''return_for_correction'', ''mark_for_reimbursement'', ''mark_reimbursed'', ''reimburse'']"

definition decided_event :: "expense_status \<Rightarrow> string option" where
  "decided_event s =
     (case s of E_approved \<Rightarrow> Some ''expense.approved'' | E_rejected \<Rightarrow> Some ''expense.rejected''
      | E_returned \<Rightarrow> Some ''expense.returned'' | E_reimbursed \<Rightarrow> Some ''expense.reimbursed'' | _ \<Rightarrow> None)"

definition put_steps :: "expense_step list \<Rightarrow> expense_books \<Rightarrow> expense_books" where
  "put_steps steps bk =
     bk\<lparr>xb_steps := map (\<lambda>x. case find (\<lambda>s. es_id s = es_id x) steps of None \<Rightarrow> x | Some s \<Rightarrow> s) (xb_steps bk)\<rparr>"

text \<open>The steps after a decision on the current one, the new status, the audit action.\<close>

definition chain_decision ::
  "string \<Rightarrow> expense_user \<Rightarrow> string option \<Rightarrow> instant \<Rightarrow> expense_step \<Rightarrow> expense_step list \<Rightarrow>
   expense_step list \<times> expense_status \<times> string" where
  "chain_decision action u nt now s steps =
     (let change = (\<lambda>f. map (\<lambda>x. if es_id x = es_id s then f x else x) steps) in
      if action = ''approve''
      then (change (decide_step u True nt now), expense_chain_state (change (decide_step u True nt now)), ''expense.approve'')
      else if action = ''reject''
      then (map skip_if_pending (change (decide_step u False nt now)), E_rejected, ''expense.reject'')
      else (map skip_if_pending steps, E_returned, ''expense.return_for_correction''))"

definition decide ::
  "ident \<Rightarrow> string \<Rightarrow> int \<Rightarrow> string option \<Rightarrow> expense_user \<Rightarrow> instant \<Rightarrow> expense_books \<Rightarrow> expense_fault + expense_books" where
  "decide i act version nt u now bk =
     (if \<not> xb_enabled bk then Inl XModuleDisabled
      else if \<not> xu_approver u then Inl XNotApprover
      else on_report i (\<lambda>r.
        if version \<noteq> xr_version r then Inl (XStale (xr_version r))
        else if xr_employee r = xu_id u then Inl XOwnReport
        else let action = canonical act;
                 stamp = (\<lambda>s. r\<lparr>xr_status := s, xr_decided_at := Some now, xr_decided_by := Some (xu_email u),
                                xr_decision_note := nt, xr_version := xr_version r + 1\<rparr>);
                 finish = (\<lambda>s b. case decided_event s of None \<Rightarrow> b | Some ev \<Rightarrow> xemit ev i b)
             in if action \<in> {''approve'', ''reject'', ''return_for_correction''}
                then if xr_status r \<notin> set IN_APPROVAL then Inl (XNotAwaiting (xr_status r))
                     else (case expense_pending (expense_steps i bk) of
                        None \<Rightarrow> Inl XNoPendingStep
                      | Some s \<Rightarrow>
                          if \<not> expense_assigned s u then Inl XOtherApprover
                          else let (steps, st, entry) = chain_decision action u nt now s (expense_steps i bk)
                               in Inr (finish st (xaudit entry i (put_steps steps (put_report (stamp st) bk)))))
                else (case target_for action (xr_status r) of
                        Inl e \<Rightarrow> Inl (XIllegal e)
                      | Inr target \<Rightarrow>
                          let r' = (stamp target)\<lparr>xr_reimbursed_at :=
                                     (if target = E_reimbursed then Some now else xr_reimbursed_at r)\<rparr>
                          in Inr (finish target (xaudit ''expense.transition'' i (put_report r' bk))))) bk)"

definition reassign_step ::
  "ident \<Rightarrow> ident \<Rightarrow> ident option \<Rightarrow> expense_user \<Rightarrow> expense_books \<Rightarrow> expense_fault + expense_books" where
  "reassign_step i approver step_id u bk =
     (if \<not> xb_enabled bk then Inl XModuleDisabled
      else if \<not> xu_approver u then Inl XNotApprover
      else on_report i (\<lambda>r.
        if xr_status r \<notin> set IN_APPROVAL then Inl (XNotAwaiting (xr_status r))
        else (case (if truthy step_id then find (\<lambda>s. es_id s = the step_id) (expense_steps i bk)
                    else expense_pending (expense_steps i bk)) of
                None \<Rightarrow> Inl XNoPendingStep
              | Some s \<Rightarrow>
                  if es_status s \<noteq> XPending then Inl XNoPendingStep
                  else (case find (\<lambda>x. xu_id x = approver) (xb_users bk) of
                     None \<Rightarrow> Inl XApproverNotFound
                   | Some a \<Rightarrow>
                       if \<not> xu_here a then Inl XApproverNotFound
                       else Inr (xemit ''expense.reassigned'' i (xaudit ''expense.reassign_approver'' i
                              (put_steps [s\<lparr>es_approver := Some (xu_id a), es_approver_email := Some (xu_email a)\<rparr>] bk)))))) bk)"

end
