(* ===== verification/ExpenseItems.thy ===== *)
theory ExpenseItems
  imports ExpenseReports Authz "HOL-Library.List_Lexorder" "HOL-Library.Char_ord"
begin

text \<open>
  The items of a report and the inbox of card and bank transactions: the editing handlers
  of \<open>api/routes/expenses.py\<close> and the commands of \<open>services/expense_commands.py\<close>, which
  answer a repeated key with the recorded outcome. The digest of a request is an
  argument, and so is the digest of an imported file; a statement arrives parsed.
\<close>

section \<open>Identifiers and codes\<close>

definition is_hex :: "char \<Rightarrow> bool" where
  "is_hex c \<longleftrightarrow> c \<in> set ''0123456789abcdefABCDEF''"

text \<open>\<open>str(UUID(value))\<close>, for hexadecimal digits with or without hyphens and braces.\<close>

definition parse_uuid :: "string \<Rightarrow> string option" where
  "parse_uuid s =
     (let t = dropWhile (\<lambda>c. c \<in> set ''{}'') (rev (dropWhile (\<lambda>c. c \<in> set ''{}'') (rev s)));
          h = filter (\<lambda>c. c \<noteq> CHR ''-'') t
      in if length h = 32 \<and> list_all is_hex h
         then Some (py_lower (take 8 h @ ''-'' @ take 4 (drop 8 h) @ ''-'' @ take 4 (drop 12 h) @ ''-'' @
                take 4 (drop 16 h) @ ''-'' @ drop 20 h))
         else None)"

definition key_char :: "char \<Rightarrow> bool" where
  "key_char c \<longleftrightarrow> is_upper c \<or> is_lower c \<or> is_digit c \<or> c \<in> set '':_-''"

definition command_key :: "string option \<Rightarrow> string \<Rightarrow> string \<Rightarrow> expense_fault + string" where
  "command_key value operation digest =
     (case value of
        None \<Rightarrow> Inr (''legacy-'' @ operation @ '':'' @ digest)
      | Some k \<Rightarrow> if k \<noteq> [] \<and> length k \<le> 120 \<and> list_all key_char k then Inr k else Inl XBadKey)"

definition currency_code :: "string option \<Rightarrow> expense_fault + string option" where
  "currency_code value =
     (case value of
        None \<Rightarrow> Inr None
      | Some s \<Rightarrow>
          let t = py_upper (py_strip s)
          in if t = [] then Inr None
             else if length t = 3 \<and> list_all is_upper t then Inr (Some t) else Inl XCurrencyInvalid)"

section \<open>Commands\<close>

record import_result =
  im_imported :: nat
  im_batch :: ident
  im_replayed :: bool
  im_skipped :: nat
  im_transactions :: "expense_txn list"
  im_available :: nat
  im_assigned :: nat
  im_binned :: nat
  im_unavailable :: int

datatype command_result = ReportResult expense_report | ImportResult import_result | BinResult ident int

record expense_command =
  xc_employee :: ident
  xc_key :: string
  xc_operation :: string
  xc_hash :: string
  xc_target :: ident
  xc_result :: command_result

record import_batch =
  xm_id :: ident
  xm_employee :: ident
  xm_account :: string
  xm_sha :: string
  xm_currency :: "string option"
  xm_rows :: nat
  xm_credits :: nat

record inbox = expense_books +
  xb_commands :: "expense_command list"
  xb_imports :: "import_batch list"

abbreviation books_of :: "inbox \<Rightarrow> expense_books" where
  "books_of ib \<equiv> expense_books.truncate ib"

text \<open>The books of the reports with the commands and imports of \<open>ib\<close>.\<close>

definition with_books :: "expense_books \<Rightarrow> inbox \<Rightarrow> inbox" where
  "with_books bk ib =
     \<lparr>xb_enabled = xb_enabled bk, xb_reports = xb_reports bk, xb_steps = xb_steps bk, xb_policy = xb_policy bk,
      xb_appr = xb_appr bk, xb_txns = xb_txns bk, xb_users = xb_users bk, xb_rates = xb_rates bk,
      xb_comments = xb_comments bk, xb_trail = xb_trail bk, xb_events = xb_events bk,
      xb_commands = xb_commands ib, xb_imports = xb_imports ib\<rparr>"

text \<open>Roles as the authorization reads them: the membership must be active and may write.\<close>

definition lock_actor :: "bool \<Rightarrow> user \<Rightarrow> inbox \<Rightarrow> expense_fault + unit" where
  "lock_actor active authority ib =
     (if \<not> active then Inl XNoAccess
      else if \<not> has_perm authority EXPENSE_WRITE then Inl XNoAccess
      else if \<not> xb_enabled ib then Inl XModuleDisabled
      else Inr ())"

definition command_lookup ::
  "ident \<Rightarrow> string \<Rightarrow> string option \<Rightarrow> string option \<Rightarrow> inbox \<Rightarrow> expense_fault + expense_command option" where
  "command_lookup employee key operation expected ib =
     (case find (\<lambda>c. xc_employee c = employee \<and> xc_key c = key) (xb_commands ib) of
        None \<Rightarrow> Inr None
      | Some c \<Rightarrow>
          if (operation \<noteq> None \<and> operation \<noteq> Some (xc_operation c)) \<or> (expected \<noteq> None \<and> expected \<noteq> Some (xc_hash c))
          then Inl XKeyConflict else Inr (Some c))"

definition record_command ::
  "ident \<Rightarrow> string \<Rightarrow> string \<Rightarrow> string \<Rightarrow> ident \<Rightarrow> command_result \<Rightarrow> inbox \<Rightarrow> inbox" where
  "record_command employee key operation digest target res ib =
     (let entry = (case res of
                     ImportResult r \<Rightarrow> if operation = ''statement_imported'' \<and> im_replayed r
                       then ''expense.statement_import_replayed'' else ''expense.'' @ operation
                   | _ \<Rightarrow> ''expense.'' @ operation)
      in ib\<lparr>xb_commands := xb_commands ib @ [\<lparr>xc_employee = employee, xc_key = key, xc_operation = operation,
               xc_hash = digest, xc_target = target, xc_result = res\<rparr>],
             xb_trail := xb_trail ib @ [(entry, target)]\<rparr>)"

section \<open>Transactions\<close>

definition visible_txns :: "ident \<Rightarrow> expense_books \<Rightarrow> expense_txn list" where
  "visible_txns employee bk =
     filter (\<lambda>t. xt_employee t = employee \<and> xt_deleted_by t = None) (xb_txns bk)"

definition available_txns ::
  "ident \<Rightarrow> string list \<Rightarrow> (string \<times> int) list \<Rightarrow> expense_books \<Rightarrow> expense_fault + expense_txn list" where
  "available_txns employee ids versions bk =
     (if ids = [] then Inr []
      else if \<exists>i \<in> set ids. parse_uuid i = None then Inl XBadId
      else let us = map (the \<circ> parse_uuid) ids in
           if \<not> distinct us then Inl XBadId
           else let rows = sort_key xt_id (filter (\<lambda>t. xt_id t \<in> set us \<and> xt_status t = ''available'') (visible_txns employee bk))
                in if length rows \<noteq> length us then (if versions \<noteq> [] then Inl XTxnSelection else Inl XTxnNotFound)
                   else if versions \<noteq> [] \<and> (\<exists>t \<in> set rows. map_of versions (xt_id t) \<noteq> Some (xt_version t))
                   then Inl XTxnSelection
                   else Inr rows)"

text \<open>The dots are the two bytes of a middle dot.\<close>

definition transaction_reference :: "expense_txn \<Rightarrow> string" where
  "transaction_reference t =
     (let dot = '' '' @ [CHR 0xC2, CHR 0xB7] @ '' ''
      in iso_date (xt_date t) @ dot @ str_or (xt_merchant t) (take 60 (xt_description t)) @ dot @
         xt_currency t @ '' '' @ str_cents (q2 (xt_amount t)))"

definition require_report_currency :: "expense_txn \<Rightarrow> string \<Rightarrow> expense_fault + unit" where
  "require_report_currency t rc =
     (case currency_code (Some (xt_currency t)) of
        Inl e \<Rightarrow> Inl e
      | Inr c \<Rightarrow>
          if c \<noteq> Some rc \<or> (xt_source t = ''bank_statement'' \<and> xt_batch t = None \<and> xt_currency_source t = None)
          then Inl XCurrencyMismatch else Inr ())"

definition item_from_transaction ::
  "ecb_rate list \<Rightarrow> ident \<Rightarrow> expense_txn \<Rightarrow> string \<Rightarrow> string \<Rightarrow> decimal \<Rightarrow> expense_fault + expense_item" where
  "item_from_transaction st i t rc category vat =
     (case require_report_currency t rc of
        Inl e \<Rightarrow> Inl e
      | Inr _ \<Rightarrow>
          if xt_amount t < vat then Inl XVatTooHigh
          else (case apply_item_fx st rc
                  \<lparr>xi_id = i, xi_date = xt_date t, xi_category = category, xi_description = take 300 (xt_description t),
                   xi_merchant = xt_merchant t, xi_amount = q2 (xt_amount t), xi_currency = Some (xt_currency t),
                   xi_original = Some (q2 (xt_amount t)), xi_fx_rate = None, xi_fx_source = None, xi_vat = q2 vat,
                   xi_reclaimable = True,
                   xi_payment = (if xt_source t \<in> {''bank_statement'', ''card''} then ''company_card'' else ''personal''),
                   xi_billable = False, xi_billable_customer = None, xi_comment = None, xi_type = XStandard,
                   xi_distance = None, xi_mileage_rate = None, xi_unit = None, xi_days = None, xi_day_rate = None,
                   xi_declaration = None, xi_bank_reference = Some (transaction_reference t), xi_receipt = None\<rparr> of
                  Inl e \<Rightarrow> Inl (XItem e) | Inr it \<Rightarrow> Inr it))"

definition set_txn :: "ident \<Rightarrow> string \<Rightarrow> ident option \<Rightarrow> expense_books \<Rightarrow> expense_books" where
  "set_txn i st item bk =
     bk\<lparr>xb_txns := map (\<lambda>t. if xt_id t = i then t\<lparr>xt_status := st, xt_item := item, xt_version := xt_version t + 1\<rparr> else t)
         (xb_txns bk)\<rparr>"

text \<open>The foreign key of a transaction to a removed item becomes NULL.\<close>

definition drop_item_links :: "ident list \<Rightarrow> expense_books \<Rightarrow> expense_books" where
  "drop_item_links is bk =
     bk\<lparr>xb_txns := map (\<lambda>t. if xt_item t \<in> Some ` set is then t\<lparr>xt_item := None\<rparr> else t) (xb_txns bk)\<rparr>"

section \<open>Editing a report\<close>

record report_update =
  ru_title :: "string option"
  ru_currency :: "string option"
  ru_note :: "string option"
  ru_items :: "(ident \<times> item_in) list option"

definition update_report :: "ident \<Rightarrow> report_update \<Rightarrow> expense_user \<Rightarrow> expense_books \<Rightarrow> expense_fault + expense_books" where
  "update_report i body u bk =
     on_own_report i u (\<lambda>r.
       let r1 = r\<lparr>xr_title := (case ru_title body of None \<Rightarrow> xr_title r | Some t \<Rightarrow> t),
                  xr_currency := (case ru_currency body of None \<Rightarrow> xr_currency r | Some c \<Rightarrow> py_upper c),
                  xr_note := (case ru_note body of None \<Rightarrow> xr_note r | Some n \<Rightarrow> Some n)\<rparr>
       in (case ru_items body of
             None \<Rightarrow> Inr (put_report r1 bk)
           | Some ps \<Rightarrow>
               (case build_items (xb_rates bk) (xr_currency r1) ps of
                  Inl e \<Rightarrow> Inl (XItem e)
                | Inr items \<Rightarrow>
                    Inr (drop_item_links (map xi_id (xr_items r))
                      (put_report (with_totals (r1\<lparr>xr_items := items\<rparr>)) bk))))) bk"

definition add_item :: "ident \<Rightarrow> ident \<Rightarrow> item_in \<Rightarrow> expense_user \<Rightarrow> expense_books \<Rightarrow> expense_fault + expense_books" where
  "add_item i new body u bk =
     on_own_report i u (\<lambda>r.
       case build_items (xb_rates bk) (xr_currency r) [(new, body)] of
         Inl e \<Rightarrow> Inl (XItem e)
       | Inr items \<Rightarrow> Inr (put_report (with_totals (r\<lparr>xr_items := xr_items r @ items\<rparr>)) bk)) bk"

definition delete_report :: "ident \<Rightarrow> expense_user \<Rightarrow> expense_books \<Rightarrow> expense_fault + expense_books" where
  "delete_report i u bk =
     on_report i (\<lambda>r.
       if xr_employee r \<noteq> xu_id u \<or> xr_status r \<noteq> E_draft then Inl XNotOwnDraft
       else Inr (xaudit ''expense.report_binned'' i (put_report (r\<lparr>xr_deleted_by := Some (xu_email u)\<rparr>) bk))) bk"

definition add_item_from_transaction ::
  "ident \<Rightarrow> ident \<Rightarrow> string \<Rightarrow> string \<Rightarrow> decimal \<Rightarrow> expense_user \<Rightarrow> expense_books \<Rightarrow> expense_fault + expense_books" where
  "add_item_from_transaction i new txn category vat u bk =
     on_own_report i u (\<lambda>r.
       case available_txns (xu_id u) [txn] [] bk of
         Inl e \<Rightarrow> Inl e
       | Inr [] \<Rightarrow> Inl XTxnNotFound
       | Inr (t # _) \<Rightarrow>
           (case item_from_transaction (xb_rates bk) new t (xr_currency r) category vat of
              Inl e \<Rightarrow> Inl e
            | Inr it \<Rightarrow>
                Inr (set_txn (xt_id t) ''assigned'' (Some new)
                  (put_report (with_totals (r\<lparr>xr_items := xr_items r @ [it]\<rparr>)) bk)))) bk"

definition add_comment :: "ident \<Rightarrow> string \<Rightarrow> expense_user \<Rightarrow> expense_books \<Rightarrow> expense_fault + expense_books" where
  "add_comment i body u bk =
     on_report i (\<lambda>r. case require_view r u of
         Inl e \<Rightarrow> Inl e
       | Inr _ \<Rightarrow> Inr (bk\<lparr>xb_comments := xb_comments bk @ [(i, xu_id u, body)]\<rparr>)) bk"

text \<open>The fields of a patch: the outer option says whether the field is present.\<close>

record item_patch =
  pa_description :: "string option option"
  pa_merchant :: "string option option"
  pa_date :: "date option option"
  pa_reclaimable :: "bool option option"
  pa_payment :: "string option option"
  pa_billable :: "bool option option"
  pa_billable_customer :: "string option option"
  pa_comment :: "string option option"
  pa_declaration :: "string option option"
  pa_category :: "string option option"
  pa_amount :: "decimal option option"
  pa_vat :: "decimal option option"

text \<open>NULL in a column that does not allow it is refused by the database.\<close>

definition nulls_item :: "item_patch \<Rightarrow> bool" where
  "nulls_item p \<longleftrightarrow> pa_description p = Some None \<or> pa_date p = Some None \<or> pa_reclaimable p = Some None \<or>
     pa_payment p = Some None \<or> pa_billable p = Some None \<or> pa_category p = Some None"

definition present :: "'a option option \<Rightarrow> 'a \<Rightarrow> 'a" where
  "present f old = (case f of Some (Some x) \<Rightarrow> x | _ \<Rightarrow> old)"

definition present_null :: "'a option option \<Rightarrow> 'a option \<Rightarrow> 'a option" where
  "present_null f old = (case f of None \<Rightarrow> old | Some x \<Rightarrow> x)"

definition patch_fields :: "item_patch \<Rightarrow> expense_item \<Rightarrow> expense_item" where
  "patch_fields p it =
     it\<lparr>xi_description := present (pa_description p) (xi_description it),
        xi_merchant := present_null (pa_merchant p) (xi_merchant it),
        xi_date := present (pa_date p) (xi_date it),
        xi_reclaimable := present (pa_reclaimable p) (xi_reclaimable it),
        xi_payment := present (pa_payment p) (xi_payment it),
        xi_billable := present (pa_billable p) (xi_billable it),
        xi_billable_customer := present_null (pa_billable_customer p) (xi_billable_customer it),
        xi_comment := present_null (pa_comment p) (xi_comment it),
        xi_declaration := present_null (pa_declaration p) (xi_declaration it),
        xi_category := present (pa_category p) (xi_category it)\<rparr>"

definition patch_item :: "ecb_rate list \<Rightarrow> string \<Rightarrow> item_patch \<Rightarrow> expense_item \<Rightarrow> item_error + expense_item" where
  "patch_item st rc p it =
     (let it1 = patch_fields p it;
          priced = (case pa_amount p of
                      Some (Some a) \<Rightarrow>
                        (let it2 = it1\<lparr>xi_amount := q2 a\<rparr>
                         in if xi_original it2 \<noteq> None \<and> truthy (xi_currency it2) then apply_item_fx st rc it2 else Inr it2)
                    | _ \<Rightarrow> Inr it1)
      in (case priced of
            Inl e \<Rightarrow> Inl e
          | Inr it3 \<Rightarrow> Inr (case pa_vat p of Some (Some v) \<Rightarrow> it3\<lparr>xi_vat := q2 v\<rparr> | _ \<Rightarrow> it3)))"

definition put_item :: "expense_item \<Rightarrow> expense_report \<Rightarrow> expense_report" where
  "put_item it r = r\<lparr>xr_items := map (\<lambda>x. if xi_id x = xi_id it then it else x) (xr_items r)\<rparr>"

definition on_item ::
  "ident \<Rightarrow> expense_report \<Rightarrow> (expense_item \<Rightarrow> expense_fault + expense_books) \<Rightarrow> expense_fault + expense_books" where
  "on_item j r h =
     (case find (\<lambda>it. xi_id it = j) (xr_items r) of None \<Rightarrow> Inl XItemNotFound | Some it \<Rightarrow> h it)"

definition update_item ::
  "ident \<Rightarrow> ident \<Rightarrow> item_patch \<Rightarrow> expense_user \<Rightarrow> expense_books \<Rightarrow> expense_fault + expense_books" where
  "update_item i j p u bk =
     on_own_report i u (\<lambda>r. on_item j r (\<lambda>it.
       if nulls_item p then Inl XNullColumn
       else (case patch_item (xb_rates bk) (xr_currency r) p it of
               Inl e \<Rightarrow> Inl (XItem e)
             | Inr it' \<Rightarrow>
                 let r' = put_item it' r
                 in Inr (put_report (if pa_amount p \<noteq> None \<or> pa_vat p \<noteq> None then with_totals r' else r') bk)))) bk"

text \<open>Reconciling an item with a statement line.\<close>

definition MATCH_TOLERANCE :: decimal where "MATCH_TOLERANCE = 1 / 100"

definition match_candidates ::
  "ident \<Rightarrow> ident \<Rightarrow> expense_user \<Rightarrow> expense_books \<Rightarrow> expense_fault + expense_txn list" where
  "match_candidates i j u bk =
     (if \<not> xb_enabled bk then Inl XModuleDisabled
      else (case load_report i bk of
        None \<Rightarrow> Inl XNotFound
      | Some r \<Rightarrow>
          (case require_owner_editable r u of
             Inl e \<Rightarrow> Inl e
           | Inr _ \<Rightarrow>
               (case find (\<lambda>it. xi_id it = j) (xr_items r) of
                  None \<Rightarrow> Inl XItemNotFound
                | Some it \<Rightarrow>
                    Inr (take 10 (sort_key (\<lambda>t. \<bar>xt_date t - xi_date it\<bar>)
                      (filter (\<lambda>t. xt_status t = ''available'' \<and> xt_currency t = xr_currency r \<and>
                           \<bar>xt_amount t - xi_amount it\<bar> \<le> MATCH_TOLERANCE \<and>
                           (xt_source t \<noteq> ''bank_statement'' \<or> xt_batch t \<noteq> None))
                        (visible_txns (xu_id u) bk))))))))"

definition match_item ::
  "ident \<Rightarrow> ident \<Rightarrow> string \<Rightarrow> expense_user \<Rightarrow> expense_books \<Rightarrow> expense_fault + expense_books" where
  "match_item i j txn u bk =
     on_own_report i u (\<lambda>r. on_item j r (\<lambda>it.
       case available_txns (xu_id u) [txn] [] bk of
         Inl e \<Rightarrow> Inl e
       | Inr [] \<Rightarrow> Inl XTxnNotFound
       | Inr (t # _) \<Rightarrow>
           (case require_report_currency t (xr_currency r) of
              Inl e \<Rightarrow> Inl e
            | Inr _ \<Rightarrow>
                if MATCH_TOLERANCE < \<bar>xt_amount t - xi_amount it\<bar> then Inl (XAmountsDiffer (xi_amount it) (xt_amount t))
                else Inr (set_txn (xt_id t) ''assigned'' (Some j)
                       (put_report (put_item (it\<lparr>xi_bank_reference := Some (transaction_reference t)\<rparr>) r) bk))))) bk"

definition unmatch_item :: "ident \<Rightarrow> ident \<Rightarrow> expense_user \<Rightarrow> expense_books \<Rightarrow> expense_fault + expense_books" where
  "unmatch_item i j u bk =
     on_own_report i u (\<lambda>r. on_item j r (\<lambda>it.
       let bk1 = put_report (put_item (it\<lparr>xi_bank_reference := None\<rparr>) r) bk
       in (case find (\<lambda>t. xt_item t = Some j) (visible_txns (xu_id u) bk) of
             None \<Rightarrow> Inr bk1
           | Some t \<Rightarrow> Inr (set_txn (xt_id t) ''available'' None bk1)))) bk"

text \<open>The stored digest of an accepted upload.\<close>

definition attach_receipt ::
  "ident \<Rightarrow> ident \<Rightarrow> string \<Rightarrow> expense_user \<Rightarrow> expense_books \<Rightarrow> expense_fault + expense_books" where
  "attach_receipt i j sha u bk =
     on_own_report i u (\<lambda>r. on_item j r (\<lambda>it. Inr (put_report (put_item (it\<lparr>xi_receipt := Some sha\<rparr>) r) bk))) bk"

section \<open>Creating a report\<close>

record report_in =
  ri_title :: string
  ri_currency :: string
  ri_note :: "string option"
  ri_items :: "(ident \<times> item_in) list"
  ri_txns :: "string list"
  ri_versions :: "(string \<times> int) list"

definition MONEY_MAX :: decimal where "MONEY_MAX = 99999999999999 / 100"

fun first_fault :: "('a \<Rightarrow> expense_fault + 'b) \<Rightarrow> 'a list \<Rightarrow> expense_fault + 'b list" where
  "first_fault f [] = Inr []"
| "first_fault f (x # xs) =
     (case f x of
        Inl e \<Rightarrow> Inl e
      | Inr y \<Rightarrow> (case first_fault f xs of Inl e \<Rightarrow> Inl e | Inr ys \<Rightarrow> Inr (y # ys)))"

text \<open>A stated item currency of another report currency, or an invalid one.\<close>

definition item_currency_fault :: "string \<Rightarrow> item_in \<Rightarrow> expense_fault + unit" where
  "item_currency_fault rc p =
     (if \<not> truthy (in_currency p) then Inr ()
      else (case currency_code (in_currency p) of
              Inl e \<Rightarrow> Inl e | Inr c \<Rightarrow> if c \<noteq> Some rc then Inl XCurrencyMismatch else Inr ()))"

definition fresh_report :: "ident \<Rightarrow> report_in \<Rightarrow> expense_user \<Rightarrow> expense_item list \<Rightarrow> expense_report" where
  "fresh_report i body u items =
     \<lparr>xr_id = i, xr_employee = xu_id u, xr_employee_name = xu_name u, xr_deleted_by = None,
      xr_title = ri_title body, xr_status = E_draft, xr_currency = ri_currency body, xr_note = ri_note body,
      xr_total = fst (compute_totals items), xr_vat_total = snd (compute_totals items), xr_total_eur = None,
      xr_submitted_at = None, xr_decided_at = None, xr_decided_by = None, xr_decision_note = None,
      xr_version = 1, xr_reimbursed_at = None, xr_payment_method = None, xr_payment_reference = None,
      xr_batch = None, xr_items = items\<rparr>"

text \<open>
  The command inside its lock: the recorded answer of the key, or the new report.
  \<open>fresh\<close> names the item a transaction becomes; \<open>manual\<close> is the key of a report with
  neither a key nor transactions, which is never the same twice.
\<close>

definition create_report ::
  "ident \<Rightarrow> (ident \<Rightarrow> ident) \<Rightarrow> string \<Rightarrow> string \<Rightarrow> string option \<Rightarrow> report_in \<Rightarrow> expense_user \<Rightarrow> bool \<Rightarrow> user \<Rightarrow>
   inbox \<Rightarrow> expense_fault + command_result \<times> inbox" where
  "create_report i fresh manual digest supplied body u active authority ib =
     (if \<not> xb_enabled ib then Inl XModuleDisabled
      else if supplied \<noteq> None \<and> ri_txns body \<noteq> [] \<and> ri_versions body = [] then Inl XVersionRequired
      else (case (if ri_txns body = [] \<and> supplied = None then Inr (''legacy-manual:'' @ manual)
                  else command_key supplied ''report'' digest) of
        Inl e \<Rightarrow> Inl e
      | Inr key \<Rightarrow>
      (case lock_actor active authority ib of
         Inl e \<Rightarrow> Inl e
       | Inr _ \<Rightarrow>
      (case command_lookup (xu_id u) key (Some ''report_created'') (Some digest) ib of
         Inl e \<Rightarrow> Inl e
       | Inr (Some old) \<Rightarrow> Inr (xc_result old, ib)
       | Inr None \<Rightarrow>
      (case available_txns (xu_id u) (ri_txns body) (ri_versions body) (books_of ib) of
         Inl e \<Rightarrow> Inl e
       | Inr rows \<Rightarrow>
      (case first_fault (\<lambda>t. require_report_currency t (ri_currency body)) rows of
         Inl e \<Rightarrow> Inl e
       | Inr _ \<Rightarrow>
      (case (if rows = [] then Inr [] else first_fault (\<lambda>(j, p). item_currency_fault (ri_currency body) p) (ri_items body)) of
         Inl e \<Rightarrow> Inl e
       | Inr _ \<Rightarrow>
      (case build_items (xb_rates ib) (ri_currency body) (ri_items body) of
         Inl e \<Rightarrow> Inl (XItem e)
       | Inr manual_items \<Rightarrow>
      (case first_fault (\<lambda>t. item_from_transaction (xb_rates ib) (fresh (xt_id t)) t (ri_currency body) ''other'' 0) rows of
         Inl e \<Rightarrow> Inl e
       | Inr txn_items \<Rightarrow>
           let items = manual_items @ txn_items;
               r = fresh_report i body u items
           in if MONEY_MAX < xr_total r \<or> MONEY_MAX < xr_vat_total r then Inl XOutOfRange
              else let bk = (books_of ib)\<lparr>xb_reports := xb_reports ib @ [r]\<rparr>;
                       bk1 = foldl (\<lambda>b t. set_txn (xt_id t) ''assigned'' (Some (fresh (xt_id t))) b) bk rows
                   in Inr (ReportResult r, record_command (xu_id u) key ''report_created'' digest i (ReportResult r)
                             (with_books bk1 ib)))))))))))"

section \<open>Importing a statement\<close>

datatype flow = Debit | Credit

record statement_row =
  sr_date :: date
  sr_description :: string
  sr_amount :: decimal
  sr_currency :: "string option"
  sr_direction :: flow

definition MAX_IMPORT_ROWS :: nat where "MAX_IMPORT_ROWS = 5000"

definition import_outcome :: "import_batch \<Rightarrow> bool \<Rightarrow> expense_user \<Rightarrow> expense_books \<Rightarrow> import_result" where
  "import_outcome b replayed u bk =
     (let rows = sort_key (\<lambda>t. case xt_row t of None \<Rightarrow> 0 | Some n \<Rightarrow> n) (filter (\<lambda>t. xt_employee t = xu_id u \<and> xt_batch t = Some (xm_id b)) (xb_txns bk));
          visible = filter (\<lambda>t. xt_deleted_by t = None) rows
      in \<lparr>im_imported = (if replayed then 0 else xm_rows b), im_batch = xm_id b, im_replayed = replayed,
          im_skipped = xm_credits b, im_transactions = visible,
          im_available = length (filter (\<lambda>t. xt_status t = ''available'') visible),
          im_assigned = length (filter (\<lambda>t. xt_status t = ''assigned'') visible),
          im_binned = length (filter (\<lambda>t. xt_deleted_by t \<noteq> None) rows),
          im_unavailable = int (xm_rows b) - int (length rows)\<rparr>)"

text \<open>The currency of a debit and where it is from.\<close>

definition resolve_row :: "string option \<Rightarrow> nat \<times> statement_row \<Rightarrow> expense_fault + nat \<times> statement_row \<times> string \<times> string" where
  "resolve_row confirmed = (\<lambda>(n, row).
     case currency_code (sr_currency row) of
       Inl e \<Rightarrow> Inl e
     | Inr stated \<Rightarrow>
         if stated \<noteq> None \<and> confirmed \<noteq> None \<and> stated \<noteq> confirmed then Inl XCurrencyMismatch
         else (case (if stated \<noteq> None then stated else confirmed) of
                 None \<Rightarrow> Inl XCurrencyRequired
               | Some cc \<Rightarrow>
                   if \<not> (0 < sr_amount row \<and> sr_amount row \<le> MONEY_MAX) then Inl XOutOfRange
                   else Inr (n, row, cc, if stated \<noteq> None then ''statement'' else ''confirmed'')))"

definition txn_of ::
  "(nat \<Rightarrow> ident) \<Rightarrow> ident \<Rightarrow> ident \<Rightarrow> nat \<times> statement_row \<times> string \<times> string \<Rightarrow> expense_txn" where
  "txn_of fresh employee batch = (\<lambda>(n, row, cc, provenance).
     \<lparr>xt_id = fresh n, xt_employee = employee, xt_date = sr_date row, xt_description = take 300 (sr_description row),
      xt_merchant = None, xt_amount = q2 (sr_amount row), xt_currency = cc, xt_source = ''bank_statement'',
      xt_status = ''available'', xt_item = None, xt_version = 1, xt_batch = Some batch, xt_row = Some n,
      xt_currency_source = Some provenance, xt_deleted_by = None\<rparr>)"

definition import_statement ::
  "ident \<Rightarrow> (nat \<Rightarrow> ident) \<Rightarrow> statement_row list \<Rightarrow> string \<Rightarrow> string \<Rightarrow> string option \<Rightarrow> string option \<Rightarrow> string option \<Rightarrow>
   expense_user \<Rightarrow> bool \<Rightarrow> user \<Rightarrow> inbox \<Rightarrow> expense_fault + import_result \<times> inbox" where
  "import_statement i fresh rows sha digest reference currency supplied u active authority ib =
     (let account = py_strip (str_or reference []) in
      if \<not> xb_enabled ib then Inl XModuleDisabled
      else if account = [] \<or> 120 < length account then Inl XAccountRequired
      else (case currency_code currency of
        Inl e \<Rightarrow> Inl e
      | Inr confirmed \<Rightarrow>
      (case command_key supplied ''import'' digest of
         Inl e \<Rightarrow> Inl e
       | Inr key \<Rightarrow>
      (case lock_actor active authority ib of
         Inl e \<Rightarrow> Inl e
       | Inr _ \<Rightarrow>
      (case command_lookup (xu_id u) key (Some ''statement_imported'') (Some digest) ib of
         Inl e \<Rightarrow> Inl e
       | Inr old \<Rightarrow>
      (case find (\<lambda>b. xm_employee b = xu_id u \<and> xm_account b = account \<and> xm_sha b = sha) (xb_imports ib) of
         Some b \<Rightarrow>
           if xm_currency b \<noteq> confirmed then Inl XImportCurrency
           else let res = import_outcome b True u (books_of ib)
                in Inr (res, if old = None
                             then record_command (xu_id u) key ''statement_imported'' digest (xm_id b) (ImportResult res) ib
                             else ib)
       | None \<Rightarrow>
           if old \<noteq> None then Inl XResultUnavailable
           else if MAX_IMPORT_ROWS < length rows then Inl XTooManyRows
           else (case first_fault (resolve_row confirmed)
                        (filter (\<lambda>(n, row). sr_direction row = Debit) (enumerate 0 rows)) of
              Inl e \<Rightarrow> Inl e
            | Inr resolved \<Rightarrow>
                let b = \<lparr>xm_id = i, xm_employee = xu_id u, xm_account = account, xm_sha = sha, xm_currency = confirmed,
                         xm_rows = length resolved,
                         xm_credits = length (filter (\<lambda>row. sr_direction row = Credit) rows)\<rparr>;
                    ib1 = ib\<lparr>xb_txns := xb_txns ib @ map (txn_of fresh (xu_id u) i) resolved,
                             xb_imports := xb_imports ib @ [b]\<rparr>;
                    res = import_outcome b False u (books_of ib1)
                in Inr (res, record_command (xu_id u) key ''statement_imported'' digest i (ImportResult res) ib1))))))))"

section \<open>Removing a transaction, reading a command\<close>

definition remove_transaction ::
  "string \<Rightarrow> int option \<Rightarrow> string option \<Rightarrow> (string \<Rightarrow> string) \<Rightarrow> expense_user \<Rightarrow> bool \<Rightarrow> user \<Rightarrow> inbox \<Rightarrow> expense_fault + inbox" where
  "remove_transaction target version supplied digest_of u active authority ib =
     (if \<not> xb_enabled ib then Inl XModuleDisabled
      else (case parse_uuid target of
        None \<Rightarrow> Inl XBadId
      | Some t \<Rightarrow>
      if supplied \<noteq> None \<and> version = None then Inl XVersionRequired
      else (case command_key supplied ''remove'' (digest_of t) of
         Inl e \<Rightarrow> Inl e
       | Inr key \<Rightarrow>
      (case lock_actor active authority ib of
         Inl e \<Rightarrow> Inl e
       | Inr _ \<Rightarrow>
      (case command_lookup (xu_id u) key (Some ''transaction_binned'') (Some (digest_of t)) ib of
         Inl e \<Rightarrow> Inl e
       | Inr (Some _) \<Rightarrow> Inr ib
       | Inr None \<Rightarrow>
      (case find (\<lambda>x. xt_employee x = xu_id u \<and> xt_id x = t) (xb_txns ib) of
         None \<Rightarrow> Inl XTxnNotFound
       | Some x \<Rightarrow>
           if xt_deleted_by x \<noteq> None \<or> xt_status x \<noteq> ''available'' \<or> xt_item x \<noteq> None then Inl XTxnSelection
           else if version \<noteq> None \<and> version \<noteq> Some (xt_version x) then Inl XTxnSelection
           else Inr (record_command (xu_id u) key ''transaction_binned'' (digest_of t) t (BinResult t (xt_version x + 1))
                  (ib\<lparr>xb_txns := map (\<lambda>y. if xt_id y = t
                        then y\<lparr>xt_deleted_by := Some (xu_email u), xt_version := xt_version y + 1\<rparr> else y)
                      (xb_txns ib)\<rparr>))))))))"

definition command_outcome :: "expense_user \<Rightarrow> string \<Rightarrow> inbox \<Rightarrow> expense_fault + command_result" where
  "command_outcome u key ib =
     (if \<not> xb_enabled ib then Inl XModuleDisabled
      else (case command_lookup (xu_id u) key None None ib of
              Inl e \<Rightarrow> Inl e | Inr None \<Rightarrow> Inl XNoCommand | Inr (Some c) \<Rightarrow> Inr (xc_result c)))"

end
