(* ===== verification/Reimbursement.thy ===== *)
theory Reimbursement
  imports ExpenseItems Sepa
begin

text \<open>
  Paying employees back: \<open>services/reimbursement.py\<close> and \<open>api/routes/reimbursements.py\<close>.
  Approved reports are grouped into a batch, the batch is paid by somebody other than
  its creator, and its reports are stamped; the batch can be exported as a file. The bank
  details of the employees are a map over the members of the organisation.
\<close>

section \<open>State\<close>

datatype batch_status = BatchOpen | BatchPaid | BatchCancelled

record payout_batch =
  pt_id :: ident
  pt_reference :: "string option"
  pt_method :: string
  pt_status :: batch_status
  pt_note :: "string option"
  pt_total_eur :: decimal
  pt_paid_at :: "instant option"
  pt_created_by :: "string option"
  pt_created_by_id :: "ident option"
  pt_exported_at :: "instant option"
  pt_export_count :: nat
  pt_last_msg_id :: "string option"
  pt_version :: int

record payout_books =
  po_inbox :: inbox
  po_batches :: "payout_batch list"
  po_accounts :: "ident \<Rightarrow> (string option \<times> string option) option"
  po_issuer :: "issuer option"

datatype payout_fault =
    PModuleDisabled | PNotApprover | PBatchNotFound | PStale int | PNothingSelected | PReportsNotFound "ident list"
  | PNotApproved string expense_status | PAlreadyBatched string | PNoEur string | PNotOpen batch_status
  | PMakerIsChecker | PNoReports | PNotExportable | PAlreadyExported nat | PSepa sepa_error

section \<open>Reading\<close>

definition get_batch :: "ident \<Rightarrow> payout_books \<Rightarrow> payout_batch option" where
  "get_batch i bk = find (\<lambda>b. pt_id b = i) (po_batches bk)"

definition put_batch :: "payout_batch \<Rightarrow> payout_books \<Rightarrow> payout_books" where
  "put_batch b bk = bk\<lparr>po_batches := map (\<lambda>x. if pt_id x = pt_id b then b else x) (po_batches bk)\<rparr>"

definition on_books :: "(inbox \<Rightarrow> inbox) \<Rightarrow> payout_books \<Rightarrow> payout_books" where
  "on_books f bk = bk\<lparr>po_inbox := f (po_inbox bk)\<rparr>"

definition payout_log :: "string \<Rightarrow> ident \<Rightarrow> payout_books \<Rightarrow> payout_books" where
  "payout_log action i = on_books (\<lambda>ib. ib\<lparr>xb_trail := xb_trail ib @ [(action, i)]\<rparr>)"

definition payout_emit :: "string \<Rightarrow> ident \<Rightarrow> payout_books \<Rightarrow> payout_books" where
  "payout_emit ev i = on_books (\<lambda>ib. ib\<lparr>xb_events := xb_events ib @ [(ev, i)]\<rparr>)"

text \<open>A binned report is outside every query.\<close>

definition live_reports :: "payout_books \<Rightarrow> expense_report list" where
  "live_reports bk = filter (\<lambda>r. xr_deleted_by r = None) (xb_reports (po_inbox bk))"

definition change_reports ::
  "(expense_report \<Rightarrow> bool) \<Rightarrow> (expense_report \<Rightarrow> expense_report) \<Rightarrow> payout_books \<Rightarrow> payout_books" where
  "change_reports P f = on_books (\<lambda>ib. ib\<lparr>xb_reports :=
     map (\<lambda>r. if xr_deleted_by r = None \<and> P r then f r else r) (xb_reports ib)\<rparr>)"

definition batch_reports :: "ident \<Rightarrow> payout_books \<Rightarrow> expense_report list" where
  "batch_reports i bk = sort_key xr_employee_name (filter (\<lambda>r. xr_batch r = Some i) (live_reports bk))"

definition report_eur :: "expense_report \<Rightarrow> payout_fault + decimal" where
  "report_eur r =
     (case xr_total_eur r of
        Some x \<Rightarrow> Inr (q2 x)
      | None \<Rightarrow>
          if py_upper (if xr_currency r = [] then ''EUR'' else xr_currency r) = ''EUR'' then Inr (q2 (xr_total r))
          else Inl (PNoEur (xr_title r)))"

definition report_eur_or_none :: "expense_report \<Rightarrow> decimal option" where
  "report_eur_or_none r = (case report_eur r of Inl _ \<Rightarrow> None | Inr x \<Rightarrow> Some x)"

fun payout_sum :: "expense_report list \<Rightarrow> payout_fault + decimal" where
  "payout_sum [] = Inr 0"
| "payout_sum (r # rs) =
     (case report_eur r of
        Inl e \<Rightarrow> Inl e
      | Inr x \<Rightarrow> (case payout_sum rs of Inl e \<Rightarrow> Inl e | Inr y \<Rightarrow> Inr (x + y)))"

definition payout_guard :: "expense_user \<Rightarrow> payout_books \<Rightarrow> payout_fault + unit" where
  "payout_guard u bk =
     (if \<not> xu_approver u then Inl PNotApprover
      else if \<not> xb_enabled (po_inbox bk) then Inl PModuleDisabled else Inr ())"

text \<open>The guards and the lock of one batch.\<close>

definition on_batch ::
  "expense_user \<Rightarrow> ident \<Rightarrow> (payout_batch \<Rightarrow> payout_fault + 'a) \<Rightarrow> payout_books \<Rightarrow> payout_fault + 'a" where
  "on_batch u i h bk =
     (case payout_guard u bk of
        Inl e \<Rightarrow> Inl e
      | Inr _ \<Rightarrow> (case get_batch i bk of None \<Rightarrow> Inl PBatchNotFound | Some b \<Rightarrow> h b))"

section \<open>Maker and checker\<close>

definition payout_conflict :: "payout_batch \<Rightarrow> expense_user \<Rightarrow> bool" where
  "payout_conflict b u \<longleftrightarrow>
     same_handle (Some (xu_id u)) (pt_created_by_id b) \<or> same_handle (Some (xu_email u)) (pt_created_by b)"

definition payout_sod :: "payout_batch \<Rightarrow> expense_user \<Rightarrow> bool \<Rightarrow> payout_fault + (string \<times> ident) list" where
  "payout_sod b u override_sod =
     (if \<not> payout_conflict b u then Inr []
      else if xu_platform_admin u \<and> override_sod then Inr [(''reimbursement.sod_override'', pt_id b)]
      else Inl PMakerIsChecker)"

section \<open>Operations\<close>

fun check_payable :: "expense_report list \<Rightarrow> payout_fault + unit" where
  "check_payable [] = Inr ()"
| "check_payable (r # rs) =
     (if xr_status r \<notin> {E_approved, E_marked} then Inl (PNotApproved (xr_title r) (xr_status r))
      else if truthy (xr_batch r) then Inl (PAlreadyBatched (xr_title r))
      else check_payable rs)"

definition create_batch ::
  "ident \<Rightarrow> ident list \<Rightarrow> string \<Rightarrow> string option \<Rightarrow> expense_user \<Rightarrow> payout_books \<Rightarrow> payout_fault + payout_books" where
  "create_batch i ids meth nt u bk =
     (case payout_guard u bk of
        Inl e \<Rightarrow> Inl e
      | Inr _ \<Rightarrow>
          if ids = [] then Inl PNothingSelected
          else let reports = filter (\<lambda>r. xr_id r \<in> set ids) (live_reports bk);
                   missing = filter (\<lambda>j. j \<notin> xr_id ` set reports) ids
               in if missing \<noteq> [] then Inl (PReportsNotFound missing)
                  else (case check_payable reports of
                     Inl e \<Rightarrow> Inl e
                   | Inr _ \<Rightarrow>
                  (case payout_sum reports of
                     Inl e \<Rightarrow> Inl e
                   | Inr eur \<Rightarrow>
                       let b = \<lparr>pt_id = i, pt_reference = None, pt_method = meth, pt_status = BatchOpen, pt_note = nt,
                                pt_total_eur = q2 eur, pt_paid_at = None, pt_created_by = Some (xu_email u),
                                pt_created_by_id = Some (xu_id u), pt_exported_at = None, pt_export_count = 0,
                                pt_last_msg_id = None, pt_version = 1\<rparr>
                       in Inr (payout_emit ''expense.reimbursement_created'' i (payout_log ''expense.reimbursement_batch'' i
                            (change_reports (\<lambda>r. xr_id r \<in> set ids) (\<lambda>r. r\<lparr>xr_batch := Some i\<rparr>)
                              (bk\<lparr>po_batches := po_batches bk @ [b]\<rparr>)))))))"

definition paid_report :: "instant \<Rightarrow> string \<Rightarrow> string option \<Rightarrow> expense_report \<Rightarrow> expense_report" where
  "paid_report now meth ref r =
     r\<lparr>xr_status := E_reimbursed, xr_reimbursed_at := Some now, xr_payment_method := Some meth,
       xr_payment_reference := ref\<rparr>"

definition pay_batch ::
  "ident \<Rightarrow> int \<Rightarrow> string option \<Rightarrow> string option \<Rightarrow> bool \<Rightarrow> expense_user \<Rightarrow> instant \<Rightarrow> payout_books \<Rightarrow>
   payout_fault + payout_books" where
  "pay_batch i version ref meth override_sod u now bk =
     on_batch u i (\<lambda>b.
       if version \<noteq> pt_version b then Inl (PStale (pt_version b))
       else if pt_status b \<noteq> BatchOpen then Inl (PNotOpen (pt_status b))
       else (case payout_sod b u override_sod of
          Inl e \<Rightarrow> Inl e
        | Inr entries \<Rightarrow>
            if batch_reports i bk = [] then Inl PNoReports
            else (case payout_sum (batch_reports i bk) of
               Inl e \<Rightarrow> Inl e
             | Inr eur \<Rightarrow>
                 let m = (if truthy meth then the meth else pt_method b);
                     b' = b\<lparr>pt_method := m, pt_reference := ref, pt_status := BatchPaid, pt_paid_at := Some now,
                            pt_total_eur := q2 eur, pt_version := pt_version b + 1\<rparr>;
                     logged = foldl (\<lambda>k (a, j). payout_log a j k) bk entries
                 in Inr (payout_emit ''expense.reimbursed'' i (payout_log ''expense.reimbursement_paid'' i
                      (put_batch b' (change_reports (\<lambda>r. xr_batch r = Some i) (paid_report now m ref) logged))))))) bk"

definition cancel_batch :: "ident \<Rightarrow> expense_user \<Rightarrow> payout_books \<Rightarrow> payout_fault + payout_books" where
  "cancel_batch i u bk =
     on_batch u i (\<lambda>b.
       if pt_status b \<noteq> BatchOpen then Inl (PNotOpen (pt_status b))
       else Inr (payout_log ''expense.reimbursement_cancel'' i
              (put_batch (b\<lparr>pt_status := BatchCancelled, pt_version := pt_version b + 1\<rparr>)
                (change_reports (\<lambda>r. xr_batch r = Some i) (\<lambda>r. r\<lparr>xr_batch := None\<rparr>) bk)))) bk"

section \<open>Exports\<close>

definition batch_exportable :: "payout_batch \<Rightarrow> bool \<Rightarrow> payout_fault + unit" where
  "batch_exportable b confirm_reexport =
     (if pt_status b = BatchCancelled then Inl PNotExportable
      else if pt_export_count b \<noteq> 0 \<and> \<not> confirm_reexport then Inl (PAlreadyExported (pt_export_count b))
      else Inr ())"

definition batch_record_export :: "string option \<Rightarrow> instant \<Rightarrow> payout_batch \<Rightarrow> payout_batch" where
  "batch_record_export msg_id now b =
     b\<lparr>pt_exported_at := (case pt_exported_at b of None \<Rightarrow> Some now | Some t \<Rightarrow> Some t),
       pt_export_count := pt_export_count b + 1,
       pt_last_msg_id := (if truthy msg_id then msg_id else pt_last_msg_id b)\<rparr>"

record payout_row =
  pw_reference :: string
  pw_employee :: string
  pw_report :: string
  pw_amount :: string
  pw_currency :: string
  pw_eur :: string
  pw_method :: string

definition payout_csv :: "payout_batch \<Rightarrow> expense_report list \<Rightarrow> payout_row list" where
  "payout_csv b reports =
     map (\<lambda>r. \<lparr>pw_reference = sanitize_cell (Some (str_or (pt_reference b) (pt_id b))),
       pw_employee = sanitize_cell (Some (xr_employee_name r)), pw_report = sanitize_cell (Some (xr_title r)),
       pw_amount = str_cents (q2 (xr_total r)), pw_currency = xr_currency r,
       pw_eur = (case report_eur_or_none r of None \<Rightarrow> [] | Some x \<Rightarrow> str_cents x), pw_method = pt_method b\<rparr>) reports"

definition export_batch ::
  "bool \<Rightarrow> instant \<Rightarrow> ident \<Rightarrow> expense_user \<Rightarrow> payout_books \<Rightarrow> payout_fault + payout_row list \<times> payout_books" where
  "export_batch confirm_reexport now i u bk =
     on_batch u i (\<lambda>b.
       case batch_exportable b confirm_reexport of
         Inl e \<Rightarrow> Inl e
       | Inr _ \<Rightarrow> Inr (payout_csv b (batch_reports i bk),
           payout_log ''expense.reimbursement_exported'' i (put_batch (batch_record_export None now b) bk))) bk"

text \<open>One transfer per report of an employee with an account; the others are named.\<close>

fun payout_transfers ::
  "(ident \<Rightarrow> (string option \<times> string option) option) \<Rightarrow> expense_report list \<Rightarrow>
   payout_fault + credit_transfer list \<times> string list" where
  "payout_transfers accounts [] = Inr ([], [])"
| "payout_transfers accounts (r # rs) =
     (let account = accounts (xr_employee r);
          iban = (case account of None \<Rightarrow> None | Some (n, _) \<Rightarrow> n)
      in if \<not> truthy iban
         then (case payout_transfers accounts rs of
                 Inl e \<Rightarrow> Inl e | Inr (ts, sk) \<Rightarrow> Inr (ts, xr_employee_name r # sk))
         else (case report_eur r of
                 Inl e \<Rightarrow> Inl e
               | Inr eur \<Rightarrow>
                   (case payout_transfers accounts rs of
                      Inl e \<Rightarrow> Inl e
                    | Inr (ts, sk) \<Rightarrow>
                        Inr (\<lparr>ct_end_to_end = take 35 (xr_id r), ct_amount = eur, ct_creditor_name = xr_employee_name r,
                              ct_creditor_iban = the iban, ct_creditor_bic = snd (the account),
                              ct_remittance = take 140 (''Expense reimbursement '' @ xr_title r),
                              ct_currency = ''EUR''\<rparr> # ts, sk))))"

definition batch_sepa ::
  "string \<Rightarrow> bool \<Rightarrow> date \<Rightarrow> ident \<Rightarrow> payout_books \<Rightarrow> payout_fault + pain001 \<times> string list" where
  "batch_sepa msg_id acknowledge exec_date i bk =
     (if batch_reports i bk = [] then Inl PNoReports
      else (case payout_transfers (po_accounts bk) (batch_reports i bk) of
         Inl e \<Rightarrow> Inl e
       | Inr (ts, skipped) \<Rightarrow>
      (case (if ts = [] then Inr () else assert_skipped_acknowledged skipped acknowledge) of
         Inl e \<Rightarrow> Inl (PSepa e)
       | Inr _ \<Rightarrow>
           let debtor = (case po_issuer bk of None \<Rightarrow> ''Our company'' | Some s \<Rightarrow> str_or (is_legal_name s) ''Our company'')
           in (case build_pain001 msg_id exec_date debtor (case po_issuer bk of None \<Rightarrow> None | Some s \<Rightarrow> is_iban s)
                     (case po_issuer bk of None \<Rightarrow> None | Some s \<Rightarrow> is_bic s) ts of
                 Inl e \<Rightarrow> Inl (PSepa e) | Inr x \<Rightarrow> Inr (x, skipped)))))"

definition export_batch_sepa ::
  "bool \<Rightarrow> bool \<Rightarrow> string \<Rightarrow> date \<Rightarrow> instant \<Rightarrow> ident \<Rightarrow> expense_user \<Rightarrow> payout_books \<Rightarrow>
   payout_fault + (pain001 \<times> string list) \<times> payout_books" where
  "export_batch_sepa confirm_reexport acknowledge rnd exec_date now i u bk =
     on_batch u i (\<lambda>b.
       case batch_exportable b confirm_reexport of
         Inl e \<Rightarrow> Inl e
       | Inr _ \<Rightarrow>
           (case new_msg_id ''REIMB'' (pt_id b) rnd (pt_export_count b + 1) of
              Inl e \<Rightarrow> Inl (PSepa e)
            | Inr mid \<Rightarrow>
                (case batch_sepa mid acknowledge exec_date i bk of
                   Inl e \<Rightarrow> Inl e
                 | Inr x \<Rightarrow> Inr (x, payout_log ''expense.reimbursement_exported'' i
                     (put_batch (batch_record_export (Some mid) now b) bk))))) bk"

end
