(* ===== verification/ExpenseRun.thy ===== *)
theory ExpenseRun
  imports Reimbursement
begin

text \<open>
  The expense module as a transition system: every writing handler of a report, its items,
  its approval and its payment is a step, and the states reachable from empty books keep
  the invariant \<open>books_ok\<close>. It says that the totals of a report are those of its items,
  that a report in review has a chain of which only others than the claimant approved
  steps, and that a settled report has every step of its chain approved.
\<close>

section \<open>The invariant\<close>

definition SETTLED :: "expense_status list" where
  "SETTLED = [E_approved, E_marked, E_reimbursed]"

definition chain_of :: "ident \<Rightarrow> expense_step list \<Rightarrow> expense_step list" where
  "chain_of i steps = filter (\<lambda>s. es_report s = i) steps"

definition totals_ok :: "expense_report \<Rightarrow> bool" where
  "totals_ok r \<longleftrightarrow> (xr_total r, xr_vat_total r) = compute_totals (xr_items r) \<and> distinct (map xi_id (xr_items r))"

definition step_ok :: "ident \<Rightarrow> expense_step \<Rightarrow> bool" where
  "step_ok employee s \<longleftrightarrow> es_status s = XPending \<or>
     (es_status s = XApproved \<and> es_decided_by s \<noteq> None \<and> es_decided_by s \<noteq> Some employee)"

definition report_ok :: "expense_step list \<Rightarrow> expense_report \<Rightarrow> bool" where
  "report_ok ch r \<longleftrightarrow>
     totals_ok r \<and>
     (\<not> expense_is_editable (xr_status r) \<longrightarrow> xr_items r \<noteq> [] \<and>
        (py_upper (xr_currency r) = ''EUR'' \<longrightarrow> xr_total_eur r = Some (xr_total r))) \<and>
     (xr_status r \<in> set IN_APPROVAL \<union> set SETTLED \<longrightarrow> ch \<noteq> [] \<and> (\<forall>s \<in> set ch. step_ok (xr_employee r) s)) \<and>
     (xr_status r \<in> set SETTLED \<longrightarrow> (\<forall>s \<in> set ch. es_status s = XApproved)) \<and>
     (xr_batch r \<noteq> None \<longrightarrow> xr_status r \<in> set SETTLED)"

definition books_ok :: "expense_report list \<Rightarrow> expense_step list \<Rightarrow> bool" where
  "books_ok rs steps \<longleftrightarrow> distinct (map xr_id rs) \<and> distinct (map es_id steps) \<and>
     (\<forall>r \<in> set rs. report_ok (chain_of (xr_id r) steps) r)"

lemma books_okD:
  assumes "books_ok rs steps"
  shows "distinct (map xr_id rs)" "distinct (map es_id steps)"
    "r \<in> set rs \<Longrightarrow> report_ok (chain_of (xr_id r) steps) r"
  using assms by (simp_all add: books_ok_def)

lemma compute_totals_perm: "mset xs = mset ys \<Longrightarrow> compute_totals xs = compute_totals ys"
  by (metis (no_types) compute_totals_def mset_map sum_mset_sum_list)

lemma report_ok_perm:
  assumes "report_ok ch r" "mset items = mset (xr_items r)"
  shows "report_ok ch (r\<lparr>xr_items := items\<rparr>)"
proof -
  have "compute_totals items = compute_totals (xr_items r)" by (rule compute_totals_perm) fact
  moreover have "distinct (map xi_id items) = distinct (map xi_id (xr_items r))"
    using assms(2) by (metis mset_map mset_eq_imp_distinct_iff)
  moreover have "items = [] \<longleftrightarrow> xr_items r = []" using assms(2) by (metis mset_zero_iff)
  ultimately show ?thesis using assms(1) by (simp add: report_ok_def totals_ok_def)
qed

section \<open>What a handler does to the books\<close>

text \<open>The loaded report, and the books with it replaced.\<close>

lemma load_report_Some:
  assumes "load_report i bk = Some r"
  shows "xr_id r = i \<and> (\<exists>r0 \<in> set (xb_reports bk). xr_deleted_by r0 = None \<and> xr_id r0 = i \<and> r = r0\<lparr>xr_items := sort_key xi_date (xr_items r0)\<rparr>)"
  using assms by (auto simp: load_report_def find_report_def find_Some_iff)

lemma loaded_ok:
  assumes "books_ok (xb_reports bk) (xb_steps bk)" "load_report i bk = Some r"
  shows "report_ok (chain_of i (xb_steps bk)) r"
proof -
  obtain r0 where r0: "r0 \<in> set (xb_reports bk)" "xr_id r0 = i" "r = r0\<lparr>xr_items := sort_key xi_date (xr_items r0)\<rparr>"
    using load_report_Some [OF assms(2)] by blast
  then show ?thesis using books_okD(3) [OF assms(1) r0(1)] by (simp add: report_ok_perm)
qed

definition replaced :: "expense_report \<Rightarrow> expense_report list \<Rightarrow> expense_report list" where
  "replaced r rs = map (\<lambda>x. if xr_id x = xr_id r then r else x) rs"

lemma replaced_ids [simp]: "map xr_id (replaced r rs) = map xr_id rs"
  by (induction rs) (simp_all add: replaced_def)

lemma books_ok_replaced:
  assumes "books_ok rs steps" "distinct (map es_id steps')"
    "\<And>j. j \<noteq> xr_id r \<Longrightarrow> chain_of j steps' = chain_of j steps" "report_ok (chain_of (xr_id r) steps') r"
  shows "books_ok (replaced r rs) steps'"
  unfolding books_ok_def replaced_ids
proof (intro conjI ballI)
  show "distinct (map xr_id rs)" by (rule books_okD(1) [OF assms(1)])
  fix x assume "x \<in> set (replaced r rs)"
  then show "report_ok (chain_of (xr_id x) steps') x"
    using assms(3,4) books_okD(3) [OF assms(1)] by (auto simp: replaced_def)
qed (rule assms(2))

lemma books_ok_edit:
  assumes "books_ok rs steps" "report_ok (chain_of (xr_id r) steps) r"
  shows "books_ok (replaced r rs) steps"
  using books_ok_replaced [OF assms(1) books_okD(2) [OF assms(1)]] assms(2) by blast

lemma put_report_simps [simp]:
  "xb_reports (put_report r bk) = replaced r (xb_reports bk)" "xb_steps (put_report r bk) = xb_steps bk"
  by (simp_all add: put_report_def replaced_def)

lemma xaudit_simps [simp]: "xb_reports (xaudit a i bk) = xb_reports bk" "xb_steps (xaudit a i bk) = xb_steps bk"
  "xb_reports (xemit a i bk) = xb_reports bk" "xb_steps (xemit a i bk) = xb_steps bk"
  by (simp_all add: xaudit_def xemit_def)

lemma txn_simps [simp]:
  "xb_reports (set_txn i st it bk) = xb_reports bk" "xb_steps (set_txn i st it bk) = xb_steps bk"
  "xb_reports (drop_item_links is bk) = xb_reports bk" "xb_steps (drop_item_links is bk) = xb_steps bk"
  by (simp_all add: set_txn_def drop_item_links_def)

text \<open>An answer of a chain of guards.\<close>

lemma bind_Inr:
  "(case x of Inl e \<Rightarrow> Inl (f e) | Inr y \<Rightarrow> h y) = Inr z \<longleftrightarrow> (\<exists>y. x = Inr y \<and> h y = Inr z)"
  "(case l of [] \<Rightarrow> Inl e' | t # ts \<Rightarrow> g t ts) = Inr z \<longleftrightarrow> (\<exists>t ts. l = t # ts \<and> g t ts = Inr z)"
  "(case v of None \<Rightarrow> Inl e'' | Some w \<Rightarrow> k w) = Inr z \<longleftrightarrow> (\<exists>w. v = Some w \<and> k w = Inr z)"
  "(if b then Inl e3 else m) = Inr z \<longleftrightarrow> \<not> b \<and> m = Inr z"
  by (auto split: sum.splits list.splits option.splits)

lemma on_report_Inr:
  "on_report i h bk = Inr bk' \<longleftrightarrow> xb_enabled bk \<and> (\<exists>r. load_report i bk = Some r \<and> h r = Inr bk')"
  by (auto simp: on_report_def split: option.splits)

lemma on_own_report_Inr:
  "on_own_report i u h bk = Inr bk' \<longleftrightarrow> xb_enabled bk \<and>
     (\<exists>r. load_report i bk = Some r \<and> xr_employee r = xu_id u \<and> expense_is_editable (xr_status r) \<and> h r = Inr bk')"
  by (auto simp: on_own_report_def on_report_Inr require_owner_editable_def split: if_splits)

lemma on_item_Inr:
  "on_item j r h = Inr bk' \<longleftrightarrow> (\<exists>it. find (\<lambda>it. xi_id it = j) (xr_items r) = Some it \<and> h it = Inr bk')"
  by (simp add: on_item_def split: option.splits)

section \<open>Editing\<close>

text \<open>What every editing handler leaves: the same report, still editable, with its totals.\<close>

definition edited :: "expense_report \<Rightarrow> expense_report \<Rightarrow> bool" where
  "edited r r' \<longleftrightarrow> xr_id r' = xr_id r \<and> xr_status r' = xr_status r \<and> xr_batch r' = xr_batch r \<and> totals_ok r'"

lemma editable_only: "expense_is_editable s \<Longrightarrow> s \<notin> set IN_APPROVAL \<and> s \<notin> set SETTLED"
  by (auto simp: expense_is_editable_def EXPENSE_EDITABLE_def IN_APPROVAL_def SETTLED_def)

lemma report_ok_editable:
  assumes "totals_ok r" "expense_is_editable (xr_status r)" "xr_batch r = None"
  shows "report_ok ch r"
  unfolding report_ok_def using assms editable_only [OF assms(2)] by simp

lemma editable_unbatched:
  assumes "report_ok ch r" "xr_status r \<notin> set SETTLED"
  shows "xr_batch r = None"
  using assms unfolding report_ok_def by blast

lemma edited_ok:
  assumes "report_ok ch r" "expense_is_editable (xr_status r)" "edited r r'"
  shows "report_ok ch r'"
proof (rule report_ok_editable)
  have "xr_batch r = None" using editable_unbatched [OF assms(1)] editable_only [OF assms(2)] by blast
  then show "xr_batch r' = None" using assms(3) by (simp add: edited_def)
qed (use assms(2,3) in \<open>simp_all add: edited_def\<close>)

definition edits :: "expense_books \<Rightarrow> expense_books \<Rightarrow> bool" where
  "edits bk bk' \<longleftrightarrow> xb_steps bk' = xb_steps bk \<and>
     (\<exists>i r r'. load_report i bk = Some r \<and> expense_is_editable (xr_status r) \<and> edited r r' \<and>
        xb_reports bk' = replaced r' (xb_reports bk))"

lemma edits_ok:
  assumes ok: "books_ok (xb_reports bk) (xb_steps bk)" and e: "edits bk bk'"
  shows "books_ok (xb_reports bk') (xb_steps bk')"
proof -
  obtain i r r' where r: "load_report i bk = Some r" "expense_is_editable (xr_status r)" "edited r r'"
    "xb_reports bk' = replaced r' (xb_reports bk)" and s: "xb_steps bk' = xb_steps bk"
    using e by (auto simp: edits_def)
  have "xr_id r' = i" using load_report_Some [OF r(1)] r(3) by (simp add: edited_def)
  moreover have "report_ok (chain_of i (xb_steps bk)) r'" by (rule edited_ok [OF loaded_ok [OF ok r(1)] r(2,3)])
  ultimately show ?thesis using books_ok_edit [OF ok] r(4) s by simp
qed

lemma editsI:
  assumes "load_report i bk = Some r" "expense_is_editable (xr_status r)" "edited r r'"
    "xb_reports bk' = replaced r' (xb_reports bk)" "xb_steps bk' = xb_steps bk"
  shows "edits bk bk'"
  using assms by (auto simp: edits_def)

lemma with_totals_edited:
  "distinct (map xi_id (xr_items r')) \<Longrightarrow> xr_id r' = xr_id r \<Longrightarrow> xr_status r' = xr_status r \<Longrightarrow> xr_batch r' = xr_batch r \<Longrightarrow>
   edited r (with_totals r')"
  by (simp add: edited_def with_totals_def totals_ok_def)

lemma put_item_edited:
  assumes "totals_ok r" "find (\<lambda>it. xi_id it = j) (xr_items r) = Some it" "xi_id it' = j"
    "xi_amount it' = xi_amount it" "xi_vat it' = xi_vat it"
  shows "edited r (put_item it' r)"
proof -
  have it: "it \<in> set (xr_items r)" "xi_id it = j" using assms(2) by (auto simp: find_Some_iff)
  have d: "distinct (map xi_id (xr_items r))" using assms(1) by (simp add: totals_ok_def)
  have same: "xi_amount (if xi_id x = xi_id it' then it' else x) = xi_amount x"
    "xi_vat (if xi_id x = xi_id it' then it' else x) = xi_vat x" if "x \<in> set (xr_items r)" for x
  proof -
    have "xi_id x = j \<Longrightarrow> x = it" using that it d by (auto simp: distinct_map dest: inj_onD)
    then show "xi_amount (if xi_id x = xi_id it' then it' else x) = xi_amount x"
      "xi_vat (if xi_id x = xi_id it' then it' else x) = xi_vat x" using assms(3-5) by auto
  qed
  have "map xi_amount (xr_items (put_item it' r)) = map xi_amount (xr_items r)"
    "map xi_vat (xr_items (put_item it' r)) = map xi_vat (xr_items r)"
    using same by (simp_all add: put_item_def)
  moreover have "map xi_id (xr_items (put_item it' r)) = map xi_id (xr_items r)" by (simp add: put_item_def)
  ultimately show ?thesis using assms(1) by (simp add: edited_def totals_ok_def compute_totals_def put_item_def del: map_map)
qed

lemma apply_item_fx_id: "apply_item_fx st rc it = Inr it' \<Longrightarrow> xi_id it' = xi_id it"
  unfolding apply_item_fx_def Let_def by (auto split: option.splits sum.splits if_splits)

lemma apply_item_fx_vat: "apply_item_fx st rc it = Inr it' \<Longrightarrow> xi_vat it' = xi_vat it"
  unfolding apply_item_fx_def Let_def by (auto split: option.splits sum.splits if_splits)

lemma build_items_ids: "build_items st rc ps = Inr items \<Longrightarrow> map xi_id items = map fst ps"
  by (induction st rc ps arbitrary: items rule: build_items.induct)
    (auto split: sum.splits dest: apply_item_fx_id simp: item_from_def)

lemma item_from_transaction_id: "item_from_transaction st i t rc c v = Inr it \<Longrightarrow> xi_id it = i"
  unfolding item_from_transaction_def by (auto split: sum.splits if_splits dest: apply_item_fx_id)

text \<open>The ids of the items in use.\<close>

definition item_ids :: "expense_books \<Rightarrow> ident set" where
  "item_ids bk = (\<Union>r \<in> set (xb_reports bk). xi_id ` set (xr_items r))"

lemma loaded_items:
  assumes "load_report i bk = Some r" "new \<notin> item_ids bk"
  shows "new \<notin> xi_id ` set (xr_items r)"
proof -
  obtain r0 where "r0 \<in> set (xb_reports bk)" "r = r0\<lparr>xr_items := sort_key xi_date (xr_items r0)\<rparr>"
    using load_report_Some [OF assms(1)] by blast
  then show ?thesis using assms(2) by (auto simp: item_ids_def)
qed

lemma update_report_edits:
  assumes op: "update_report i body u bk = Inr bk'" and d: "\<And>ps. ru_items body = Some ps \<Longrightarrow> distinct (map fst ps)"
    and ok: "books_ok (xb_reports bk) (xb_steps bk)"
  shows "edits bk bk'"
proof -
  obtain r where r: "load_report i bk = Some r" "expense_is_editable (xr_status r)"
    using op by (auto simp: update_report_def on_own_report_Inr)
  have t: "totals_ok r" using loaded_ok [OF ok r(1)] by (simp add: report_ok_def)
  let ?r1 = "r\<lparr>xr_title := (case ru_title body of None \<Rightarrow> xr_title r | Some t \<Rightarrow> t),
                  xr_currency := (case ru_currency body of None \<Rightarrow> xr_currency r | Some c \<Rightarrow> py_upper c),
                  xr_note := (case ru_note body of None \<Rightarrow> xr_note r | Some n \<Rightarrow> Some n)\<rparr>"
  show ?thesis
  proof (cases "ru_items body")
    case None
    then have "bk' = put_report ?r1 bk" using op r(1) by (simp add: update_report_def on_own_report_Inr Let_def)
    moreover have "edited r ?r1" using t by (simp add: edited_def totals_ok_def)
    ultimately show ?thesis by (intro editsI [OF r]) simp_all
  next
    case (Some ps)
    then obtain items where items: "build_items (xb_rates bk) (xr_currency ?r1) ps = Inr items"
      "bk' = drop_item_links (map xi_id (xr_items r)) (put_report (with_totals (?r1\<lparr>xr_items := items\<rparr>)) bk)"
      using op r(1) by (auto simp: update_report_def on_own_report_Inr Let_def split: sum.splits)
    have "distinct (map xi_id items)" using build_items_ids [OF items(1)] d [OF Some] by simp
    then have "edited r (with_totals (?r1\<lparr>xr_items := items\<rparr>))" by (intro with_totals_edited) simp_all
    then show ?thesis by (intro editsI [OF r]) (simp_all add: items(2))
  qed
qed

lemma appended_edited:
  assumes "totals_ok r" "new \<notin> xi_id ` set (xr_items r)" "map xi_id items = [new]"
  shows "edited r (with_totals (r\<lparr>xr_items := xr_items r @ items\<rparr>))"
proof -
  obtain it where "items = [it]" "xi_id it = new" using assms(3) by (auto simp: map_eq_Cons_conv)
  then show ?thesis using assms(1,2) by (intro with_totals_edited) (auto simp: totals_ok_def)
qed

lemma add_item_edits:
  assumes op: "add_item i new body u bk = Inr bk'" and n: "new \<notin> item_ids bk"
    and ok: "books_ok (xb_reports bk) (xb_steps bk)"
  shows "edits bk bk'"
proof -
  obtain r items where r: "load_report i bk = Some r" "expense_is_editable (xr_status r)"
    and b: "build_items (xb_rates bk) (xr_currency r) [(new, body)] = Inr items"
      "bk' = put_report (with_totals (r\<lparr>xr_items := xr_items r @ items\<rparr>)) bk"
    using op unfolding add_item_def on_own_report_Inr bind_Inr by blast
  have "totals_ok r" using loaded_ok [OF ok r(1)] by (simp add: report_ok_def)
  then have "edited r (with_totals (r\<lparr>xr_items := xr_items r @ items\<rparr>))"
    using appended_edited loaded_items [OF r(1) n] build_items_ids [OF b(1)] by simp
  then show ?thesis by (intro editsI [OF r]) (simp_all add: b(2))
qed

lemma add_item_from_transaction_edits:
  assumes op: "add_item_from_transaction i new txn c v u bk = Inr bk'" and n: "new \<notin> item_ids bk"
    and ok: "books_ok (xb_reports bk) (xb_steps bk)"
  shows "edits bk bk'"
proof -
  obtain r t it where r: "load_report i bk = Some r" "expense_is_editable (xr_status r)"
    and b: "item_from_transaction (xb_rates bk) new t (xr_currency r) c v = Inr it"
      "bk' = set_txn (xt_id t) ''assigned'' (Some new) (put_report (with_totals (r\<lparr>xr_items := xr_items r @ [it]\<rparr>)) bk)"
    using op unfolding add_item_from_transaction_def on_own_report_Inr bind_Inr by blast
  have "totals_ok r" using loaded_ok [OF ok r(1)] by (simp add: report_ok_def)
  then have "edited r (with_totals (r\<lparr>xr_items := xr_items r @ [it]\<rparr>))"
    using appended_edited [of r new "[it]"] loaded_items [OF r(1) n] item_from_transaction_id [OF b(1)] by simp
  then show ?thesis by (intro editsI [OF r]) (simp_all add: b(2))
qed

lemma delete_report_edits:
  assumes op: "delete_report i u bk = Inr bk'" and ok: "books_ok (xb_reports bk) (xb_steps bk)"
  shows "edits bk bk'"
proof -
  obtain r where r: "load_report i bk = Some r" "xr_status r = E_draft"
    "bk' = xaudit ''expense.report_binned'' i (put_report (r\<lparr>xr_deleted_by := Some (xu_email u)\<rparr>) bk)"
    using op unfolding delete_report_def on_report_Inr by (auto split: if_splits)
  have e: "expense_is_editable (xr_status r)" using r(2) by (simp add: expense_is_editable_def EXPENSE_EDITABLE_def)
  have "totals_ok r" using loaded_ok [OF ok r(1)] by (simp add: report_ok_def)
  then have "edited r (r\<lparr>xr_deleted_by := Some (xu_email u)\<rparr>)" by (simp add: edited_def totals_ok_def)
  then show ?thesis by (intro editsI [OF r(1) e]) (simp_all add: r(3))
qed

lemma patch_item_id: "patch_item st rc p it = Inr it' \<Longrightarrow> xi_id it' = xi_id it"
  unfolding patch_item_def Let_def
  by (auto simp: patch_fields_def split: option.splits sum.splits if_splits dest!: apply_item_fx_id)

lemma patch_item_money:
  "patch_item st rc p it = Inr it' \<Longrightarrow> pa_amount p = None \<Longrightarrow> pa_vat p = None \<Longrightarrow>
   xi_amount it' = xi_amount it \<and> xi_vat it' = xi_vat it"
  by (auto simp: patch_item_def patch_fields_def)

lemma put_item_ids [simp]: "map xi_id (xr_items (put_item it r)) = map xi_id (xr_items r)"
  by (simp add: put_item_def)

lemma put_item_frame [simp]:
  "xr_id (put_item it r) = xr_id r" "xr_status (put_item it r) = xr_status r" "xr_batch (put_item it r) = xr_batch r"
  by (simp_all add: put_item_def)

lemma update_item_edits:
  assumes op: "update_item i j p u bk = Inr bk'" and ok: "books_ok (xb_reports bk) (xb_steps bk)"
  shows "edits bk bk'"
proof -
  obtain r it it' where r: "load_report i bk = Some r" "expense_is_editable (xr_status r)"
    and it: "find (\<lambda>it. xi_id it = j) (xr_items r) = Some it" and p: "patch_item (xb_rates bk) (xr_currency r) p it = Inr it'"
    and b: "bk' = put_report (if pa_amount p \<noteq> None \<or> pa_vat p \<noteq> None then with_totals (put_item it' r) else put_item it' r) bk"
    using op unfolding update_item_def on_own_report_Inr on_item_Inr Let_def bind_Inr by blast
  have t: "totals_ok r" using loaded_ok [OF ok r(1)] by (simp add: report_ok_def)
  have j: "xi_id it' = j" using patch_item_id [OF p] it by (auto simp: find_Some_iff)
  have "edited r (with_totals (put_item it' r))" using t by (intro with_totals_edited) (simp_all add: totals_ok_def)
  moreover have "edited r (put_item it' r)" if "pa_amount p = None" "pa_vat p = None"
    using put_item_edited [OF t it j] patch_item_money [OF p that] by simp
  ultimately have "edited r (if pa_amount p \<noteq> None \<or> pa_vat p \<noteq> None then with_totals (put_item it' r) else put_item it' r)"
    by simp
  then show ?thesis by (intro editsI [OF r]) (simp_all add: b)
qed

lemma set_item_edits:
  assumes "load_report i bk = Some r" "expense_is_editable (xr_status r)" "find (\<lambda>it. xi_id it = j) (xr_items r) = Some it"
    "xi_id it' = j" "xi_amount it' = xi_amount it" "xi_vat it' = xi_vat it"
    "xb_reports bk' = replaced (put_item it' r) (xb_reports bk)" "xb_steps bk' = xb_steps bk"
    "books_ok (xb_reports bk) (xb_steps bk)"
  shows "edits bk bk'"
proof -
  have "totals_ok r" using loaded_ok [OF assms(9,1)] by (simp add: report_ok_def)
  then show ?thesis by (intro editsI [OF assms(1,2) put_item_edited [OF _ assms(3-6)] assms(7,8)])
qed

lemma match_item_edits:
  assumes op: "match_item i j txn u bk = Inr bk'" and ok: "books_ok (xb_reports bk) (xb_steps bk)"
  shows "edits bk bk'"
proof -
  obtain r it t where r: "load_report i bk = Some r" "expense_is_editable (xr_status r)"
    "find (\<lambda>it. xi_id it = j) (xr_items r) = Some it"
    and b: "bk' = set_txn (xt_id t) ''assigned'' (Some j)
      (put_report (put_item (it\<lparr>xi_bank_reference := Some (transaction_reference t)\<rparr>) r) bk)"
    using op unfolding match_item_def on_own_report_Inr on_item_Inr Let_def bind_Inr by blast
  have "xi_id it = j" using r(3) by (auto simp: find_Some_iff)
  then show ?thesis by (intro set_item_edits [OF r _ _ _ _ _ ok]) (simp_all add: b)
qed

lemma unmatch_item_edits:
  assumes op: "unmatch_item i j u bk = Inr bk'" and ok: "books_ok (xb_reports bk) (xb_steps bk)"
  shows "edits bk bk'"
proof -
  obtain r it where r: "load_report i bk = Some r" "expense_is_editable (xr_status r)"
    "find (\<lambda>it. xi_id it = j) (xr_items r) = Some it"
    and b: "xb_reports bk' = replaced (put_item (it\<lparr>xi_bank_reference := None\<rparr>) r) (xb_reports bk) \<and> xb_steps bk' = xb_steps bk"
    using op unfolding unmatch_item_def on_own_report_Inr on_item_Inr Let_def by (auto split: option.splits)
  have "xi_id it = j" using r(3) by (auto simp: find_Some_iff)
  then show ?thesis by (intro set_item_edits [OF r _ _ _ _ _ ok]) (simp_all add: b)
qed

lemma attach_receipt_edits:
  assumes op: "attach_receipt i j sha u bk = Inr bk'" and ok: "books_ok (xb_reports bk) (xb_steps bk)"
  shows "edits bk bk'"
proof -
  obtain r it where r: "load_report i bk = Some r" "expense_is_editable (xr_status r)"
    "find (\<lambda>it. xi_id it = j) (xr_items r) = Some it"
    and b: "bk' = put_report (put_item (it\<lparr>xi_receipt := Some sha\<rparr>) r) bk"
    using op unfolding attach_receipt_def on_own_report_Inr on_item_Inr by blast
  have "xi_id it = j" using r(3) by (auto simp: find_Some_iff)
  then show ?thesis by (intro set_item_edits [OF r _ _ _ _ _ ok]) (simp_all add: b)
qed

section \<open>Submitting, withdrawing and deciding\<close>

lemma chain_of_append: "chain_of i (xs @ ys) = chain_of i xs @ chain_of i ys"
  by (simp add: chain_of_def)

lemma delete_chain_simps [simp]:
  "xb_reports (delete_chain i bk) = xb_reports bk" "chain_of i (xb_steps (delete_chain i bk)) = []"
  "j \<noteq> i \<Longrightarrow> chain_of j (xb_steps (delete_chain i bk)) = chain_of j (xb_steps bk)"
  by (auto simp: delete_chain_def chain_of_def filter_empty_conv intro!: filter_cong)

lemma withdraw_ok:
  assumes op: "withdraw_report i u bk = Inr bk'" and ok: "books_ok (xb_reports bk) (xb_steps bk)"
  shows "books_ok (xb_reports bk') (xb_steps bk')"
proof -
  obtain r t where r: "load_report i bk = Some r" "target_for ''withdraw'' (xr_status r) = Inr t"
    and b: "bk' = xaudit ''expense.transition'' i (delete_chain i (put_report (r\<lparr>xr_status := t, xr_submitted_at := None\<rparr>) bk))"
    using op unfolding withdraw_report_def on_report_Inr bind_Inr by blast
  let ?r = "r\<lparr>xr_status := t, xr_submitted_at := None\<rparr>"
  have t: "t = E_draft \<and> xr_status r = E_submitted"
    using r(2) by (auto simp: target_for_def EXPENSE_TRANSITIONS_def EXPENSE_TABLE_def canonical_def split: if_splits)
  have i: "xr_id ?r = i" using load_report_Some [OF r(1)] by simp
  have o: "report_ok (chain_of i (xb_steps bk)) r" by (rule loaded_ok [OF ok r(1)])
  have "xr_batch r = None" using editable_unbatched [OF o] t by (simp add: SETTLED_def)
  then have "report_ok (chain_of i (xb_steps (delete_chain i bk))) ?r"
    using o t by (intro report_ok_editable) (simp_all add: report_ok_def totals_ok_def expense_is_editable_def EXPENSE_EDITABLE_def)
  moreover have "distinct (map es_id (xb_steps (delete_chain i bk)))"
    using books_okD(2) [OF ok] by (simp add: delete_chain_def distinct_map_filter)
  ultimately have "books_ok (replaced ?r (xb_reports bk)) (xb_steps (delete_chain i bk))"
    using i by (intro books_ok_replaced [OF ok]) simp_all
  then show ?thesis by (simp add: b delete_chain_def)
qed

lemma expense_chain_facts:
  "expense_chain fresh us i p \<noteq> []"
  "s \<in> set (expense_chain fresh us i p) \<Longrightarrow> es_report s = i \<and> es_status s = XPending"
  "\<exists>n. map es_id (expense_chain fresh us i p) = map fresh [0..<n]"
proof -
  let ?k = "case p of None \<Rightarrow> 0 | Some pol \<Rightarrow> length (xp_approvers pol) + (if xp_finance_final pol then 1 else 0)"
  show "expense_chain fresh us i p \<noteq> []"
    "s \<in> set (expense_chain fresh us i p) \<Longrightarrow> es_report s = i \<and> es_status s = XPending"
    by (auto simp: expense_chain_def expense_step_for_def Let_def split: option.splits if_splits)
  have "map es_id (expense_chain fresh us i p) = map fresh [0..<(if ?k = 0 then 1 else ?k)]"
    by (auto simp: expense_chain_def expense_step_for_def Let_def split: option.splits if_splits)
  then show "\<exists>n. map es_id (expense_chain fresh us i p) = map fresh [0..<n]" by blast
qed

lemma submit_ok:
  assumes op: "submit_report fresh i u today now bk = Inr bk'" and ok: "books_ok (xb_reports bk) (xb_steps bk)"
    and f: "inj fresh" "range fresh \<inter> es_id ` set (xb_steps bk) = {}"
  shows "books_ok (xb_reports bk') (xb_steps bk')"
proof -
  obtain r t eur where r: "load_report i bk = Some r" "target_for ''submit'' (xr_status r) = Inr t" "xr_items r \<noteq> []"
    and e: "total_in_eur (xb_rates bk) r today = Inr eur"
    and b: "\<exists>ch p. ch = expense_chain fresh (xb_users bk) i p \<and> bk' = xemit ''expense.submitted'' i (xaudit ''expense.submit'' i
        ((delete_chain i (put_report (r\<lparr>xr_status := t, xr_submitted_at := Some now, xr_decided_at := None,
            xr_decided_by := None, xr_decision_note := None, xr_total_eur := eur\<rparr>) bk))\<lparr>xb_steps := xb_steps (delete_chain i
            (put_report (r\<lparr>xr_status := t, xr_submitted_at := Some now, xr_decided_at := None,
            xr_decided_by := None, xr_decision_note := None, xr_total_eur := eur\<rparr>) bk)) @ ch\<rparr>))"
    using op unfolding submit_report_def on_report_Inr Let_def bind_Inr by blast
  let ?r = "r\<lparr>xr_status := t, xr_submitted_at := Some now, xr_decided_at := None,
            xr_decided_by := None, xr_decision_note := None, xr_total_eur := eur\<rparr>"
  obtain ch p where ch: "ch = expense_chain fresh (xb_users bk) i p"
    and b': "xb_reports bk' = replaced ?r (xb_reports bk) \<and> xb_steps bk' = filter (\<lambda>s. es_report s \<noteq> i) (xb_steps bk) @ ch"
    using b by (auto simp: delete_chain_def)
  have t: "t = E_submitted \<and> xr_status r \<in> {E_draft, E_returned}"
    using r(2) by (auto simp: target_for_def EXPENSE_TRANSITIONS_def EXPENSE_TABLE_def canonical_def split: if_splits)
  have i: "xr_id ?r = i" using load_report_Some [OF r(1)] by simp
  have o: "report_ok (chain_of i (xb_steps bk)) r" by (rule loaded_ok [OF ok r(1)])
  have n: "xr_batch r = None" using editable_unbatched [OF o] t by (auto simp: SETTLED_def)
  have own: "chain_of i (xb_steps bk') = ch"
    using expense_chain_facts(2) [of _ fresh "xb_users bk" i p, folded ch] b' by (auto simp: chain_of_def filter_id_conv)
  have others: "chain_of j (xb_steps bk') = chain_of j (xb_steps bk)" if "j \<noteq> i" for j
  proof -
    have "chain_of j ch = []"
      using expense_chain_facts(2) [of _ fresh "xb_users bk" i p, folded ch] that by (auto simp: chain_of_def filter_empty_conv)
    moreover have "chain_of j (filter (\<lambda>s. es_report s \<noteq> i) (xb_steps bk)) = chain_of j (xb_steps bk)"
      using that by (auto simp: chain_of_def intro!: filter_cong)
    ultimately show ?thesis using b' by (simp add: chain_of_append)
  qed
  obtain m where m: "map es_id ch = map fresh [0..<m]" using expense_chain_facts(3) ch by blast
  have "distinct (map es_id ch)" using f(1) by (simp add: m distinct_map inj_on_def)
  moreover have "es_id ` set ch \<inter> es_id ` set (xb_steps bk) = {}"
  proof -
    have "es_id ` set ch = fresh ` set [0..<m]" using m by (metis list.set_map)
    then show ?thesis using f(2) by auto
  qed
  ultimately have d: "distinct (map es_id (xb_steps bk'))"
    using books_okD(2) [OF ok] b' by (auto simp: distinct_map_filter)
  have "py_upper (xr_currency r) = ''EUR'' \<longrightarrow> eur = Some (xr_total r)" using e by (simp add: total_in_eur_def split: if_splits)
  moreover have "totals_ok ?r" using o by (simp add: report_ok_def totals_ok_def)
  ultimately have "report_ok ch ?r"
    using t n r(3) expense_chain_facts(1) [of fresh "xb_users bk" i p, folded ch]
      expense_chain_facts(2) [of _ fresh "xb_users bk" i p, folded ch]
    by (simp add: report_ok_def SETTLED_def step_ok_def)
  then have "report_ok (chain_of (xr_id ?r) (xb_steps bk')) ?r" unfolding i own .
  moreover have "chain_of j (xb_steps bk') = chain_of j (xb_steps bk)" if "j \<noteq> xr_id ?r" for j
    using others that unfolding i .
  ultimately have "books_ok (replaced ?r (xb_reports bk)) (xb_steps bk')" by (intro books_ok_replaced [OF ok d])
  then show ?thesis using b' by (simp only:)
qed

text \<open>Writing the changed steps of one report back.\<close>

lemma expense_steps_set [simp]: "set (expense_steps i bk) = set (chain_of i (xb_steps bk))"
  by (simp add: expense_steps_def chain_of_def)

lemma put_steps_map:
  assumes d: "distinct (map es_id (xb_steps bk))" and f: "\<And>s. es_id (f s) = es_id s"
    and sub: "set ss \<subseteq> set (xb_steps bk)"
  shows "xb_steps (put_steps (map f ss) bk) = map (\<lambda>x. if x \<in> set ss then f x else x) (xb_steps bk)"
proof -
  have "(case find (\<lambda>s. es_id s = es_id x) (map f ss) of None \<Rightarrow> x | Some s \<Rightarrow> s) = (if x \<in> set ss then f x else x)"
    if x: "x \<in> set (xb_steps bk)" for x
  proof -
    have same: "y = x" if "y \<in> set ss" "es_id y = es_id x" for y
      using that x d sub by (auto simp: distinct_map dest: inj_onD)
    show ?thesis
    proof (cases "find (\<lambda>s. es_id s = es_id x) (map f ss)")
      case None
      then have "x \<notin> set ss" using f by (auto simp: find_None_iff)
      then show ?thesis unfolding None by simp
    next
      case (Some s)
      then obtain y where "y \<in> set ss" "s = f y" "es_id y = es_id x"
        using f by (auto simp: find_Some_iff) (metis nth_mem)
      then show ?thesis using same [of y] Some by simp
    qed
  qed
  then show ?thesis by (simp add: put_steps_def)
qed

lemma put_steps_chain:
  assumes d: "distinct (map es_id (xb_steps bk))" and f: "\<And>s. es_id (f s) = es_id s" "\<And>s. es_report (f s) = es_report s"
    and sub: "set ss \<subseteq> set (chain_of i (xb_steps bk))"
  shows "distinct (map es_id (xb_steps (put_steps (map f ss) bk)))"
    "j \<noteq> i \<Longrightarrow> chain_of j (xb_steps (put_steps (map f ss) bk)) = chain_of j (xb_steps bk)"
    "chain_of i (xb_steps (put_steps (map f ss) bk)) = map (\<lambda>x. if x \<in> set ss then f x else x) (chain_of i (xb_steps bk))"
proof -
  let ?g = "\<lambda>x. if x \<in> set ss then f x else x"
  have steps: "xb_steps (put_steps (map f ss) bk) = map ?g (xb_steps bk)"
    using sub by (intro put_steps_map [OF d f(1)]) (auto simp: chain_of_def)
  have "map es_id (map ?g (xb_steps bk)) = map es_id (xb_steps bk)" using f(1) by simp
  then show "distinct (map es_id (xb_steps (put_steps (map f ss) bk)))" unfolding steps using d by (simp only:)
  have chain: "chain_of k (map ?g (xb_steps bk)) = map ?g (chain_of k (xb_steps bk))" for k
    using f(2) by (auto simp: chain_of_def filter_map o_def intro!: arg_cong [where f = "map ?g"] filter_cong)
  show "chain_of i (xb_steps (put_steps (map f ss) bk)) = map ?g (chain_of i (xb_steps bk))" unfolding steps by (rule chain)
  show "chain_of j (xb_steps (put_steps (map f ss) bk)) = chain_of j (xb_steps bk)" if "j \<noteq> i"
  proof -
    have "x \<notin> set ss" if "x \<in> set (chain_of j (xb_steps bk))" for x
      using that sub \<open>j \<noteq> i\<close> by (auto simp: chain_of_def)
    then show ?thesis unfolding steps chain by (simp add: map_idI)
  qed
qed

lemma decided_steps:
  "skip_if_pending s = (if es_status s = XPending then s\<lparr>es_status := XSkipped\<rparr> else s)"
  "es_id (skip_if_pending s) = es_id s" "es_report (skip_if_pending s) = es_report s"
  "es_id (decide_step u b nt now s) = es_id s" "es_report (decide_step u b nt now s) = es_report s"
  "es_status (decide_step u b nt now s) = (if b then XApproved else XRejected)"
  "es_decided_by (decide_step u b nt now s) = Some (xu_id u)"
  by (simp_all add: skip_if_pending_def decide_step_def)

text \<open>The change of a chain, as a map over its steps.\<close>

lemma chain_decision_map:
  assumes "chain_decision a u nt now s ss = (ss', st, entry)"
  shows "\<exists>f. ss' = map f ss \<and> (\<forall>x. es_id (f x) = es_id x \<and> es_report (f x) = es_report x) \<and>
    (a = ''approve'' \<longrightarrow> st = expense_chain_state ss' \<and> f = (\<lambda>x. if es_id x = es_id s then decide_step u True nt now x else x)) \<and>
    (a \<noteq> ''approve'' \<longrightarrow> st \<in> {E_rejected, E_returned})"
proof -
  let ?k = "\<lambda>b x. if es_id x = es_id s then decide_step u b nt now x else x"
  consider "a = ''approve''" | "a = ''reject''" | "a \<noteq> ''approve''" "a \<noteq> ''reject''" by blast
  then show ?thesis
  proof cases
    case 1
    then show ?thesis using assms by (intro exI [of _ "?k True"]) (auto simp: chain_decision_def Let_def decided_steps)
  next
    case 2
    then show ?thesis using assms
      by (intro exI [of _ "skip_if_pending \<circ> ?k False"]) (auto simp: chain_decision_def Let_def decided_steps(2-))
  next
    case 3
    then show ?thesis using assms
      by (intro exI [of _ skip_if_pending]) (auto simp: chain_decision_def Let_def decided_steps(2-))
  qed
qed

lemma expense_pending_Some: "expense_pending ss = Some s \<Longrightarrow> s \<in> set ss \<and> es_status s = XPending"
  unfolding expense_pending_def find_Some_iff by (metis length_sort nth_mem set_sort)

lemma chain_state_ok:
  assumes "\<forall>s \<in> set ch. step_ok e s" "set ch' = set ch"
  shows "expense_chain_state ch' \<in> set IN_APPROVAL \<or> (expense_chain_state ch' = E_approved \<and> (\<forall>s \<in> set ch. es_status s = XApproved))"
proof -
  have each: "es_status s = XPending \<or> es_status s = XApproved" if "s \<in> set ch'" for s
    using assms that by (auto simp: step_ok_def)
  then have "\<not> (\<exists>s \<in> set ch'. es_status s = XRejected)" by force
  then show ?thesis
    using each assms(2) by (cases "\<exists>s \<in> set ch'. es_status s = XPending") (auto simp: expense_chain_state_def IN_APPROVAL_def)
qed

lemma put_steps_reports [simp]: "xb_reports (put_steps ss bk) = xb_reports bk"
  by (simp add: put_steps_def)

lemma finish_simps:
  "xb_reports (case decided_event s of None \<Rightarrow> b | Some ev \<Rightarrow> xemit ev i b) = xb_reports b"
  "xb_steps (case decided_event s of None \<Rightarrow> b | Some ev \<Rightarrow> xemit ev i b) = xb_steps b"
  by (simp_all split: option.split)

text \<open>The accepted decisions: one on the current step of a chain, one after the approval.\<close>

lemma decide_cases:
  assumes op: "decide i act v nt u now bk = Inr bk'"
  obtains r s ss st entry r' where "load_report i bk = Some r" "xr_employee r \<noteq> xu_id u" "xr_status r \<in> set IN_APPROVAL"
      "canonical act \<in> {''approve'', ''reject'', ''return_for_correction''}"
      "expense_pending (expense_steps i bk) = Some s" "chain_decision (canonical act) u nt now s (expense_steps i bk) = (ss, st, entry)"
      "r' = r\<lparr>xr_status := st, xr_decided_at := Some now, xr_decided_by := Some (xu_email u), xr_decision_note := nt,
         xr_version := xr_version r + 1\<rparr>"
      "xb_reports bk' = replaced r' (xb_reports bk)" "xb_steps bk' = xb_steps (put_steps ss (put_report r' bk))"
  | r st r' at' where "load_report i bk = Some r" "canonical act \<notin> {''approve'', ''reject'', ''return_for_correction''}"
      "target_for (canonical act) (xr_status r) = Inr st"
      "r' = r\<lparr>xr_status := st, xr_decided_at := Some now, xr_decided_by := Some (xu_email u), xr_decision_note := nt,
         xr_version := xr_version r + 1, xr_reimbursed_at := at'\<rparr>"
      "xb_reports bk' = replaced r' (xb_reports bk)" "xb_steps bk' = xb_steps bk"
proof -
  obtain r where r: "load_report i bk = Some r" "xr_employee r \<noteq> xu_id u"
    using op unfolding decide_def on_report_Inr bind_Inr Let_def by blast
  show ?thesis
  proof (cases "canonical act \<in> {''approve'', ''reject'', ''return_for_correction''}")
    case True
    obtain s ss st entry where "xr_status r \<in> set IN_APPROVAL" "expense_pending (expense_steps i bk) = Some s"
      "chain_decision (canonical act) u nt now s (expense_steps i bk) = (ss, st, entry)"
      "bk' = (case decided_event st of None \<Rightarrow> xaudit entry i (put_steps ss (put_report (r\<lparr>xr_status := st,
          xr_decided_at := Some now, xr_decided_by := Some (xu_email u), xr_decision_note := nt, xr_version := xr_version r + 1\<rparr>) bk))
        | Some ev \<Rightarrow> xemit ev i (xaudit entry i (put_steps ss (put_report (r\<lparr>xr_status := st,
          xr_decided_at := Some now, xr_decided_by := Some (xu_email u), xr_decision_note := nt, xr_version := xr_version r + 1\<rparr>) bk))))"
      using op r True unfolding decide_def on_report_Inr bind_Inr Let_def
      by (auto split: prod.splits if_splits option.splits)
    with r True show ?thesis by (intro that(1)) (simp_all only: finish_simps xaudit_simps put_steps_reports put_report_simps not_False_eq_True simp_thms)
  next
    case False
    obtain st where st: "target_for (canonical act) (xr_status r) = Inr st"
      "bk' = (case decided_event st of None \<Rightarrow> xaudit ''expense.transition'' i (put_report ((r\<lparr>xr_status := st,
          xr_decided_at := Some now, xr_decided_by := Some (xu_email u), xr_decision_note := nt, xr_version := xr_version r + 1\<rparr>)
            \<lparr>xr_reimbursed_at := (if st = E_reimbursed then Some now else xr_reimbursed_at r)\<rparr>) bk)
        | Some ev \<Rightarrow> xemit ev i (xaudit ''expense.transition'' i (put_report ((r\<lparr>xr_status := st,
          xr_decided_at := Some now, xr_decided_by := Some (xu_email u), xr_decision_note := nt, xr_version := xr_version r + 1\<rparr>)
            \<lparr>xr_reimbursed_at := (if st = E_reimbursed then Some now else xr_reimbursed_at r)\<rparr>) bk)))"
      using op r False unfolding decide_def on_report_Inr bind_Inr Let_def if_False
      by (cases "target_for (canonical act) (xr_status r)") auto
    show ?thesis by (rule that(2) [OF r(1) False st(1) HOL.refl]) (simp_all add: st(2) finish_simps)
  qed
qed

lemma finance_moves:
  assumes "act \<in> set DECISIONS" "canonical act \<notin> {''approve'', ''reject'', ''return_for_correction''}"
    "target_for (canonical act) s = Inr t"
  shows "s \<in> set SETTLED \<and> t \<in> set SETTLED"
  using assms by (auto simp: DECISIONS_def canonical_def target_for_def EXPENSE_TRANSITIONS_def EXPENSE_TABLE_def SETTLED_def
      split: if_splits)

lemma report_decide_ok:
  assumes op: "decide i act v nt u now bk = Inr bk'" and ok: "books_ok (xb_reports bk) (xb_steps bk)"
    and a: "act \<in> set DECISIONS"
  shows "books_ok (xb_reports bk') (xb_steps bk')"
  using op
proof (cases rule: decide_cases)
  case (1 r s ss st entry r')
  note r = this
  let ?ch = "chain_of i (xb_steps bk)" and ?ch' = "chain_of i (xb_steps bk')"
  have o: "report_ok ?ch r" by (rule loaded_ok [OF ok r(1)])
  have ch: "?ch \<noteq> []" "\<forall>s \<in> set ?ch. step_ok (xr_employee r) s" using o r(3) by (auto simp: report_ok_def)
  have unbatched: "xr_batch r = None"
    using editable_unbatched [OF o] r(3) by (auto simp: SETTLED_def IN_APPROVAL_def)
  have ne: "\<not> expense_is_editable (xr_status r)" using editable_only r(3) by blast
  have i: "xr_id r' = i" using load_report_Some [OF r(1)] r(7) by simp
  obtain f where f: "ss = map f (expense_steps i bk)" "\<And>x. es_id (f x) = es_id x" "\<And>x. es_report (f x) = es_report x"
    "canonical act = ''approve'' \<Longrightarrow> st = expense_chain_state ss \<and> f = (\<lambda>x. if es_id x = es_id s then decide_step u True nt now x else x)"
    "canonical act \<noteq> ''approve'' \<Longrightarrow> st \<in> {E_rejected, E_returned}"
    using chain_decision_map [OF r(6)] by blast
  have d: "distinct (map es_id (xb_steps (put_report r' bk)))" using books_okD(2) [OF ok] by simp
  have sub: "set (expense_steps i bk) \<subseteq> set (chain_of i (xb_steps (put_report r' bk)))" by simp
  note put = put_steps_chain [OF d f(2,3) sub, folded f(1), folded r(9), simplified]
  have ch': "?ch' = map f ?ch" using put(3) by simp
  have "report_ok ?ch' r'"
  proof (cases "canonical act = ''approve''")
    case True
    have k: "step_ok (xr_employee r) (f x)" if "x \<in> set ?ch" for x
      using f(4) [OF True] ch(2) that r(2) by (auto simp: step_ok_def decided_steps)
    have k': "\<forall>s \<in> set ?ch'. step_ok (xr_employee r) s" unfolding ch' using k by auto
    have "set ss = set ?ch'" using f(1) ch' by simp
    then have "st \<in> set IN_APPROVAL \<or> (st = E_approved \<and> (\<forall>s \<in> set ?ch'. es_status s = XApproved))"
      using chain_state_ok [of ?ch' "xr_employee r" ss] conjunct1 [OF f(4) [OF True]] k' by simp
    then show ?thesis using o ch(1) k ch' unbatched ne r(7)
      by (auto simp: report_ok_def totals_ok_def IN_APPROVAL_def SETTLED_def)
  next
    case False
    then show ?thesis using f(5) o unbatched ne r(7)
      by (auto simp: report_ok_def totals_ok_def IN_APPROVAL_def SETTLED_def)
  qed
  then have "books_ok (replaced r' (xb_reports bk)) (xb_steps bk')"
    using put(1,2) unfolding i [symmetric] by (intro books_ok_replaced [OF ok])
  then show ?thesis by (simp add: r(8))
next
  case (2 r st r' at')
  have o: "report_ok (chain_of i (xb_steps bk)) r" by (rule loaded_ok [OF ok 2(1)])
  have t: "xr_status r \<in> set SETTLED" "st \<in> set SETTLED" using finance_moves [OF a 2(2,3)] by simp_all
  have "\<not> expense_is_editable (xr_status r)" using editable_only t(1) by blast
  then have "report_ok (chain_of i (xb_steps bk)) r'" using o t by (auto simp: report_ok_def totals_ok_def 2(4))
  moreover have "xr_id r' = i" using load_report_Some [OF 2(1)] 2(4) by simp
  ultimately show ?thesis using books_ok_edit [OF ok] by (simp add: 2(5,6))
qed

lemma reassign_ok:
  assumes op: "reassign_step i approver sid u bk = Inr bk'" and ok: "books_ok (xb_reports bk) (xb_steps bk)"
  shows "books_ok (xb_reports bk') (xb_steps bk')"
proof -
  obtain s and a :: expense_user where s: "(if truthy sid then find (\<lambda>s. es_id s = the sid) (expense_steps i bk)
        else expense_pending (expense_steps i bk)) = Some s"
    and b: "bk' = xemit ''expense.reassigned'' i (xaudit ''expense.reassign_approver'' i
      (put_steps [s\<lparr>es_approver := Some (xu_id a), es_approver_email := Some (xu_email a)\<rparr>] bk))"
    using op unfolding reassign_step_def on_report_Inr bind_Inr by blast
  have mem: "s \<in> set (chain_of i (xb_steps bk))"
    using s expense_pending_Some [of "expense_steps i bk" s] by (auto simp: find_Some_iff split: if_splits) (metis expense_steps_set nth_mem)
  let ?f = "\<lambda>s. s\<lparr>es_approver := Some (xu_id a), es_approver_email := Some (xu_email a)\<rparr>"
  have steps: "xb_steps bk' = xb_steps (put_steps (map ?f [s]) bk)" "xb_reports bk' = xb_reports bk" by (simp_all add: b)
  note put = put_steps_chain [OF books_okD(2) [OF ok], of ?f "[s]" i, folded steps(1)]
  have d: "distinct (map es_id (xb_steps bk'))" using put(1) mem by simp
  have chain: "\<exists>g. chain_of j (xb_steps bk') = map g (chain_of j (xb_steps bk)) \<and>
      (\<forall>x. es_status (g x) = es_status x \<and> es_decided_by (g x) = es_decided_by x)" for j
  proof (cases "j = i")
    case True
    then show ?thesis using put(3) mem by (intro exI [of _ "\<lambda>x. if x \<in> set [s] then ?f x else x"]) simp
  next
    case False
    then show ?thesis using put(2) mem by (intro exI [of _ id]) simp
  qed
  have "report_ok (chain_of (xr_id r) (xb_steps bk')) r" if r: "r \<in> set (xb_reports bk)" for r
  proof -
    obtain g where g: "chain_of (xr_id r) (xb_steps bk') = map g (chain_of (xr_id r) (xb_steps bk))"
      "\<And>x. es_status (g x) = es_status x" "\<And>x. es_decided_by (g x) = es_decided_by x"
      using chain by blast
    then have "step_ok e (g x) = step_ok e x" for e x by (simp add: step_ok_def)
    with g(1,2) show ?thesis using books_okD(3) [OF ok r] by (simp add: report_ok_def)
  qed
  then show ?thesis using d books_okD(1) [OF ok] by (simp add: books_ok_def steps(2))
qed

section \<open>Creating and paying\<close>

lemma first_fault_ids:
  assumes "first_fault f xs = Inr ys" "\<And>x y. f x = Inr y \<Longrightarrow> g y = k x"
  shows "map g ys = map k xs"
  using assms(1)
proof (induction xs arbitrary: ys)
  case (Cons x xs)
  then obtain y zs where "f x = Inr y" "first_fault f xs = Inr zs" "ys = y # zs" by (auto split: sum.splits)
  then show ?case using Cons.IH [of zs] assms(2) by simp
qed simp

lemma available_txns_sub:
  assumes "available_txns e ids vs bk = Inr rows"
  shows "mset rows \<subseteq># mset (xb_txns bk)"
proof -
  have f: "mset (sort_key xt_id (filter P (filter Q ts))) \<subseteq># mset ts" for P Q and ts :: "expense_txn list"
    by (simp add: multiset_filter_subset subset_mset.order_trans)
  have "rows = [] \<or> (\<exists>P. rows = sort_key xt_id (filter P (visible_txns e bk)))"
    using assms unfolding available_txns_def bind_Inr Let_def by (auto split: if_splits)
  then show ?thesis using f by (auto simp: visible_txns_def)
qed

lemma mset_distinct_sub:
  assumes "mset xs \<subseteq># mset ys" "distinct ys"
  shows "distinct xs"
proof -
  have "count (mset xs) a \<le> count (mset ys) a" for a using assms(1) by (simp add: mset_subset_eq_count)
  moreover have "count (mset ys) a \<le> 1" for a using assms(2) by (simp add: distinct_count_atmost_1)
  ultimately have "count (mset xs) a \<le> 1" for a using le_trans by blast
  then have "count (mset xs) a = (if a \<in> set xs then 1 else 0)" for a
    by (metis One_nat_def count_mset_0_iff le_SucE le_zero_eq)
  then show ?thesis by (simp add: distinct_count_atmost_1)
qed

lemma with_books_simps [simp]:
  "xb_reports (with_books bk ib) = xb_reports bk" "xb_steps (with_books bk ib) = xb_steps bk"
  "xb_reports (record_command e k o' d t res ib) = xb_reports ib" "xb_steps (record_command e k o' d t res ib) = xb_steps ib"
  "xb_reports (books_of ib) = xb_reports ib" "xb_steps (books_of ib) = xb_steps ib" "xb_txns (books_of ib) = xb_txns ib"
  by (simp_all add: with_books_def record_command_def Let_def expense_books.truncate_def)

lemma assign_all_simps [simp]:
  "xb_reports (foldl (\<lambda>b t. set_txn (xt_id t) st (g t) b) bk rows) = xb_reports bk"
  "xb_steps (foldl (\<lambda>b t. set_txn (xt_id t) st (g t) b) bk rows) = xb_steps bk"
  by (induction rows arbitrary: bk) simp_all

text \<open>A recorded answer changes nothing; otherwise one draft is added.\<close>

lemma create_report_effect:
  assumes op: "create_report i fresh manual dig key body u active who ib = Inr (res, ib')"
  shows "ib' = ib \<or> (\<exists>items rows. mset rows \<subseteq># mset (xb_txns ib) \<and>
    map xi_id items = map fst (ri_items body) @ map (\<lambda>t. fresh (xt_id t)) rows \<and>
    xb_reports ib' = xb_reports ib @ [fresh_report i body u items] \<and> xb_steps ib' = xb_steps ib)"
proof -
  obtain k old where old: "command_lookup (xu_id u) k (Some ''report_created'') (Some dig) ib = Inr old"
    and rest: "(case old of Some c \<Rightarrow> Inr (xc_result c, ib) | None \<Rightarrow>
      (case available_txns (xu_id u) (ri_txns body) (ri_versions body) (books_of ib) of
         Inl e \<Rightarrow> Inl e
       | Inr rows \<Rightarrow>
      (case first_fault (\<lambda>t. require_report_currency t (ri_currency body)) rows of
         Inl e \<Rightarrow> Inl e
       | Inr _ \<Rightarrow>
      (case (if rows = [] then Inr [] else first_fault (\<lambda>(j, p). item_currency_fault (ri_currency body) p) (ri_items body)) of
         Inl e \<Rightarrow> Inl e
       | Inr _ \<Rightarrow>
      (case build_items (xb_rates ib) (ri_currency body) (ri_items body) of
         Inl e \<Rightarrow> Inl (XItem e)
       | Inr manual_items \<Rightarrow>
      (case first_fault (\<lambda>t. item_from_transaction (xb_rates ib) (fresh (xt_id t)) t (ri_currency body) ''other'' 0) rows of
         Inl e \<Rightarrow> Inl e
       | Inr txn_items \<Rightarrow>
           let items = manual_items @ txn_items;
               r = fresh_report i body u items
           in if MONEY_MAX < xr_total r \<or> MONEY_MAX < xr_vat_total r then Inl XOutOfRange
              else let bk = (books_of ib)\<lparr>xb_reports := xb_reports ib @ [r]\<rparr>;
                       bk1 = foldl (\<lambda>b t. set_txn (xt_id t) ''assigned'' (Some (fresh (xt_id t))) b) bk rows
                   in Inr (ReportResult r, record_command (xu_id u) k ''report_created'' dig i (ReportResult r)
                             (with_books bk1 ib)))))))) = Inr (res, ib')"
    using op unfolding create_report_def bind_Inr by (elim conjE exE) (rule that, assumption, simp only: option.case_eq_if)
  show ?thesis
  proof (cases old)
    case (Some c)
    then show ?thesis using rest by simp
  next
    case None
    obtain rows ms ts where r: "available_txns (xu_id u) (ri_txns body) (ri_versions body) (books_of ib) = Inr rows"
      "build_items (xb_rates ib) (ri_currency body) (ri_items body) = Inr ms"
      "first_fault (\<lambda>t. item_from_transaction (xb_rates ib) (fresh (xt_id t)) t (ri_currency body) ''other'' 0) rows = Inr ts"
      "ib' = record_command (xu_id u) k ''report_created'' dig i (ReportResult (fresh_report i body u (ms @ ts)))
         (with_books (foldl (\<lambda>b t. set_txn (xt_id t) ''assigned'' (Some (fresh (xt_id t))) b)
           ((books_of ib)\<lparr>xb_reports := xb_reports ib @ [fresh_report i body u (ms @ ts)]\<rparr>) rows) ib)"
      using rest unfolding None option.case bind_Inr Let_def by blast
    have "map xi_id ts = map (\<lambda>t. fresh (xt_id t)) rows"
      by (rule first_fault_ids [OF r(3)]) (rule item_from_transaction_id)
    then have "map xi_id (ms @ ts) = map fst (ri_items body) @ map (\<lambda>t. fresh (xt_id t)) rows"
      using build_items_ids [OF r(2)] by simp
    moreover have "mset rows \<subseteq># mset (xb_txns ib)" using available_txns_sub [OF r(1)] by simp
    ultimately show ?thesis by (intro disjI2 exI [of _ "ms @ ts"] exI [of _ rows]) (simp add: r(4))
  qed
qed

lemma fresh_report_ok:
  assumes "distinct (map xi_id items)"
  shows "report_ok ch (fresh_report i body u items)"
  using assms by (intro report_ok_editable) (simp_all add: fresh_report_def totals_ok_def expense_is_editable_def EXPENSE_EDITABLE_def)

lemma create_report_ok:
  assumes op: "create_report i fresh manual dig key body u active who ib = Inr (res, ib')"
    and ok: "books_ok (xb_reports ib) (xb_steps ib)" and i: "i \<notin> xr_id ` set (xb_reports ib)"
    and d: "distinct (map fst (ri_items body) @ map (\<lambda>t. fresh (xt_id t)) (xb_txns ib))"
  shows "books_ok (xb_reports ib') (xb_steps ib')"
  using create_report_effect [OF op]
proof (elim disjE exE conjE)
  fix items rows
  assume r: "mset rows \<subseteq># mset (xb_txns ib)" "map xi_id items = map fst (ri_items body) @ map (\<lambda>t. fresh (xt_id t)) rows"
    "xb_reports ib' = xb_reports ib @ [fresh_report i body u items]" "xb_steps ib' = xb_steps ib"
  have "mset (map fst (ri_items body) @ map (\<lambda>t. fresh (xt_id t)) rows) \<subseteq>#
      mset (map fst (ri_items body) @ map (\<lambda>t. fresh (xt_id t)) (xb_txns ib))"
    using r(1) by (simp add: image_mset_subseteq_mono)
  then have "distinct (map xi_id items)" unfolding r(2) by (rule mset_distinct_sub [OF _ d])
  then show ?thesis using ok i fresh_report_ok unfolding r(3,4) by (auto simp: books_ok_def fresh_report_def)
qed (use ok in simp)

lemma payout_frame [simp]:
  "xb_steps (po_inbox (payout_log a i bk)) = xb_steps (po_inbox bk)" "xb_reports (po_inbox (payout_log a i bk)) = xb_reports (po_inbox bk)"
  "xb_steps (po_inbox (payout_emit a i bk)) = xb_steps (po_inbox bk)" "xb_reports (po_inbox (payout_emit a i bk)) = xb_reports (po_inbox bk)"
  "xb_steps (po_inbox (put_batch b bk)) = xb_steps (po_inbox bk)" "xb_reports (po_inbox (put_batch b bk)) = xb_reports (po_inbox bk)"
  "xb_steps (po_inbox (change_reports P f bk)) = xb_steps (po_inbox bk)"
  "xb_reports (po_inbox (change_reports P f bk)) =
     map (\<lambda>r. if xr_deleted_by r = None \<and> P r then f r else r) (xb_reports (po_inbox bk))"
  by (simp_all add: payout_log_def payout_emit_def put_batch_def change_reports_def on_books_def)

lemma log_all_frame [simp]:
  "po_inbox (foldl (\<lambda>k (a, j). payout_log a j k) bk es) = (po_inbox bk)\<lparr>xb_trail := xb_trail (po_inbox bk) @ es\<rparr>"
  by (induction es arbitrary: bk) (auto simp: payout_log_def on_books_def)

lemma books_ok_change:
  assumes ok: "books_ok rs steps" and f: "\<And>r. xr_id (f r) = xr_id r"
    "\<And>r ch. r \<in> set rs \<Longrightarrow> xr_deleted_by r = None \<Longrightarrow> P r \<Longrightarrow> report_ok ch r \<Longrightarrow> report_ok ch (f r)"
  shows "books_ok (map (\<lambda>r. if xr_deleted_by r = None \<and> P r then f r else r) rs) steps"
proof -
  have "map xr_id (map (\<lambda>r. if xr_deleted_by r = None \<and> P r then f r else r) rs) = map xr_id rs" using f(1) by auto
  then show ?thesis using ok f unfolding books_ok_def by (auto simp del: map_map)
qed

lemma report_ok_batch:
  assumes "report_ok ch r" "b \<noteq> None \<Longrightarrow> xr_status r \<in> set SETTLED"
  shows "report_ok ch (r\<lparr>xr_batch := b\<rparr>)"
  using assms by (simp add: report_ok_def totals_ok_def)

lemma report_ok_paid:
  assumes "report_ok ch r" "xr_batch r \<noteq> None"
  shows "report_ok ch (paid_report now m ref r)"
proof -
  have s: "xr_status r \<in> set SETTLED" using assms by (simp add: report_ok_def)
  then have "\<not> expense_is_editable (xr_status r)" using editable_only by blast
  moreover have "E_reimbursed \<in> set SETTLED" "\<not> expense_is_editable E_reimbursed"
    by (simp_all add: SETTLED_def expense_is_editable_def EXPENSE_EDITABLE_def)
  ultimately show ?thesis using assms s by (simp add: report_ok_def totals_ok_def paid_report_def)
qed

lemma check_payable_Inr: "check_payable rs = Inr x \<Longrightarrow> r \<in> set rs \<Longrightarrow> xr_status r \<in> {E_approved, E_marked} \<and> \<not> truthy (xr_batch r)"
  by (induction rs) (auto split: if_splits)

lemma on_batch_Inr:
  "on_batch u i h bk = Inr y \<longleftrightarrow> xu_approver u \<and> xb_enabled (po_inbox bk) \<and> (\<exists>b. get_batch i bk = Some b \<and> h b = Inr y)"
  by (auto simp: on_batch_def payout_guard_def split: option.splits if_splits)

lemma create_batch_ok:
  assumes op: "create_batch i ids meth nt u bk = Inr bk'" and ok: "books_ok (xb_reports (po_inbox bk)) (xb_steps (po_inbox bk))"
  shows "books_ok (xb_reports (po_inbox bk')) (xb_steps (po_inbox bk'))"
proof -
  obtain x eur b where c: "check_payable (filter (\<lambda>r. xr_id r \<in> set ids) (live_reports bk)) = Inr x"
    and b: "bk' = payout_emit ''expense.reimbursement_created'' i (payout_log ''expense.reimbursement_batch'' i
        (change_reports (\<lambda>r. xr_id r \<in> set ids) (\<lambda>r. r\<lparr>xr_batch := Some i\<rparr>) (bk\<lparr>po_batches := po_batches bk @ [b :: payout_batch]\<rparr>)))"
    using op unfolding create_batch_def bind_Inr Let_def by blast
  have "books_ok (map (\<lambda>r. if xr_deleted_by r = None \<and> xr_id r \<in> set ids then r\<lparr>xr_batch := Some i\<rparr> else r)
      (xb_reports (po_inbox bk))) (xb_steps (po_inbox bk))"
  proof (rule books_ok_change [OF ok])
    fix r :: expense_report and ch
    assume r: "r \<in> set (xb_reports (po_inbox bk))" "xr_deleted_by r = None" "xr_id r \<in> set ids" "report_ok ch r"
    then have "xr_status r \<in> {E_approved, E_marked}" using check_payable_Inr [OF c, of r] by (simp add: live_reports_def)
    then show "report_ok ch (r\<lparr>xr_batch := Some i\<rparr>)" by (intro report_ok_batch [OF r(4)]) (auto simp: SETTLED_def)
  qed simp
  then show ?thesis by (simp add: b)
qed

lemma pay_batch_effect:
  assumes "pay_batch i v ref meth ov u now bk = Inr bk'"
  shows "\<exists>b m. get_batch i bk = Some b \<and> pt_status b = BatchOpen \<and> (payout_conflict b u \<longrightarrow> xu_platform_admin u \<and> ov) \<and>
    xb_reports (po_inbox bk') = map (\<lambda>r. if xr_deleted_by r = None \<and> xr_batch r = Some i then paid_report now m ref r else r)
      (xb_reports (po_inbox bk)) \<and> xb_steps (po_inbox bk') = xb_steps (po_inbox bk)"
proof -
  obtain b es eur b' where r: "get_batch i bk = Some b" "pt_status b = BatchOpen" "payout_sod b u ov = Inr es"
    "bk' = payout_emit ''expense.reimbursed'' i (payout_log ''expense.reimbursement_paid'' i
       (put_batch b' (change_reports (\<lambda>r. xr_batch r = Some i)
         (paid_report now (if truthy meth then the meth else pt_method b) ref) (foldl (\<lambda>k (a, j). payout_log a j k) bk es))))"
    using assms unfolding pay_batch_def on_batch_Inr bind_Inr Let_def by blast
  have "payout_conflict b u \<longrightarrow> xu_platform_admin u \<and> ov" using r(3) by (auto simp: payout_sod_def split: if_splits)
  then show ?thesis using r by (intro exI [of _ b] exI [of _ "if truthy meth then the meth else pt_method b"]) simp
qed

lemma pay_batch_ok:
  assumes op: "pay_batch i v ref meth ov u now bk = Inr bk'" and ok: "books_ok (xb_reports (po_inbox bk)) (xb_steps (po_inbox bk))"
  shows "books_ok (xb_reports (po_inbox bk')) (xb_steps (po_inbox bk'))"
proof -
  obtain m where b: "xb_reports (po_inbox bk') = map (\<lambda>r. if xr_deleted_by r = None \<and> xr_batch r = Some i then paid_report now m ref r else r)
      (xb_reports (po_inbox bk))" "xb_steps (po_inbox bk') = xb_steps (po_inbox bk)"
    using pay_batch_effect [OF op] by blast
  show ?thesis unfolding b by (rule books_ok_change [OF ok]) (simp_all add: report_ok_paid, simp add: paid_report_def)
qed

lemma cancel_batch_ok:
  assumes op: "cancel_batch i u bk = Inr bk'" and ok: "books_ok (xb_reports (po_inbox bk)) (xb_steps (po_inbox bk))"
  shows "books_ok (xb_reports (po_inbox bk')) (xb_steps (po_inbox bk'))"
proof -
  obtain b :: payout_batch where b: "bk' = payout_log ''expense.reimbursement_cancel'' i (put_batch b
      (change_reports (\<lambda>r. xr_batch r = Some i) (\<lambda>r. r\<lparr>xr_batch := None\<rparr>) bk))"
    using op unfolding cancel_batch_def on_batch_Inr bind_Inr by blast
  show ?thesis unfolding b by simp
    (rule books_ok_change [OF ok, where f = "\<lambda>r. r\<lparr>xr_batch := None\<rparr>" and P = "\<lambda>r. xr_batch r = Some i"], simp, rule report_ok_batch, simp_all)
qed

section \<open>Steps and reachable books\<close>

text \<open>
  The handlers that write reports or chains. Ids are fresh, as the database gives them; an
  action is one the request schema lets through. \<open>world\<close> stands for everything that leaves
  reports and chains alone: comments, policies, statement imports, users and rates.
\<close>

inductive book_step :: "expense_books \<Rightarrow> expense_books \<Rightarrow> bool" where
  submit: "inj fresh \<Longrightarrow> range fresh \<inter> es_id ` set (xb_steps bk) = {} \<Longrightarrow>
    submit_report fresh i u today now bk = Inr bk' \<Longrightarrow> book_step bk bk'"
| withdraw: "withdraw_report i u bk = Inr bk' \<Longrightarrow> book_step bk bk'"
| decide: "act \<in> set DECISIONS \<Longrightarrow> decide i act v nt u now bk = Inr bk' \<Longrightarrow> book_step bk bk'"
| reassign: "reassign_step i approver sid u bk = Inr bk' \<Longrightarrow> book_step bk bk'"
| update: "(\<And>ps. ru_items body = Some ps \<Longrightarrow> distinct (map fst ps)) \<Longrightarrow> update_report i body u bk = Inr bk' \<Longrightarrow> book_step bk bk'"
| add: "new \<notin> item_ids bk \<Longrightarrow> add_item i new item u bk = Inr bk' \<Longrightarrow> book_step bk bk'"
| from_txn: "new \<notin> item_ids bk \<Longrightarrow> add_item_from_transaction i new txn c vat u bk = Inr bk' \<Longrightarrow> book_step bk bk'"
| delete: "delete_report i u bk = Inr bk' \<Longrightarrow> book_step bk bk'"
| patch: "update_item i j p u bk = Inr bk' \<Longrightarrow> book_step bk bk'"
| match: "match_item i j txn u bk = Inr bk' \<Longrightarrow> book_step bk bk'"
| unmatch: "unmatch_item i j u bk = Inr bk' \<Longrightarrow> book_step bk bk'"
| receipt: "attach_receipt i j sha u bk = Inr bk' \<Longrightarrow> book_step bk bk'"
| world: "xb_reports bk' = xb_reports bk \<Longrightarrow> xb_steps bk' = xb_steps bk \<Longrightarrow> book_step bk bk'"

inductive payout_step :: "payout_books \<Rightarrow> payout_books \<Rightarrow> bool" where
  books: "book_step (books_of (po_inbox s)) bk \<Longrightarrow> payout_step s (s\<lparr>po_inbox := with_books bk (po_inbox s)\<rparr>)"
| create: "i \<notin> xr_id ` set (xb_reports (po_inbox s)) \<Longrightarrow>
    distinct (map fst (ri_items body) @ map (\<lambda>t. fresh (xt_id t)) (xb_txns (po_inbox s))) \<Longrightarrow>
    create_report i fresh manual dig key body u active who (po_inbox s) = Inr (res, ib) \<Longrightarrow> payout_step s (s\<lparr>po_inbox := ib\<rparr>)"
| batch: "create_batch i ids meth nt u s = Inr s' \<Longrightarrow> payout_step s s'"
| pay: "pay_batch i v ref m ov u now s = Inr s' \<Longrightarrow> payout_step s s'"
| cancel: "cancel_batch i u s = Inr s' \<Longrightarrow> payout_step s s'"
| other: "xb_reports (po_inbox s') = xb_reports (po_inbox s) \<Longrightarrow> xb_steps (po_inbox s') = xb_steps (po_inbox s) \<Longrightarrow> payout_step s s'"

inductive payouts_reach :: "payout_books \<Rightarrow> bool" where
  start: "xb_reports (po_inbox s) = [] \<Longrightarrow> xb_steps (po_inbox s) = [] \<Longrightarrow> payouts_reach s"
| step: "payouts_reach s \<Longrightarrow> payout_step s s' \<Longrightarrow> payouts_reach s'"

lemma book_step_ok:
  assumes "book_step bk bk'" "books_ok (xb_reports bk) (xb_steps bk)"
  shows "books_ok (xb_reports bk') (xb_steps bk')"
  using assms
proof (induction rule: book_step.induct)
  case submit then show ?case by (rule submit_ok [rotated 2])
next
  case withdraw then show ?case by (rule withdraw_ok)
next
  case decide then show ?case by (rule report_decide_ok [rotated 2])
next
  case reassign then show ?case by (rule reassign_ok)
next
  case update then show ?case by (blast intro: edits_ok update_report_edits)
next
  case add then show ?case by (blast intro: edits_ok add_item_edits)
next
  case from_txn then show ?case by (blast intro: edits_ok add_item_from_transaction_edits)
next
  case delete then show ?case by (blast intro: edits_ok delete_report_edits)
next
  case patch then show ?case by (blast intro: edits_ok update_item_edits)
next
  case match then show ?case by (blast intro: edits_ok match_item_edits)
next
  case unmatch then show ?case by (blast intro: edits_ok unmatch_item_edits)
next
  case receipt then show ?case by (blast intro: edits_ok attach_receipt_edits)
next
  case world then show ?case by simp
qed

lemma payout_step_ok:
  assumes "payout_step s s'" "books_ok (xb_reports (po_inbox s)) (xb_steps (po_inbox s))"
  shows "books_ok (xb_reports (po_inbox s')) (xb_steps (po_inbox s'))"
  using assms
proof (induction rule: payout_step.induct)
  case (books s bk)
  then show ?case using book_step_ok [of "books_of (po_inbox s)" bk] by simp
qed (simp_all add: create_report_ok create_batch_ok pay_batch_ok cancel_batch_ok)

lemma payouts_reach_ok: "payouts_reach s \<Longrightarrow> books_ok (xb_reports (po_inbox s)) (xb_steps (po_inbox s))"
  by (induction rule: payouts_reach.induct) (auto simp: books_ok_def dest: payout_step_ok [unfolded books_ok_def])

end
