(* ===== verification/ExpenseSpec.thy ===== *)
theory ExpenseSpec
  imports ExpenseRun
begin

text \<open>
  What the expense module promises, in every reachable state: the invariant, the refinement
  of an abstract lifecycle of statuses, the settlement of a batch, the typing of stored
  items and the identity of an imported statement.
\<close>

section \<open>The invariant\<close>

text \<open>
  C29: the books of the expense module stay sound. However reports are created, edited,
  submitted, decided, reassigned, withdrawn, batched and paid, the totals of every report
  are those of its items; an approved, marked or reimbursed report has a chain in which
  every step was approved, each by somebody other than the claimant; a report in a payment
  batch is such a report; and the EUR value of a report in EUR outside editing is its total.
\<close>

theorem expenses_sound:
  assumes "payouts_reach s" "r \<in> set (xb_reports (po_inbox s))"
  shows "(xr_total r, xr_vat_total r) = compute_totals (xr_items r) \<and>
    (xr_status r \<in> set SETTLED \<longrightarrow>
       chain_of (xr_id r) (xb_steps (po_inbox s)) \<noteq> [] \<and>
       (\<forall>st \<in> set (chain_of (xr_id r) (xb_steps (po_inbox s))). es_status st = XApproved \<and>
          (\<exists>d. es_decided_by st = Some d \<and> d \<noteq> xr_employee r))) \<and>
    (xr_batch r \<noteq> None \<longrightarrow> xr_status r \<in> set SETTLED) \<and>
    (\<not> expense_is_editable (xr_status r) \<and> py_upper (xr_currency r) = ''EUR'' \<longrightarrow> xr_total_eur r = Some (xr_total r))"
proof -
  have o: "report_ok (chain_of (xr_id r) (xb_steps (po_inbox s))) r"
    by (rule books_okD(3) [OF payouts_reach_ok [OF assms(1)] assms(2)])
  then have chain: "chain_of (xr_id r) (xb_steps (po_inbox s)) \<noteq> []"
    "\<forall>st \<in> set (chain_of (xr_id r) (xb_steps (po_inbox s))). step_ok (xr_employee r) st \<and> es_status st = XApproved"
    if "xr_status r \<in> set SETTLED" using that by (auto simp: report_ok_def)
  have "\<exists>d. es_decided_by st = Some d \<and> d \<noteq> xr_employee r"
    if "xr_status r \<in> set SETTLED" "st \<in> set (chain_of (xr_id r) (xb_steps (po_inbox s)))" for st
    using chain(2) [OF that(1)] that(2) by (auto simp: step_ok_def)
  then show ?thesis using o chain by (auto simp: report_ok_def totals_ok_def)
qed

section \<open>The lifecycle, abstractly\<close>

text \<open>The abstract state is the status of each report; the abstract step moves along a graph.\<close>

definition LIFECYCLE :: "(expense_status \<times> expense_status) list" where
  "LIFECYCLE =
     [(E_draft, E_submitted), (E_returned, E_submitted), (E_submitted, E_draft),
      (E_submitted, E_partially_approved), (E_submitted, E_approved), (E_submitted, E_rejected), (E_submitted, E_returned),
      (E_partially_approved, E_approved), (E_partially_approved, E_rejected), (E_partially_approved, E_returned),
      (E_approved, E_marked), (E_approved, E_reimbursed), (E_marked, E_reimbursed)]"

definition report_status :: "expense_report list \<Rightarrow> ident \<Rightarrow> expense_status option" where
  "report_status rs i = map_option xr_status (find (\<lambda>r. xr_id r = i) rs)"

definition lifecycle_move :: "expense_status option \<Rightarrow> expense_status option \<Rightarrow> bool" where
  "lifecycle_move a b \<longleftrightarrow> a = b \<or> (a = None \<and> b = Some E_draft) \<or> (\<exists>s t. a = Some s \<and> b = Some t \<and> (s, t) \<in> set LIFECYCLE)"

definition lifecycle_step :: "(ident \<Rightarrow> expense_status option) \<Rightarrow> (ident \<Rightarrow> expense_status option) \<Rightarrow> bool" where
  "lifecycle_step a b \<longleftrightarrow> (\<forall>i. lifecycle_move (a i) (b i))"

lemma lifecycle_refl [simp]: "lifecycle_step a a"
  by (simp add: lifecycle_step_def lifecycle_move_def)

lemma report_status_map:
  assumes "\<And>r. xr_id (f r) = xr_id r"
  shows "report_status (map f rs) i = map_option (xr_status \<circ> f) (find (\<lambda>r. xr_id r = i) rs)"
  using assms by (induction rs) (simp_all add: report_status_def)

lemma report_status_mem: "distinct (map xr_id rs) \<Longrightarrow> r \<in> set rs \<Longrightarrow> find (\<lambda>x. xr_id x = xr_id r) rs = Some r"
  by (induction rs) (auto simp: rev_image_eqI)

lemma lifecycle_map:
  assumes "\<And>r. xr_id (f r) = xr_id r" "\<And>r. r \<in> set rs \<Longrightarrow> lifecycle_move (Some (xr_status r)) (Some (xr_status (f r)))"
  shows "lifecycle_step (report_status rs) (report_status (map f rs))"
  unfolding lifecycle_step_def
proof
  fix i
  show "lifecycle_move (report_status rs i) (report_status (map f rs) i)"
  proof (cases "find (\<lambda>r. xr_id r = i) rs")
    case None
    then have "report_status rs i = None" "report_status (map f rs) i = None"
      using report_status_map [OF assms(1), of rs i] by (simp_all add: report_status_def)
    then show ?thesis by (simp add: lifecycle_move_def)
  next
    case (Some r)
    then have "r \<in> set rs" by (auto simp: find_Some_iff)
    moreover have "report_status rs i = Some (xr_status r)" "report_status (map f rs) i = Some (xr_status (f r))"
      using report_status_map [OF assms(1), of rs i] Some by (simp_all add: report_status_def)
    ultimately show ?thesis using assms(2) by simp
  qed
qed

lemma lifecycle_replaced:
  assumes ok: "books_ok (xb_reports bk) (xb_steps bk)" and r: "load_report i bk = Some r" "xr_id r' = i"
    "lifecycle_move (Some (xr_status r)) (Some (xr_status r'))"
  shows "lifecycle_step (report_status (xb_reports bk)) (report_status (replaced r' (xb_reports bk)))"
  unfolding replaced_def
proof (rule lifecycle_map)
  fix x assume x: "x \<in> set (xb_reports bk)"
  obtain r0 where r0: "r0 \<in> set (xb_reports bk)" "xr_id r0 = i" "r = r0\<lparr>xr_items := sort_key xi_date (xr_items r0)\<rparr>"
    using load_report_Some [OF r(1)] by blast
  have "x = r0" if "xr_id x = i" using books_okD(1) [OF ok] x r0 that by (auto simp: distinct_map dest: inj_onD)
  then show "lifecycle_move (Some (xr_status x)) (Some (xr_status (if xr_id x = xr_id r' then r' else x)))"
    using r r0(3) by (cases "xr_id x = i") (auto simp: lifecycle_move_def)
qed simp

lemma lifecycle_edits:
  assumes "books_ok (xb_reports bk) (xb_steps bk)" "edits bk bk'"
  shows "lifecycle_step (report_status (xb_reports bk)) (report_status (xb_reports bk'))"
proof -
  obtain i r r' where r: "load_report i bk = Some r" "edited r r'" "xb_reports bk' = replaced r' (xb_reports bk)"
    using assms(2) by (auto simp: edits_def)
  have "xr_id r' = i" "xr_status r' = xr_status r" using r(2) load_report_Some [OF r(1)] by (auto simp: edited_def)
  then show ?thesis unfolding r(3) by (intro lifecycle_replaced [OF assms(1) r(1)]) (simp_all add: lifecycle_move_def)
qed

lemma lifecycle_target:
  assumes "target_for a s = Inr t"
  shows "lifecycle_move (Some s) (Some t)"
  using target_for_moves [OF assms] by (auto simp: lifecycle_move_def LIFECYCLE_def)

lemma submit_moves:
  assumes "submit_report fresh i u today now bk = Inr bk'"
  shows "\<exists>r r'. load_report i bk = Some r \<and> xr_id r' = i \<and> target_for ''submit'' (xr_status r) = Inr (xr_status r') \<and>
    xb_reports bk' = replaced r' (xb_reports bk)"
proof -
  obtain r t eur where r: "load_report i bk = Some r" "target_for ''submit'' (xr_status r) = Inr t"
    and b: "\<exists>ch p. bk' = xemit ''expense.submitted'' i (xaudit ''expense.submit'' i
        ((delete_chain i (put_report (r\<lparr>xr_status := t, xr_submitted_at := Some now, xr_decided_at := None,
            xr_decided_by := None, xr_decision_note := None, xr_total_eur := eur\<rparr>) bk))\<lparr>xb_steps := ch\<rparr>))"
    using assms unfolding submit_report_def on_report_Inr Let_def bind_Inr by blast
  let ?r = "r\<lparr>xr_status := t, xr_submitted_at := Some now, xr_decided_at := None,
            xr_decided_by := None, xr_decision_note := None, xr_total_eur := eur\<rparr>"
  have "xb_reports bk' = replaced ?r (xb_reports bk)" using b by auto
  moreover have "xr_id r = i" using load_report_Some [OF r(1)] by simp
  ultimately show ?thesis using r by (intro exI [of _ r] exI [of _ ?r]) simp
qed

lemma withdraw_moves:
  assumes "withdraw_report i u bk = Inr bk'"
  shows "\<exists>r r'. load_report i bk = Some r \<and> xr_id r' = i \<and> target_for ''withdraw'' (xr_status r) = Inr (xr_status r') \<and>
    xb_reports bk' = replaced r' (xb_reports bk)"
proof -
  obtain r t where r: "load_report i bk = Some r" "target_for ''withdraw'' (xr_status r) = Inr t"
    and b: "bk' = xaudit ''expense.transition'' i (delete_chain i (put_report (r\<lparr>xr_status := t, xr_submitted_at := None\<rparr>) bk))"
    using assms unfolding withdraw_report_def on_report_Inr bind_Inr by blast
  have "xr_id r = i" using load_report_Some [OF r(1)] by simp
  then show ?thesis using r by (intro exI [of _ r] exI [of _ "r\<lparr>xr_status := t, xr_submitted_at := None\<rparr>"]) (simp add: b)
qed

lemma approve_moves:
  assumes s: "s \<in> set ss" "st = expense_chain_state (map (\<lambda>x. if es_id x = es_id s then decide_step u True nt now x else x) ss)"
    and ok: "\<forall>x \<in> set ss. step_ok e x"
  shows "st \<in> {E_partially_approved, E_approved}"
proof -
  let ?ss = "map (\<lambda>x. if es_id x = es_id s then decide_step u True nt now x else x) ss"
  have "es_status x \<noteq> XRejected" if "x \<in> set ?ss" for x using that ok by (auto simp: step_ok_def decided_steps)
  moreover have "\<exists>x \<in> set ?ss. es_status x = XApproved"
    using s(1) by (intro bexI [of _ "decide_step u True nt now s"]) (auto simp: decided_steps image_iff intro!: bexI [of _ s])
  ultimately show ?thesis unfolding s(2) expense_chain_state_def by auto
qed

lemma decide_moves:
  assumes op: "decide i act v nt u now bk = Inr bk'" and ok: "books_ok (xb_reports bk) (xb_steps bk)"
  shows "lifecycle_step (report_status (xb_reports bk)) (report_status (xb_reports bk'))"
  using op
proof (cases rule: decide_cases)
  case (1 r s ss st entry r')
  note r = this
  have o: "report_ok (chain_of i (xb_steps bk)) r" by (rule loaded_ok [OF ok r(1)])
  then have ch: "\<forall>x \<in> set (expense_steps i bk). step_ok (xr_employee r) x" using r(3) by (simp add: report_ok_def)
  obtain f where f: "ss = map f (expense_steps i bk)"
    "canonical act = ''approve'' \<Longrightarrow> st = expense_chain_state ss \<and> f = (\<lambda>x. if es_id x = es_id s then decide_step u True nt now x else x)"
    "canonical act \<noteq> ''approve'' \<Longrightarrow> st \<in> {E_rejected, E_returned}"
    using chain_decision_map [OF r(6)] by blast
  have "st \<in> {E_partially_approved, E_approved, E_rejected, E_returned}"
    using approve_moves [OF conjunct1 [OF expense_pending_Some [OF r(5)]] _ ch, of st u nt now] f
    by (cases "canonical act = ''approve''") auto
  then have "lifecycle_move (Some (xr_status r)) (Some (xr_status r'))"
    using r(3,7) by (auto simp: lifecycle_move_def LIFECYCLE_def IN_APPROVAL_def)
  moreover have "xr_id r' = i" using load_report_Some [OF r(1)] r(7) by simp
  ultimately show ?thesis unfolding r(8) by (intro lifecycle_replaced [OF ok r(1)])
next
  case (2 r st r' at')
  have "xr_id r' = i" using load_report_Some [OF 2(1)] 2(4) by simp
  then show ?thesis unfolding 2(5) using lifecycle_target [OF 2(3)] 2(4) by (intro lifecycle_replaced [OF ok 2(1)]) simp_all
qed

lemma reassign_reports: "reassign_step i approver sid u bk = Inr bk' \<Longrightarrow> xb_reports bk' = xb_reports bk"
  unfolding reassign_step_def on_report_Inr bind_Inr by auto

lemma book_step_refines:
  assumes "book_step bk bk'" "books_ok (xb_reports bk) (xb_steps bk)"
  shows "lifecycle_step (report_status (xb_reports bk)) (report_status (xb_reports bk'))"
  using assms
proof (induction rule: book_step.induct)
  case (submit fresh bk i u today now bk')
  obtain r r' where r: "load_report i bk = Some r" "xr_id r' = i" "target_for ''submit'' (xr_status r) = Inr (xr_status r')"
    "xb_reports bk' = replaced r' (xb_reports bk)" using submit_moves [OF submit.hyps(3)] by blast
  then show ?case using lifecycle_replaced [OF submit.prems r(1,2) lifecycle_target [OF r(3)]] by simp
next
  case (withdraw i u bk bk')
  obtain r r' where r: "load_report i bk = Some r" "xr_id r' = i" "target_for ''withdraw'' (xr_status r) = Inr (xr_status r')"
    "xb_reports bk' = replaced r' (xb_reports bk)" using withdraw_moves [OF withdraw.hyps] by blast
  then show ?case using lifecycle_replaced [OF withdraw.prems r(1,2) lifecycle_target [OF r(3)]] by simp
next
  case decide then show ?case by (blast intro: decide_moves)
next
  case reassign then show ?case by (simp add: reassign_reports)
next
  case update then show ?case by (blast intro: lifecycle_edits update_report_edits)
next
  case add then show ?case by (blast intro: lifecycle_edits add_item_edits)
next
  case from_txn then show ?case by (blast intro: lifecycle_edits add_item_from_transaction_edits)
next
  case delete then show ?case by (blast intro: lifecycle_edits delete_report_edits)
next
  case patch then show ?case by (blast intro: lifecycle_edits update_item_edits)
next
  case match then show ?case by (blast intro: lifecycle_edits match_item_edits)
next
  case unmatch then show ?case by (blast intro: lifecycle_edits unmatch_item_edits)
next
  case receipt then show ?case by (blast intro: lifecycle_edits attach_receipt_edits)
next
  case world then show ?case by simp
qed

lemma create_refines:
  assumes op: "create_report i fresh manual dig key body u active who ib = Inr (res, ib')"
    and i: "i \<notin> xr_id ` set (xb_reports ib)"
  shows "lifecycle_step (report_status (xb_reports ib)) (report_status (xb_reports ib'))"
  using create_report_effect [OF op]
proof (elim disjE exE conjE)
  fix items rows
  assume r: "xb_reports ib' = xb_reports ib @ [fresh_report i body u items]"
  have f: "find P (xs @ [x]) = (case find P xs of None \<Rightarrow> (if P x then Some x else None) | Some y \<Rightarrow> Some y)" for P and xs and x :: expense_report
    by (induction xs) auto
  show ?thesis unfolding r lifecycle_step_def
  proof
    fix j
    show "lifecycle_move (report_status (xb_reports ib) j) (report_status (xb_reports ib @ [fresh_report i body u items]) j)"
      by (auto simp: report_status_def f lifecycle_move_def fresh_report_def split: option.splits)
  qed
qed simp

lemma batch_reports_move:
  assumes "xb_reports (po_inbox s') = map (\<lambda>r. if xr_deleted_by r = None \<and> P r then f r else r) (xb_reports (po_inbox s))"
    "\<And>r. xr_id (f r) = xr_id r"
    "\<And>r. r \<in> set (xb_reports (po_inbox s)) \<Longrightarrow> P r \<Longrightarrow> lifecycle_move (Some (xr_status r)) (Some (xr_status (f r)))"
  shows "lifecycle_step (report_status (xb_reports (po_inbox s))) (report_status (xb_reports (po_inbox s')))"
  unfolding assms(1) using assms(2,3) by (intro lifecycle_map) (auto simp: lifecycle_move_def)

lemma payout_step_refines:
  assumes "payout_step s s'" "books_ok (xb_reports (po_inbox s)) (xb_steps (po_inbox s))"
  shows "lifecycle_step (report_status (xb_reports (po_inbox s))) (report_status (xb_reports (po_inbox s')))"
  using assms
proof (induction rule: payout_step.induct)
  case (books s bk)
  then show ?case using book_step_refines [of "books_of (po_inbox s)" bk] by simp
next
  case create
  then show ?case by (simp add: create_refines)
next
  case (batch i ids meth nt u s s')
  obtain b where b: "s' = payout_emit ''expense.reimbursement_created'' i (payout_log ''expense.reimbursement_batch'' i
        (change_reports (\<lambda>r. xr_id r \<in> set ids) (\<lambda>r. r\<lparr>xr_batch := Some i\<rparr>) (s\<lparr>po_batches := po_batches s @ [b :: payout_batch]\<rparr>)))"
    using batch.hyps unfolding create_batch_def bind_Inr Let_def by blast
  show ?case
    by (rule batch_reports_move [where P = "\<lambda>r. xr_id r \<in> set ids" and f = "\<lambda>r. r\<lparr>xr_batch := Some i\<rparr>"])
      (simp_all add: b lifecycle_move_def)
next
  case (pay i v ref m ov u now s s')
  obtain mm where b: "xb_reports (po_inbox s') = map (\<lambda>r. if xr_deleted_by r = None \<and> xr_batch r = Some i then paid_report now mm ref r else r)
      (xb_reports (po_inbox s))"
    using pay_batch_effect [OF pay.hyps] by blast
  have "xr_status r \<in> set SETTLED" if "r \<in> set (xb_reports (po_inbox s))" "xr_batch r = Some i" for r
    using books_okD(3) [OF pay.prems that(1)] that(2) by (simp add: report_ok_def)
  then show ?case
    by (intro batch_reports_move [OF b]) (auto simp: paid_report_def lifecycle_move_def LIFECYCLE_def SETTLED_def)
next
  case (cancel i u s s')
  obtain b :: payout_batch where b: "s' = payout_log ''expense.reimbursement_cancel'' i (put_batch b
      (change_reports (\<lambda>r. xr_batch r = Some i) (\<lambda>r. r\<lparr>xr_batch := None\<rparr>) s))"
    using cancel.hyps unfolding cancel_batch_def on_batch_Inr bind_Inr by blast
  show ?case
    by (rule batch_reports_move [where P = "\<lambda>r. xr_batch r = Some i" and f = "\<lambda>r. r\<lparr>xr_batch := None\<rparr>"])
      (simp_all add: b lifecycle_move_def)
next
  case other
  then show ?case by simp
qed

text \<open>
  C30: the expense module refines the lifecycle of its reports. Seen through the statuses,
  every step of the module from a reachable state, whichever reports it touches, is a step
  of the abstract graph: each report stays, is created as a draft, or moves along one edge.
\<close>

theorem expenses_refine_lifecycle:
  assumes "payouts_reach s" "payout_step s s'"
  shows "lifecycle_step (report_status (xb_reports (po_inbox s))) (report_status (xb_reports (po_inbox s')))"
  by (rule payout_step_refines [OF assms(2) payouts_reach_ok [OF assms(1)]])

section \<open>Settling a batch\<close>


section \<open>Importing a statement\<close>

definition import_key :: "import_batch \<Rightarrow> ident \<times> string \<times> string" where
  "import_key b = (xm_employee b, xm_account b, xm_sha b)"

lemma import_result_of:
  "im_batch (import_outcome b rp u bk) = xm_id b" "im_replayed (import_outcome b rp u bk) = rp"
  "im_imported (import_outcome b rp u bk) = (if rp then 0 else xm_rows b)"
  by (simp_all add: import_outcome_def Let_def)

lemma record_command_frame:
  "xb_txns (record_command e k o' d t res ib) = xb_txns ib" "xb_imports (record_command e k o' d t res ib) = xb_imports ib"
  by (simp_all add: record_command_def Let_def)

lemma import_statement_effect:
  assumes "import_statement i fresh rows sha dig reference cur key u act who ib = Inr (res, ib')"
  shows "\<exists>b. import_key b = (xu_id u, py_strip (str_or reference []), sha) \<and> im_batch res = xm_id b \<and> b \<in> set (xb_imports ib') \<and>
    (case find (\<lambda>b. import_key b = (xu_id u, py_strip (str_or reference []), sha)) (xb_imports ib) of
       Some b' \<Rightarrow> b' = b \<and> im_replayed res \<and> im_imported res = 0 \<and> xb_txns ib' = xb_txns ib \<and> xb_imports ib' = xb_imports ib
     | None \<Rightarrow> \<not> im_replayed res \<and> im_imported res = length (filter (\<lambda>r. sr_direction r = Debit) rows) \<and>
         length (xb_txns ib') = length (xb_txns ib) + im_imported res)"
proof -
  let ?account = "py_strip (str_or reference [])"
  let ?find = "find (\<lambda>b. import_key b = (xu_id u, ?account, sha)) (xb_imports ib)"
  have key: "(\<lambda>b. xm_employee b = xu_id u \<and> xm_account b = ?account \<and> xm_sha b = sha) = (\<lambda>b. import_key b = (xu_id u, ?account, sha))"
    by (auto simp: import_key_def)
  obtain confirmed k and old :: "expense_command option" where
    "(case ?find of
         Some b \<Rightarrow>
           if xm_currency b \<noteq> confirmed then Inl XImportCurrency
           else let res = import_outcome b True u (books_of ib)
                in Inr (res, if old = None
                             then record_command (xu_id u) k ''statement_imported'' dig (xm_id b) (ImportResult res) ib
                             else ib)
       | None \<Rightarrow>
           if old \<noteq> None then Inl XResultUnavailable
           else if MAX_IMPORT_ROWS < length rows then Inl XTooManyRows
           else (case first_fault (resolve_row confirmed)
                        (filter (\<lambda>(n, row). sr_direction row = Debit) (enumerate 0 rows)) of
              Inl e \<Rightarrow> Inl e
            | Inr resolved \<Rightarrow>
                let b = \<lparr>xm_id = i, xm_employee = xu_id u, xm_account = ?account, xm_sha = sha, xm_currency = confirmed,
                         xm_rows = length resolved,
                         xm_credits = length (filter (\<lambda>row. sr_direction row = Credit) rows)\<rparr>;
                    ib1 = ib\<lparr>xb_txns := xb_txns ib @ map (txn_of fresh (xu_id u) i) resolved,
                             xb_imports := xb_imports ib @ [b]\<rparr>;
                    res = import_outcome b False u (books_of ib1)
                in Inr (res, record_command (xu_id u) k ''statement_imported'' dig i (ImportResult res) ib1))) = Inr (res, ib')"
    using assms unfolding import_statement_def bind_Inr Let_def by (elim conjE exE) (rule that, unfold Let_def key [symmetric], assumption)
  note outcome = this
  have len: "first_fault f xs = Inr ys \<Longrightarrow> length ys = length xs" for f :: "'p \<Rightarrow> expense_fault + 'r" and xs ys
    using first_fault_ids [of f xs ys "\<lambda>_. ()" "\<lambda>_. ()"] by (metis length_map)
  have debits: "length (filter (\<lambda>(n, row). sr_direction row = Debit) (enumerate k' rows)) = length (filter (\<lambda>r. sr_direction r = Debit) rows)" for k'
    by (induction rows arbitrary: k') auto
  show ?thesis
  proof (cases ?find)
    case (Some b)
    then have "import_key b = (xu_id u, ?account, sha) \<and> b \<in> set (xb_imports ib)" by (auto simp: find_Some_iff)
    with Some outcome show ?thesis
      by (intro exI [of _ b]) (auto simp: Let_def import_result_of record_command_frame split: if_splits)
  next
    case None
    then obtain resolved where r: "first_fault (resolve_row confirmed)
        (filter (\<lambda>(n, row). sr_direction row = Debit) (enumerate 0 rows)) = Inr resolved"
      using outcome by (auto split: if_splits sum.splits)
    let ?b = "\<lparr>xm_id = i, xm_employee = xu_id u, xm_account = ?account, xm_sha = sha, xm_currency = confirmed,
                         xm_rows = length resolved, xm_credits = length (filter (\<lambda>row. sr_direction row = Credit) rows)\<rparr>"
    from None outcome r show ?thesis
      by (intro exI [of _ ?b]) (auto simp: Let_def import_result_of record_command_frame import_key_def len [OF r] debits split: if_splits)
  qed
qed

text \<open>
  C32: the same bytes are imported once. Once a statement has been imported for an account,
  a later import of the same bytes by the same employee for that account, under whatever
  key and in any later state, adds no transaction and answers as a replay of that batch.
\<close>

theorem import_once:
  assumes first: "import_statement i fresh rows sha dig reference cur key u act who ib = Inr (res, ib1)"
    and later: "set (xb_imports ib1) \<subseteq> set (xb_imports ib2)" "distinct (map import_key (xb_imports ib2))"
    and again: "import_statement i' fresh' rows' sha dig' reference' cur' key' u' act' who' ib2 = Inr (res', ib3)"
    and same: "xu_id u' = xu_id u" "py_strip (str_or reference' []) = py_strip (str_or reference [])"
  shows "xb_txns ib3 = xb_txns ib2 \<and> im_replayed res' \<and> im_imported res' = 0 \<and> im_batch res' = im_batch res"
proof -
  let ?k = "(xu_id u, py_strip (str_or reference []), sha)"
  obtain b where b: "import_key b = ?k" "im_batch res = xm_id b" "b \<in> set (xb_imports ib2)"
    using import_statement_effect [OF first] later(1) by blast
  have "find (\<lambda>x. import_key x = ?k) xs = Some b" if "b \<in> set xs" "distinct (map import_key xs)" for xs
    using that b(1) by (induction xs) (auto simp: rev_image_eqI)
  then have "find (\<lambda>x. import_key x = ?k) (xb_imports ib2) = Some b" using b(3) later(2) by blast
  then show ?thesis using import_statement_effect [OF again] b(2) by (auto simp: same)
qed

section \<open>The columns of an item\<close>

lemma to_eur_grid: "to_eur st a c d = Inr (Some x, r) \<Longrightarrow> on_cents x"
  by (auto simp: to_eur_def split: option.splits sum.splits)

lemma rate_exp_grid: "on_grid 8 (rate_exp x)"
  unfolding on_grid_def rate_exp_def by (rule exI [of _ "half_even (x * 10 ^ 8)"]) simp

text \<open>
  C33: what a converted item stores is typed. However the request combines amounts, a
  currency and a rate, the stored amounts are in whole cents, a rate is stored exactly when
  the item is converted by a stated or a published rate, and a published one has at most
  eight decimals.
\<close>

theorem item_columns_typed:
  assumes "apply_item_fx st rc (item_from i p) = Inr it"
  shows "on_cents (xi_amount it) \<and> on_cents (xi_vat it) \<and> (\<forall>x. xi_original it = Some x \<longrightarrow> on_cents x) \<and>
    (xi_fx_rate it = None \<longleftrightarrow> xi_fx_source it \<in> {None, Some SrcEur}) \<and>
    (xi_fx_source it = Some SrcEcb \<longrightarrow> on_grid 8 (the (xi_fx_rate it)))"
proof -
  let ?raw = "item_from i p" and ?rc = "py_upper (if rc = [] then ''EUR'' else rc)"
  have raw: "on_cents (xi_amount ?raw)" "on_cents (xi_vat ?raw)" "\<And>x. xi_original ?raw = Some x \<Longrightarrow> on_cents x"
    by (auto simp: item_from_def derive_amount_def)
  have zero: "or_zero (xi_fx_rate ?raw) \<noteq> 0 \<Longrightarrow> xi_fx_rate ?raw \<noteq> None" by (cases "xi_fx_rate ?raw") simp_all
  show ?thesis
    using assms raw zero unfolding apply_item_fx_def Let_def
    by (auto simp: rate_exp_grid split: option.splits sum.splits if_splits dest!: to_eur_grid)
qed

end
