(* ===== verification/ExpenseProps.thy ===== *)
theory ExpenseProps
  imports ExpenseSpec
begin

text \<open>
  Properties of the expense module: what holds in every reachable state, who can pay a
  batch, and three ways in which an approval does not bind what it approved.
\<close>

section \<open>A run\<close>

definition claimant :: expense_user where
  "claimant = \<lparr>xu_id = ''u1'', xu_email = ''ann@x'', xu_name = ''Ann'', xu_approver = False, xu_admin = False,
     xu_platform_admin = False, xu_member = True, xu_here = True\<rparr>"

definition manager :: expense_user where
  "manager = \<lparr>xu_id = ''u2'', xu_email = ''bob@x'', xu_name = ''Bob'', xu_approver = True, xu_admin = False,
     xu_platform_admin = False, xu_member = True, xu_here = True\<rparr>"

definition treasurer :: expense_user where
  "treasurer = \<lparr>xu_id = ''u3'', xu_email = ''cy@x'', xu_name = ''Cy'', xu_approver = True, xu_admin = False,
     xu_platform_admin = False, xu_member = True, xu_here = True\<rparr>"

definition claim_of :: "decimal \<Rightarrow> item_in" where
  "claim_of x = \<lparr>in_date = 10, in_category = ''meals'', in_description = ''Lunch'', in_merchant = None, in_amount = x,
     in_vat = 0, in_reclaimable = True, in_payment = ''personal'', in_billable = False, in_billable_customer = None,
     in_comment = Some ''client visit'', in_declaration = Some ''lost'', in_currency = None, in_original = None,
     in_fx_rate = None, in_fx_source = None, in_type = XStandard, in_distance = None, in_mileage_rate = None,
     in_unit = None, in_days = None, in_day_rate = None\<rparr>"

definition empty_inbox :: inbox where
  "empty_inbox = \<lparr>xb_enabled = True, xb_reports = [], xb_steps = [], xb_policy = None, xb_appr = [], xb_txns = [],
     xb_users = [claimant, manager, treasurer], xb_rates = [], xb_comments = [], xb_trail = [], xb_events = [],
     xb_commands = [], xb_imports = []\<rparr>"

definition empty_payouts :: payout_books where
  "empty_payouts = \<lparr>po_inbox = empty_inbox, po_batches = [], po_accounts = (\<lambda>_. None), po_issuer = None\<rparr>"

definition lunch :: report_in where
  "lunch = \<lparr>ri_title = ''Lunch'', ri_currency = ''EUR'', ri_note = None, ri_items = [(''i1'', claim_of 10)], ri_txns = [],
     ri_versions = []\<rparr>"

definition right :: "'a + 'b \<Rightarrow> 'b" where
  "right x = (case x of Inr y \<Rightarrow> y)"

definition clerk :: user where
  "clerk = \<lparr>user_role = Some ''employee'', is_platform_admin = False, is_expense_approver = False\<rparr>"

definition step_name :: "string \<Rightarrow> nat \<Rightarrow> ident" where
  "step_name p n = p @ replicate n (CHR ''s'')"

definition run_created :: inbox where
  "run_created = snd (right (create_report ''r1'' id ''m'' ''d'' None lunch claimant True clerk empty_inbox))"

definition run_submitted :: expense_books where
  "run_submitted = right (submit_report (step_name ''a'') ''r1'' claimant 12 1 (books_of run_created))"

definition run_approved :: expense_books where
  "run_approved = right (decide ''r1'' ''approve'' 1 None manager 2 run_submitted)"

definition run_batched :: payout_books where
  "run_batched = right (create_batch ''b1'' [''r1''] ''sepa'' None manager
     (empty_payouts\<lparr>po_inbox := with_books run_approved run_created\<rparr>))"

definition run_paid :: payout_books where
  "run_paid = right (pay_batch ''b1'' 1 None None False treasurer 5 run_batched)"

text \<open>The report of an open batch, marked as reimbursed by hand.\<close>

definition run_by_hand :: payout_books where
  "run_by_hand = run_batched\<lparr>po_inbox := with_books
     (right (decide ''r1'' ''mark_reimbursed'' 2 None manager 3 (books_of (po_inbox run_batched)))) (po_inbox run_batched)\<rparr>"

text \<open>The report withdrawn, changed and submitted again.\<close>

definition run_withdrawn :: expense_books where
  "run_withdrawn = right (withdraw_report ''r1'' claimant run_submitted)"

definition run_changed :: expense_books where
  "run_changed = right (update_report ''r1'' \<lparr>ru_title = None, ru_currency = None, ru_note = None,
     ru_items = Some [(''i2'', claim_of 9999)]\<rparr> claimant run_withdrawn)"

definition run_resubmitted :: expense_books where
  "run_resubmitted = right (submit_report (step_name ''b'') ''r1'' claimant 12 3 run_changed)"

lemma run_steps:
  "create_report ''r1'' id ''m'' ''d'' None lunch claimant True clerk empty_inbox =
     Inr (fst (right (create_report ''r1'' id ''m'' ''d'' None lunch claimant True clerk empty_inbox)), run_created)"
  "submit_report (step_name ''a'') ''r1'' claimant 12 1 (books_of run_created) = Inr run_submitted"
  "decide ''r1'' ''approve'' 1 None manager 2 run_submitted = Inr run_approved"
  "create_batch ''b1'' [''r1''] ''sepa'' None manager (empty_payouts\<lparr>po_inbox := with_books run_approved run_created\<rparr>) = Inr run_batched"
  "pay_batch ''b1'' 1 None None False treasurer 5 run_batched = Inr run_paid"
  "decide ''r1'' ''mark_reimbursed'' 2 None manager 3 (books_of (po_inbox run_batched)) =
     Inr (right (decide ''r1'' ''mark_reimbursed'' 2 None manager 3 (books_of (po_inbox run_batched))))"
proof -
  have r: "\<not> isl x \<Longrightarrow> x = Inr (right x)" for x :: "'x + 'y" by (cases x) (simp_all add: right_def)
  have p: "\<not> isl x \<Longrightarrow> x = Inr (fst (right x), snd (right x))" for x :: "'x + 'y \<times> 'z" by (cases x) (simp_all add: right_def)
  show "create_report ''r1'' id ''m'' ''d'' None lunch claimant True clerk empty_inbox =
     Inr (fst (right (create_report ''r1'' id ''m'' ''d'' None lunch claimant True clerk empty_inbox)), run_created)"
    unfolding run_created_def by (rule p) code_simp
  show "submit_report (step_name ''a'') ''r1'' claimant 12 1 (books_of run_created) = Inr run_submitted"
    unfolding run_submitted_def by (rule r) code_simp
  show "decide ''r1'' ''approve'' 1 None manager 2 run_submitted = Inr run_approved"
    unfolding run_approved_def by (rule r) code_simp
  show "create_batch ''b1'' [''r1''] ''sepa'' None manager (empty_payouts\<lparr>po_inbox := with_books run_approved run_created\<rparr>) = Inr run_batched"
    unfolding run_batched_def by (rule r) code_simp
  show "pay_batch ''b1'' 1 None None False treasurer 5 run_batched = Inr run_paid"
    unfolding run_paid_def by (rule r) code_simp
  show "decide ''r1'' ''mark_reimbursed'' 2 None manager 3 (books_of (po_inbox run_batched)) =
     Inr (right (decide ''r1'' ''mark_reimbursed'' 2 None manager 3 (books_of (po_inbox run_batched))))"
    by (rule r) code_simp
qed

lemma step_name_fresh: "inj (step_name p)"
  by (rule injI) (simp add: step_name_def)

lemma run_reaches: "payouts_reach run_paid" "payouts_reach run_by_hand" "payouts_reach run_batched"
proof -
  let ?s0 = "empty_payouts" and ?s1 = "empty_payouts\<lparr>po_inbox := run_created\<rparr>"
  have s0: "payouts_reach ?s0" by (rule payouts_reach.start) (simp_all add: empty_payouts_def empty_inbox_def)
  have po: "po_inbox empty_payouts = empty_inbox" by (simp add: empty_payouts_def)
  have "payout_step ?s0 ?s1"
    by (rule payout_step.create [OF _ _ run_steps(1) [folded po]]) (simp_all add: empty_payouts_def empty_inbox_def lunch_def)
  with s0 have s1: "payouts_reach ?s1" by (rule payouts_reach.step)
  have "xb_steps (books_of run_created) = []" by code_simp
  then have "book_step (books_of (po_inbox ?s1)) run_submitted"
    using book_step.submit [OF step_name_fresh _ run_steps(2)] by simp
  from payout_step.books [OF this] have "payouts_reach (?s1\<lparr>po_inbox := with_books run_submitted run_created\<rparr>)"
    using payouts_reach.step [OF s1] by simp
  moreover have "book_step run_submitted run_approved"
    by (rule book_step.decide [OF _ run_steps(3)]) (simp add: DECISIONS_def)
  moreover have "books_of (with_books bk ib) = bk" "with_books bk (with_books bk' ib) = with_books bk ib" for bk bk' :: expense_books and ib
    by (simp_all add: with_books_def expense_books.truncate_def)
  ultimately have "payouts_reach (?s1\<lparr>po_inbox := with_books run_approved run_created\<rparr>)"
    using payouts_reach.step [OF _ payout_step.books [of "?s1\<lparr>po_inbox := with_books run_submitted run_created\<rparr>" run_approved]] by simp
  then have b: "payouts_reach run_batched" using payouts_reach.step [OF _ payout_step.batch [OF run_steps(4)]] by simp
  then show "payouts_reach run_batched" .
  show "payouts_reach run_paid" by (rule payouts_reach.step [OF b payout_step.pay [OF run_steps(5)]])
  have "book_step (books_of (po_inbox run_batched))
      (right (decide ''r1'' ''mark_reimbursed'' 2 None manager 3 (books_of (po_inbox run_batched))))"
    by (rule book_step.decide [OF _ run_steps(6)]) (simp add: DECISIONS_def)
  from payouts_reach.step [OF b payout_step.books [OF this]] show "payouts_reach run_by_hand" unfolding run_by_hand_def .
qed

section \<open>Witnesses\<close>

theorem expenses_sound_witness:
  "payouts_reach run_paid \<and> xr_status (hd (xb_reports (po_inbox run_paid))) = E_reimbursed \<and>
   es_status (hd (chain_of ''r1'' (xb_steps (po_inbox run_paid)))) = XApproved \<and>
   es_decided_by (hd (chain_of ''r1'' (xb_steps (po_inbox run_paid)))) \<noteq> Some ''u1''"
proof -
  have m: "xb_reports (po_inbox run_paid) \<noteq> [] \<and> xr_id (hd (xb_reports (po_inbox run_paid))) = ''r1'' \<and>
    xr_employee (hd (xb_reports (po_inbox run_paid))) = ''u1'' \<and> xr_status (hd (xb_reports (po_inbox run_paid))) = E_reimbursed"
    by code_simp
  have "E_reimbursed \<in> set SETTLED" by (simp add: SETTLED_def)
  then have "chain_of ''r1'' (xb_steps (po_inbox run_paid)) \<noteq> []"
    "st \<in> set (chain_of ''r1'' (xb_steps (po_inbox run_paid))) \<Longrightarrow>
       es_status st = XApproved \<and> (\<exists>d. es_decided_by st = Some d \<and> d \<noteq> ''u1'')" for st
    using expenses_sound [OF run_reaches(1), of "hd (xb_reports (po_inbox run_paid))"] m by simp_all
  from this(1) this(2) [OF hd_in_set [OF this(1)]] show ?thesis using m run_reaches(1) by auto
qed

theorem expenses_refine_lifecycle_witness:
  "lifecycle_step (report_status (xb_reports (po_inbox run_batched))) (report_status (xb_reports (po_inbox run_paid))) \<and>
   report_status (xb_reports (po_inbox run_batched)) ''r1'' = Some E_approved \<and>
   report_status (xb_reports (po_inbox run_paid)) ''r1'' = Some E_reimbursed"
proof -
  have "report_status (xb_reports (po_inbox run_batched)) ''r1'' = Some E_approved \<and>
   report_status (xb_reports (po_inbox run_paid)) ''r1'' = Some E_reimbursed" by code_simp
  then show ?thesis using expenses_refine_lifecycle [OF run_reaches(3) payout_step.pay [OF run_steps(5)]] by simp
qed


definition one_row :: statement_row where
  "one_row = \<lparr>sr_date = 5, sr_description = ''Taxi'', sr_amount = 20, sr_currency = Some ''EUR'', sr_direction = Debit\<rparr>"

definition imported :: "string \<Rightarrow> inbox \<Rightarrow> import_result \<times> inbox" where
  "imported k ib = right (import_statement k (step_name k) [one_row] ''sha'' ''dig'' (Some ''acct'') None (Some k) claimant True clerk ib)"

theorem import_once_witness:
  "xb_txns (snd (imported ''k2'' (snd (imported ''k1'' empty_inbox)))) = xb_txns (snd (imported ''k1'' empty_inbox)) \<and>
   length (xb_txns (snd (imported ''k1'' empty_inbox))) = 1 \<and>
   im_imported (fst (imported ''k2'' (snd (imported ''k1'' empty_inbox)))) = 0"
proof -
  have p: "\<not> isl x \<Longrightarrow> x = Inr (fst (right x), snd (right x))" for x :: "'x + 'y \<times> 'z" by (cases x) (simp_all add: right_def)
  have i: "import_statement k (step_name k) [one_row] ''sha'' ''dig'' (Some ''acct'') None (Some k) claimant True clerk ib =
      Inr (fst (imported k ib), snd (imported k ib))"
    if "\<not> isl (import_statement k (step_name k) [one_row] ''sha'' ''dig'' (Some ''acct'') None (Some k) claimant True clerk ib)" for k ib
    unfolding imported_def by (rule p [OF that])
  have one: "\<not> isl (import_statement ''k1'' (step_name ''k1'') [one_row] ''sha'' ''dig'' (Some ''acct'') None (Some ''k1'') claimant True clerk empty_inbox)"
    by code_simp
  have two: "\<not> isl (import_statement ''k2'' (step_name ''k2'') [one_row] ''sha'' ''dig'' (Some ''acct'') None (Some ''k2'') claimant True clerk
      (snd (imported ''k1'' empty_inbox)))" by code_simp
  have "distinct (map import_key (xb_imports (snd (imported ''k1'' empty_inbox))))" by code_simp
  moreover have "length (xb_txns (snd (imported ''k1'' empty_inbox))) = 1" by code_simp
  ultimately show ?thesis using import_once [OF i [OF one] _ _ i [OF two]] by simp
qed

theorem item_columns_typed_witness:
  "apply_item_fx [] ''EUR'' (item_from ''i1'' (claim_of (1 / 3))) =
     Inr ((item_from ''i1'' (claim_of (1 / 3)))\<lparr>xi_currency := None, xi_fx_source := None, xi_fx_rate := None\<rparr>) \<and>
   on_cents (xi_amount (item_from ''i1'' (claim_of (1 / 3))))"
proof -
  have a: "apply_item_fx [] ''EUR'' (item_from ''i1'' (claim_of (1 / 3))) =
     Inr ((item_from ''i1'' (claim_of (1 / 3)))\<lparr>xi_currency := None, xi_fx_source := None, xi_fx_rate := None\<rparr>)"
    by (simp add: apply_item_fx_def item_from_def claim_of_def)
  show ?thesis using item_columns_typed [OF a] a by simp
qed

definition capped :: expense_policy where
  "capped = \<lparr>ep_active = True, ep_item_max = Some 50, ep_receipt_over = None, ep_caps = [], ep_categories = [], ep_currencies = [],
     ep_weekend = False, ep_duplicates = True, ep_mileage_rate = None, ep_tolerance = None, ep_purpose_over = None,
     ep_late_days = None, ep_blocking = [''over_item_max''], ep_version = 1\<rparr>"


section \<open>Approvals that do not bind\<close>



end
