(* ===== verification/Reconciliation.thy ===== *)
theory Reconciliation
  imports Receivables PaymentRun Reimbursement
begin

text \<open>
  Bank reconciliation: \<open>services/reconciliation.py\<close> and the handlers over it. A parsed
  statement becomes lines, a line is matched to a receipt or a direct payment (credit) or
  to a paid reimbursement batch or payment run (debit), at most one line per movement.
  The parser and the digest of the file are outside; a timestamp is read as a date by
  \<open>day_of\<close>.
\<close>

section \<open>State\<close>

record bank_txn =
  bt_date :: date
  bt_description :: string
  bt_amount :: decimal
  bt_direction :: string
  bt_balance :: "decimal option"
  bt_currency :: "string option"

record parsed_statement =
  ps_method :: string
  ps_transactions :: "bank_txn list"

record bank_statement =
  bs_id :: ident
  bs_filename :: string
  bs_format :: string
  bs_method :: string
  bs_sha :: string
  bs_count :: nat
  bs_created_by :: "string option"

record bank_line =
  bl_id :: ident
  bl_statement :: ident
  bl_date :: date
  bl_description :: string
  bl_amount :: decimal
  bl_direction :: string
  bl_currency :: "string option"
  bl_balance :: "decimal option"
  bl_status :: string
  bl_kind :: "string option"
  bl_target :: "ident option"

text \<open>The statements with the tables of movements a line can be matched to.\<close>

record recon_books =
  rb_enabled :: bool
  rb_statements :: "bank_statement list"
  rb_lines :: "bank_line list"
  rb_receipts :: "receipt list"
  rb_payments :: "payment list"
  rb_batches :: "payout_batch list"
  rb_runs :: "payment_run list"

datatype recon_error =
    ReconDisabled | NoTransactions | AlreadyImported | LineNotFound | UnknownKind | ForeignLine string
  | WrongDirection | TargetNotFound | TargetNotPaid | AmountMismatch decimal decimal | AlreadyReconciled
  | UnmatchFirst | StatementNotFound

definition TOL :: decimal where "TOL = 2 / 100"

definition KINDS :: "string list" where
  "KINDS = [''receipt'', ''reimbursement'', ''payment_run'', ''issued_payment'']"

section \<open>Importing\<close>

definition ends_with :: "string \<Rightarrow> string \<Rightarrow> bool" where
  "ends_with s suffix \<longleftrightarrow> length suffix \<le> length s \<and> drop (length s - length suffix) s = suffix"

definition source_format :: "string \<Rightarrow> string \<Rightarrow> string" where
  "source_format filename meth =
     (if ends_with (py_lower filename) ''.csv'' then ''csv'' else if meth = ''camt.053'' then ''camt'' else ''pdf'')"

definition already_imported :: "string \<Rightarrow> recon_books \<Rightarrow> bool" where
  "already_imported sha bk \<longleftrightarrow> (\<exists>s \<in> set (rb_statements bk). bs_sha s = sha)"

definition line_of :: "ident \<Rightarrow> ident \<Rightarrow> bank_txn \<Rightarrow> bank_line" where
  "line_of i st t =
     \<lparr>bl_id = i, bl_statement = st, bl_date = bt_date t, bl_description = take 300 (bt_description t),
      bl_amount = q2 (if bt_direction t = ''credit'' then bt_amount t else - bt_amount t), bl_direction = bt_direction t,
      bl_currency = (if truthy (bt_currency t) then bt_currency t else None), bl_balance = map_option q2 (bt_balance t),
      bl_status = ''unmatched'', bl_kind = None, bl_target = None\<rparr>"

definition import_bank_statement ::
  "ident \<Rightarrow> (nat \<Rightarrow> ident) \<Rightarrow> string \<Rightarrow> string \<Rightarrow> parsed_statement \<Rightarrow> string option \<Rightarrow> recon_books \<Rightarrow> recon_error + recon_books" where
  "import_bank_statement i fresh filename sha parsed created_by bk =
     (if \<not> rb_enabled bk then Inl ReconDisabled
      else if ps_transactions parsed = [] then Inl NoTransactions
      else if already_imported sha bk then Inl AlreadyImported
      else Inr (bk\<lparr>rb_statements := rb_statements bk @ [\<lparr>bs_id = i, bs_filename = take 300 filename,
                      bs_format = source_format filename (ps_method parsed), bs_method = ps_method parsed, bs_sha = sha,
                      bs_count = length (ps_transactions parsed), bs_created_by = created_by\<rparr>],
                   rb_lines := rb_lines bk @ map (\<lambda>(n, t). line_of (fresh n) i t) (enumerate 0 (ps_transactions parsed))\<rparr>))"

section \<open>Reading\<close>

definition get_line :: "ident \<Rightarrow> recon_books \<Rightarrow> bank_line option" where
  "get_line i bk = find (\<lambda>l. bl_id l = i) (rb_lines bk)"

definition get_statement :: "ident \<Rightarrow> recon_books \<Rightarrow> bank_statement option" where
  "get_statement i bk = find (\<lambda>s. bs_id s = i) (rb_statements bk)"

definition lines_for :: "ident \<Rightarrow> recon_books \<Rightarrow> bank_line list" where
  "lines_for i bk = sort_key bl_date (filter (\<lambda>l. bl_statement l = i) (rb_lines bk))"

definition statement_lines :: "ident \<Rightarrow> recon_books \<Rightarrow> recon_error + bank_line list" where
  "statement_lines i bk =
     (if \<not> rb_enabled bk then Inl ReconDisabled
      else if get_statement i bk = None then Inl StatementNotFound else Inr (lines_for i bk))"

definition statement_counts :: "ident \<Rightarrow> recon_books \<Rightarrow> string \<Rightarrow> nat" where
  "statement_counts i bk status =
     length (filter (\<lambda>l. bl_statement l = i \<and> bl_status l = status) (rb_lines bk))"

definition matched_targets :: "string \<Rightarrow> recon_books \<Rightarrow> ident list" where
  "matched_targets kind bk =
     List.map_filter (\<lambda>l. if bl_kind l = Some kind \<and> bl_status l = ''matched'' \<and> truthy (bl_target l) then bl_target l else None)
       (rb_lines bk)"

definition rank :: "int \<Rightarrow> bool \<Rightarrow> int" where
  "rank days_off ref_hit = (100 - min days_off 100) + (if ref_hit then 25 else 0)"

definition foreign_currency_of :: "bank_line \<Rightarrow> string option" where
  "foreign_currency_of l =
     (let c = py_upper (py_strip (str_or (bl_currency l) [])) in if c \<noteq> [] \<and> c \<noteq> ''EUR'' then Some c else None)"

section \<open>Suggestions\<close>

record candidate =
  ca_kind :: string
  ca_id :: ident
  ca_amount :: decimal
  ca_date :: date
  ca_reference :: "string option"
  ca_days_off :: int
  ca_score :: int

text \<open>Python's \<open>in\<close> on strings.\<close>

fun contains :: "string \<Rightarrow> string \<Rightarrow> bool" where
  "contains needle [] = (needle = [])"
| "contains needle (c # cs) = (take (length needle) (c # cs) = needle \<or> contains needle cs)"

definition candidate_of :: "bank_line \<Rightarrow> string \<Rightarrow> ident \<Rightarrow> decimal \<Rightarrow> date \<Rightarrow> string option \<Rightarrow> candidate" where
  "candidate_of l kind i amount d ref =
     (let hit = truthy ref \<and> contains (py_lower (the ref)) (py_lower (bl_description l)); off = \<bar>d - bl_date l\<bar>
      in \<lparr>ca_kind = kind, ca_id = i, ca_amount = q2 amount, ca_date = d, ca_reference = ref, ca_days_off = off,
          ca_score = rank off hit\<rparr>)"

text \<open>The amount window of the query, which is checked again on the rounded amounts.\<close>

definition near :: "bank_line \<Rightarrow> decimal \<Rightarrow> bool" where
  "near l amount \<longleftrightarrow> (let m = q2 \<bar>bl_amount l\<bar> in m - TOL \<le> amount \<and> amount \<le> m + TOL \<and> \<not> TOL < \<bar>q2 amount - m\<bar>)"

definition credit_candidates :: "bank_line \<Rightarrow> recon_books \<Rightarrow> candidate list" where
  "credit_candidates l bk =
     map (\<lambda>r. candidate_of l ''receipt'' (rc_id r) (rc_amount r) (rc_received_on r) (rc_reference r))
       (filter (\<lambda>r. near l (rc_amount r) \<and> rc_id r \<notin> set (matched_targets ''receipt'' bk)) (rb_receipts bk)) @
     map (\<lambda>p. candidate_of l ''issued_payment'' (pm_id p) (pm_amount p) (pm_paid_on p) (pm_reference p))
       (filter (\<lambda>p. pm_receipt p = None \<and> 0 < pm_amount p \<and> near l (pm_amount p) \<and>
            pm_id p \<notin> set (matched_targets ''issued_payment'' bk)) (rb_payments bk))"

definition paid_day :: "(instant \<Rightarrow> date) \<Rightarrow> bank_line \<Rightarrow> instant option \<Rightarrow> date" where
  "paid_day day_of l at' = (case at' of None \<Rightarrow> bl_date l | Some t \<Rightarrow> day_of t)"

definition debit_candidates :: "(instant \<Rightarrow> date) \<Rightarrow> bank_line \<Rightarrow> recon_books \<Rightarrow> candidate list" where
  "debit_candidates day_of l bk =
     map (\<lambda>b. candidate_of l ''reimbursement'' (pt_id b) (pt_total_eur b) (paid_day day_of l (pt_paid_at b)) (pt_reference b))
       (filter (\<lambda>b. pt_status b = BatchPaid \<and> near l (pt_total_eur b) \<and>
            pt_id b \<notin> set (matched_targets ''reimbursement'' bk)) (rb_batches bk)) @
     map (\<lambda>r. candidate_of l ''payment_run'' (pr_id r) (pr_total_eur r) (paid_day day_of l (pr_paid_at r)) (pr_reference r))
       (filter (\<lambda>r. pr_status r = RunPaid \<and> near l (pr_total_eur r) \<and>
            pr_id r \<notin> set (matched_targets ''payment_run'' bk)) (rb_runs bk))"

definition suggest_matches :: "(instant \<Rightarrow> date) \<Rightarrow> bank_line \<Rightarrow> nat \<Rightarrow> recon_books \<Rightarrow> candidate list" where
  "suggest_matches day_of l limit bk =
     (if foreign_currency_of l \<noteq> None then []
      else take limit (sort_key (\<lambda>c. - ca_score c)
             (if 0 \<le> bl_amount l then credit_candidates l bk else debit_candidates day_of l bk)))"

section \<open>Matching\<close>

definition target_amount :: "bank_line \<Rightarrow> string \<Rightarrow> ident \<Rightarrow> recon_books \<Rightarrow> recon_error + decimal" where
  "target_amount l kind i bk =
     (if kind = ''receipt''
      then (if bl_amount l < 0 then Inl WrongDirection
            else (case find (\<lambda>r. rc_id r = i) (rb_receipts bk) of
                    None \<Rightarrow> Inl TargetNotFound | Some r \<Rightarrow> Inr (q2 (rc_amount r))))
      else if kind = ''issued_payment''
      then (if bl_amount l < 0 then Inl WrongDirection
            else (case find (\<lambda>p. pm_id p = i \<and> pm_receipt p = None) (rb_payments bk) of
                    None \<Rightarrow> Inl TargetNotFound | Some p \<Rightarrow> Inr (q2 \<bar>pm_amount p\<bar>)))
      else if kind = ''reimbursement''
      then (if 0 < bl_amount l then Inl WrongDirection
            else (case find (\<lambda>b. pt_id b = i) (rb_batches bk) of
                    None \<Rightarrow> Inl TargetNotFound
                  | Some b \<Rightarrow> if pt_status b \<noteq> BatchPaid then Inl TargetNotPaid else Inr (q2 (pt_total_eur b))))
      else (if 0 < bl_amount l then Inl WrongDirection
            else (case find (\<lambda>r. pr_id r = i) (rb_runs bk) of
                    None \<Rightarrow> Inl TargetNotFound
                  | Some r \<Rightarrow> if pr_status r \<noteq> RunPaid then Inl TargetNotPaid else Inr (q2 (pr_total_eur r)))))"

definition set_line :: "ident \<Rightarrow> string \<Rightarrow> string option \<Rightarrow> ident option \<Rightarrow> recon_books \<Rightarrow> recon_books" where
  "set_line i st kind target bk =
     bk\<lparr>rb_lines := map (\<lambda>l. if bl_id l = i then l\<lparr>bl_status := st, bl_kind := kind, bl_target := target\<rparr> else l) (rb_lines bk)\<rparr>"

definition confirm_match :: "bank_line \<Rightarrow> string \<Rightarrow> ident \<Rightarrow> recon_books \<Rightarrow> recon_error + recon_books" where
  "confirm_match l kind target bk =
     (if kind \<notin> set KINDS then Inl UnknownKind
      else (case foreign_currency_of l of
         Some c \<Rightarrow> Inl (ForeignLine c)
       | None \<Rightarrow>
           (case target_amount l kind target bk of
              Inl e \<Rightarrow> Inl e
            | Inr amount \<Rightarrow>
                if TOL < \<bar>amount - q2 \<bar>bl_amount l\<bar>\<bar> then Inl (AmountMismatch (q2 \<bar>bl_amount l\<bar>) amount)
                else if \<exists>x \<in> set (rb_lines bk). bl_kind x = Some kind \<and> bl_target x = Some target \<and>
                       bl_status x = ''matched'' \<and> bl_id x \<noteq> bl_id l
                then Inl AlreadyReconciled
                else Inr (set_line (bl_id l) ''matched'' (Some kind) (Some target) bk))))"

definition on_line ::
  "ident \<Rightarrow> (bank_line \<Rightarrow> recon_error + 'a) \<Rightarrow> recon_books \<Rightarrow> recon_error + 'a" where
  "on_line i h bk =
     (if \<not> rb_enabled bk then Inl ReconDisabled
      else (case get_line i bk of None \<Rightarrow> Inl LineNotFound | Some l \<Rightarrow> h l))"

definition line_candidates :: "(instant \<Rightarrow> date) \<Rightarrow> ident \<Rightarrow> recon_books \<Rightarrow> recon_error + candidate list" where
  "line_candidates day_of i bk = on_line i (\<lambda>l. Inr (suggest_matches day_of l 8 bk)) bk"

definition match_line :: "ident \<Rightarrow> string \<Rightarrow> ident \<Rightarrow> recon_books \<Rightarrow> recon_error + recon_books" where
  "match_line i kind target bk = on_line i (\<lambda>l. confirm_match l kind target bk) bk"

definition unmatch_line :: "ident \<Rightarrow> recon_books \<Rightarrow> recon_error + recon_books" where
  "unmatch_line i bk = on_line i (\<lambda>l. Inr (set_line i ''unmatched'' None None bk)) bk"

definition ignore_line :: "ident \<Rightarrow> recon_books \<Rightarrow> recon_error + recon_books" where
  "ignore_line i bk =
     on_line i (\<lambda>l. if bl_status l = ''matched'' then Inl UnmatchFirst else Inr (set_line i ''ignored'' None None bk)) bk"

section \<open>The invariant\<close>

text \<open>A matched line corresponds to a movement of its direction and, within the tolerance, its amount.\<close>

definition line_ok :: "recon_books \<Rightarrow> bank_line \<Rightarrow> bool" where
  "line_ok bk l \<longleftrightarrow>
     (if bl_status l = ''matched''
      then (\<exists>k i a. bl_kind l = Some k \<and> bl_target l = Some i \<and> k \<in> set KINDS \<and> foreign_currency_of l = None \<and>
              target_amount l k i bk = Inr a \<and> \<bar>a - q2 \<bar>bl_amount l\<bar>\<bar> \<le> TOL)
      else bl_status l \<in> {''unmatched'', ''ignored''} \<and> bl_kind l = None \<and> bl_target l = None)"

definition recon_ok :: "recon_books \<Rightarrow> bool" where
  "recon_ok bk \<longleftrightarrow>
     distinct (map bl_id (rb_lines bk)) \<and> distinct (map bs_sha (rb_statements bk)) \<and>
     (\<forall>l \<in> set (rb_lines bk). line_ok bk l) \<and>
     (\<forall>l \<in> set (rb_lines bk). \<forall>l' \<in> set (rb_lines bk).
        bl_status l = ''matched'' \<and> bl_status l' = ''matched'' \<and> bl_kind l = bl_kind l' \<and> bl_target l = bl_target l' \<longrightarrow> l = l')"

text \<open>
  What the rest of the system does to the movements: receipts and payments are appended,
  and a paid batch or run stays paid with its total.
\<close>

definition movements_kept :: "recon_books \<Rightarrow> recon_books \<Rightarrow> bool" where
  "movements_kept bk bk' \<longleftrightarrow>
     rb_statements bk' = rb_statements bk \<and> rb_lines bk' = rb_lines bk \<and>
     (\<exists>rs. rb_receipts bk' = rb_receipts bk @ rs) \<and> (\<exists>ps. rb_payments bk' = rb_payments bk @ ps) \<and>
     (\<forall>i b. find (\<lambda>b. pt_id b = i) (rb_batches bk) = Some b \<and> pt_status b = BatchPaid \<longrightarrow>
        (\<exists>b'. find (\<lambda>b. pt_id b = i) (rb_batches bk') = Some b' \<and> pt_status b' = BatchPaid \<and> pt_total_eur b' = pt_total_eur b)) \<and>
     (\<forall>i r. find (\<lambda>r. pr_id r = i) (rb_runs bk) = Some r \<and> pr_status r = RunPaid \<longrightarrow>
        (\<exists>r'. find (\<lambda>r. pr_id r = i) (rb_runs bk') = Some r' \<and> pr_status r' = RunPaid \<and> pr_total_eur r' = pr_total_eur r))"

inductive recon_step :: "recon_books \<Rightarrow> recon_books \<Rightarrow> bool" where
  imported: "inj fresh \<Longrightarrow> range fresh \<inter> bl_id ` set (rb_lines bk) = {} \<Longrightarrow>
    import_bank_statement i fresh filename sha parsed by' bk = Inr bk' \<Longrightarrow> recon_step bk bk'"
| matches: "match_line i kind target bk = Inr bk' \<Longrightarrow> recon_step bk bk'"
| unmatches: "unmatch_line i bk = Inr bk' \<Longrightarrow> recon_step bk bk'"
| ignores: "ignore_line i bk = Inr bk' \<Longrightarrow> recon_step bk bk'"
| elsewhere: "movements_kept bk bk' \<Longrightarrow> recon_step bk bk'"

inductive recon_reach :: "recon_books \<Rightarrow> bool" where
  empty: "rb_statements bk = [] \<Longrightarrow> rb_lines bk = [] \<Longrightarrow> recon_reach bk"
| moves: "recon_reach bk \<Longrightarrow> recon_step bk bk' \<Longrightarrow> recon_reach bk'"

lemma target_amount_fields:
  "bl_amount l' = bl_amount l \<Longrightarrow> rb_receipts bk' = rb_receipts bk \<Longrightarrow> rb_payments bk' = rb_payments bk \<Longrightarrow>
   rb_batches bk' = rb_batches bk \<Longrightarrow> rb_runs bk' = rb_runs bk \<Longrightarrow> target_amount l' k i bk' = target_amount l k i bk"
  by (simp add: target_amount_def)

lemma find_append_Some: "find P xs = Some x \<Longrightarrow> find P (xs @ ys) = Some x"
  by (induction xs) auto

lemma target_amount_kept:
  assumes "movements_kept bk bk'" "target_amount l k i bk = Inr a"
  shows "target_amount l k i bk' = Inr a"
proof -
  have r: "find (\<lambda>r. rc_id r = i) (rb_receipts bk) = Some x \<Longrightarrow> find (\<lambda>r. rc_id r = i) (rb_receipts bk') = Some x" for x
    using assms(1) by (auto simp: movements_kept_def find_append_Some)
  have p: "find (\<lambda>p. pm_id p = i \<and> pm_receipt p = None) (rb_payments bk) = Some x \<Longrightarrow>
      find (\<lambda>p. pm_id p = i \<and> pm_receipt p = None) (rb_payments bk') = Some x" for x
    using assms(1) by (auto simp: movements_kept_def find_append_Some)
  have b: "\<exists>b'. find (\<lambda>b. pt_id b = i) (rb_batches bk') = Some b' \<and> pt_status b' = BatchPaid \<and> pt_total_eur b' = pt_total_eur x"
    if "find (\<lambda>b. pt_id b = i) (rb_batches bk) = Some x" "pt_status x = BatchPaid" for x
    using assms(1) that by (simp add: movements_kept_def)
  have u: "\<exists>r'. find (\<lambda>r. pr_id r = i) (rb_runs bk') = Some r' \<and> pr_status r' = RunPaid \<and> pr_total_eur r' = pr_total_eur x"
    if "find (\<lambda>r. pr_id r = i) (rb_runs bk) = Some x" "pr_status x = RunPaid" for x
    using assms(1) that by (simp add: movements_kept_def)
  from assms(2) show ?thesis unfolding target_amount_def
    by (auto split: if_splits option.splits dest!: r p b u)
qed

lemma set_line_simps [simp]:
  "rb_statements (set_line i st k t bk) = rb_statements bk" "rb_receipts (set_line i st k t bk) = rb_receipts bk"
  "rb_payments (set_line i st k t bk) = rb_payments bk" "rb_batches (set_line i st k t bk) = rb_batches bk"
  "rb_runs (set_line i st k t bk) = rb_runs bk"
  "rb_lines (set_line i st k t bk) =
     map (\<lambda>l. if bl_id l = i then l\<lparr>bl_status := st, bl_kind := k, bl_target := t\<rparr> else l) (rb_lines bk)"
  by (simp_all add: set_line_def)

text \<open>Setting a line keeps the invariant when the new state of the line is sound and its target is free.\<close>

lemma set_line_ok:
  assumes ok: "recon_ok bk" and l: "get_line i bk = Some l"
    and line: "line_ok bk (l\<lparr>bl_status := st, bl_kind := k, bl_target := t\<rparr>)"
    and free: "st = ''matched'' \<Longrightarrow>
      \<not> (\<exists>x \<in> set (rb_lines bk). bl_kind x = k \<and> bl_target x = t \<and> bl_status x = ''matched'' \<and> bl_id x \<noteq> i)"
  shows "recon_ok (set_line i st k t bk)"
proof -
  let ?f = "\<lambda>l. if bl_id l = i then l\<lparr>bl_status := st, bl_kind := k, bl_target := t\<rparr> else l"
  have d: "distinct (map bl_id (rb_lines bk))" using ok by (simp add: recon_ok_def)
  have mem: "l \<in> set (rb_lines bk)" "bl_id l = i" using l by (auto simp: get_line_def find_Some_iff)
  have same: "x = l" if "x \<in> set (rb_lines bk)" "bl_id x = i" for x
    using d that mem by (auto simp: distinct_map dest: inj_onD)
  have lines: "line_ok bk x" if "x \<in> set (map ?f (rb_lines bk))" for x
    using that ok line same by (auto simp: recon_ok_def)
  have t: "line_ok (set_line i st k t bk) x = line_ok bk x" for x
    by (simp add: line_ok_def target_amount_fields [of x x "set_line i st k t bk" bk])
  have ids: "map bl_id (map ?f (rb_lines bk)) = map bl_id (rb_lines bk)" by simp
  have one: "x = y" if x: "x \<in> set (map ?f (rb_lines bk))" and y: "y \<in> set (map ?f (rb_lines bk))"
      and m: "bl_status x = ''matched''" "bl_status y = ''matched''" "bl_kind x = bl_kind y" "bl_target x = bl_target y" for x y
  proof -
    obtain x0 y0 where xy: "x0 \<in> set (rb_lines bk)" "x = ?f x0" "y0 \<in> set (rb_lines bk)" "y = ?f y0" using x y by auto
    show ?thesis
    proof (cases "bl_id x0 = i"; cases "bl_id y0 = i")
      assume "bl_id x0 = i" "bl_id y0 = i"
      then show ?thesis using xy same [OF xy(1)] same [OF xy(3)] by simp
    next
      assume a: "bl_id x0 = i" "bl_id y0 \<noteq> i" then show ?thesis using xy m free by auto
    next
      assume a: "bl_id x0 \<noteq> i" "bl_id y0 = i" then show ?thesis using xy m free by (auto simp: eq_commute)
    next
      assume "bl_id x0 \<noteq> i" "bl_id y0 \<noteq> i" then show ?thesis using xy m ok unfolding recon_ok_def by simp
    qed
  qed
  show ?thesis
    unfolding recon_ok_def set_line_simps ids using d ok lines one unfolding t by (simp add: recon_ok_def del: set_map)
qed

lemma on_line_Inr: "on_line i h bk = Inr x \<longleftrightarrow> rb_enabled bk \<and> (\<exists>l. get_line i bk = Some l \<and> h l = Inr x)"
  by (auto simp: on_line_def split: option.splits)

lemma confirm_match_Inr:
  "confirm_match l k t bk = Inr bk' \<longleftrightarrow> k \<in> set KINDS \<and> foreign_currency_of l = None \<and>
     (\<exists>a. target_amount l k t bk = Inr a \<and> \<bar>a - q2 \<bar>bl_amount l\<bar>\<bar> \<le> TOL) \<and>
     \<not> (\<exists>x \<in> set (rb_lines bk). bl_kind x = Some k \<and> bl_target x = Some t \<and> bl_status x = ''matched'' \<and> bl_id x \<noteq> bl_id l) \<and>
     bk' = set_line (bl_id l) ''matched'' (Some k) (Some t) bk"
  unfolding confirm_match_def by (cases "foreign_currency_of l"; cases "target_amount l k t bk") auto

lemma get_line_id: "get_line i bk = Some l \<Longrightarrow> bl_id l = i"
  by (auto simp: get_line_def find_Some_iff)

lemma match_line_ok:
  assumes op: "match_line i k t bk = Inr bk'" and ok: "recon_ok bk"
  shows "recon_ok bk'"
proof -
  obtain l where l: "get_line i bk = Some l" "confirm_match l k t bk = Inr bk'"
    using op by (auto simp: match_line_def on_line_Inr)
  note c = l(2) [unfolded confirm_match_Inr get_line_id [OF l(1)]]
  have "line_ok bk (l\<lparr>bl_status := ''matched'', bl_kind := Some k, bl_target := Some t\<rparr>)"
  proof -
    let ?l = "l\<lparr>bl_status := ''matched'', bl_kind := Some k, bl_target := Some t\<rparr>"
    have "foreign_currency_of ?l = foreign_currency_of l" by (simp add: foreign_currency_of_def)
    moreover have "target_amount ?l k t bk = target_amount l k t bk" by (rule target_amount_fields) simp_all
    ultimately show ?thesis unfolding line_ok_def using c by simp
  qed
  then show ?thesis using c set_line_ok [OF ok l(1)] by blast
qed

lemma clear_line_ok:
  assumes ok: "recon_ok bk" and l: "get_line i bk = Some l" and st: "st \<in> {''unmatched'', ''ignored''}"
  shows "recon_ok (set_line i st None None bk)"
  using st by (intro set_line_ok [OF ok l]) (auto simp: line_ok_def)

lemma import_ok:
  assumes op: "import_bank_statement i fresh fn sha parsed by' bk = Inr bk'" and ok: "recon_ok bk"
    and f: "inj fresh" "range fresh \<inter> bl_id ` set (rb_lines bk) = {}"
  shows "recon_ok bk'"
proof -
  let ?new = "map (\<lambda>(n, t). line_of (fresh n) i t) (enumerate 0 (ps_transactions parsed))"
  obtain st where b: "bk' = bk\<lparr>rb_statements := rb_statements bk @ [st], rb_lines := rb_lines bk @ ?new\<rparr>" "bs_sha st = sha"
    "\<not> already_imported sha bk"
    using op by (auto simp: import_bank_statement_def split: if_splits)
  have new: "bl_status l = ''unmatched'' \<and> bl_kind l = None \<and> bl_target l = None" if "l \<in> set ?new" for l
    using that by (auto simp: line_of_def)
  have ids: "map bl_id (map (\<lambda>(n, t). line_of (fresh n) i t) (enumerate k ts)) = map fresh [k..<k + length ts]" for k ts
    by (induction ts arbitrary: k) (simp_all add: line_of_def upt_rec)
  have "distinct (map bl_id ?new)" unfolding ids using f(1) by (simp add: distinct_map inj_on_def)
  moreover have "bl_id ` set ?new \<inter> bl_id ` set (rb_lines bk) = {}"
  proof -
    have "bl_id ` set ?new = set (map bl_id ?new)" by (rule list.set_map [symmetric])
    also have "\<dots> = fresh ` set [0..<0 + length (ps_transactions parsed)]" unfolding ids by simp
    finally show ?thesis using f(2) by auto
  qed
  moreover have "distinct (map bl_id (rb_lines bk))" using ok by (simp add: recon_ok_def)
  moreover have "rb_lines bk' = rb_lines bk @ ?new" by (simp add: b(1))
  ultimately have d: "distinct (map bl_id (rb_lines bk'))"
    by (simp only: map_append distinct_append list.set_map Int_commute simp_thms)
  have t: "line_ok bk' l = line_ok bk l" for l
  proof -
    have "target_amount l k j bk' = target_amount l k j bk" for k j by (rule target_amount_fields) (simp_all add: b(1))
    then show ?thesis by (simp add: line_ok_def)
  qed
  have lines: "line_ok bk l" if "l \<in> set (rb_lines bk')" for l
  proof (cases "l \<in> set ?new")
    case True
    then show ?thesis using new [OF True] by (simp add: line_ok_def)
  next
    case False
    then have "l \<in> set (rb_lines bk)" using that by (simp add: b(1))
    then show ?thesis using ok by (simp add: recon_ok_def)
  qed
  have old: "l \<in> set (rb_lines bk)" if "l \<in> set (rb_lines bk')" "bl_status l = ''matched''" for l
  proof (cases "l \<in> set ?new")
    case True
    then show ?thesis using new [OF True] that(2) by simp
  next
    case False
    then show ?thesis using that(1) by (simp add: b(1))
  qed
  show ?thesis unfolding recon_ok_def
  proof (intro conjI ballI impI)
    show "distinct (map bs_sha (rb_statements bk'))" using ok b(2,3) by (auto simp: recon_ok_def already_imported_def b(1))
    fix l l' assume "l \<in> set (rb_lines bk')" "l' \<in> set (rb_lines bk')"
      "bl_status l = ''matched'' \<and> bl_status l' = ''matched'' \<and> bl_kind l = bl_kind l' \<and> bl_target l = bl_target l'"
    then show "l = l'" using old ok unfolding recon_ok_def by blast
  qed (use d lines t in auto)
qed

lemma elsewhere_ok:
  assumes "movements_kept bk bk'" "recon_ok bk"
  shows "recon_ok bk'"
proof -
  have f: "rb_lines bk' = rb_lines bk" "rb_statements bk' = rb_statements bk" using assms(1) by (simp_all add: movements_kept_def)
  have "line_ok bk l \<Longrightarrow> line_ok bk' l" for l
    using target_amount_kept [OF assms(1)] unfolding line_ok_def by (auto split: if_splits)
  then show ?thesis using assms(2) by (simp add: recon_ok_def f)
qed

lemma recon_reach_ok: "recon_reach bk \<Longrightarrow> recon_ok bk"
proof (induction rule: recon_reach.induct)
  case (moves bk bk')
  from moves.hyps(2) moves.IH show ?case
  proof (induction rule: recon_step.induct)
    case imported then show ?case by (blast intro: import_ok)
  next
    case matches then show ?case by (blast intro: match_line_ok)
  next
    case (unmatches i bk bk')
    then show ?case by (auto simp: unmatch_line_def on_line_Inr intro: clear_line_ok)
  next
    case (ignores i bk bk')
    then show ?case by (auto simp: ignore_line_def on_line_Inr split: if_splits intro: clear_line_ok)
  next
    case elsewhere then show ?case by (rule elsewhere_ok)
  qed
qed (simp add: recon_ok_def)


section \<open>Suggestions and the confirmation\<close>

lemma find_row:
  assumes "distinct (map key xs)" "x \<in> set xs" "P x"
  shows "find (\<lambda>y. key y = key x \<and> P y) xs = Some x"
  using assms by (induction xs) (auto simp: rev_image_eqI)

lemma free_target:
  "i \<noteq> [] \<Longrightarrow> i \<notin> set (matched_targets k bk) \<Longrightarrow>
   \<not> (\<exists>x \<in> set (rb_lines bk). bl_kind x = Some k \<and> bl_target x = Some i \<and> bl_status x = ''matched'' \<and> bl_id x \<noteq> j)"
proof
  assume i: "i \<noteq> []" "i \<notin> set (matched_targets k bk)"
    "\<exists>x \<in> set (rb_lines bk). bl_kind x = Some k \<and> bl_target x = Some i \<and> bl_status x = ''matched'' \<and> bl_id x \<noteq> j"
  then obtain x where x: "x \<in> set (rb_lines bk)" "bl_kind x = Some k" "bl_target x = Some i" "bl_status x = ''matched''" by blast
  then have "i \<in> set (matched_targets k bk)"
    using i(1) by (auto simp: matched_targets_def List.map_filter_def truthy_def image_iff intro!: bexI [of _ x])
  with i(2) show False by blast
qed

lemma near_amount: "near l a \<Longrightarrow> \<bar>q2 a - q2 \<bar>bl_amount l\<bar>\<bar> \<le> TOL"
  by (simp add: near_def Let_def)

lemma candidate_fields [simp]: "ca_kind (candidate_of l k i a d r) = k" "ca_id (candidate_of l k i a d r) = i"
  by (simp_all add: candidate_of_def Let_def)

text \<open>
  C38: What is suggested can be confirmed. Every candidate the system offers for a bank
  line is accepted by the confirmation: it exists, is of the right direction, is paid, is
  within the tolerance and is not reconciled to another line; and a line in a foreign
  currency is offered nothing and accepts nothing.
\<close>

theorem suggestions_confirmable:
  assumes ids: "distinct (map rc_id (rb_receipts bk))" "distinct (map pm_id (rb_payments bk))"
      "distinct (map pt_id (rb_batches bk))" "distinct (map pr_id (rb_runs bk))"
    and c: "c \<in> set (suggest_matches day_of l n bk)" "ca_id c \<noteq> []"
  shows "confirm_match l (ca_kind c) (ca_id c) bk =
     Inr (set_line (bl_id l) ''matched'' (Some (ca_kind c)) (Some (ca_id c)) bk) \<and>
    (\<forall>l' k t. foreign_currency_of l' \<noteq> None \<longrightarrow> suggest_matches day_of l' n bk = [] \<and> isl (confirm_match l' k t bk))"
proof -
  have f: "foreign_currency_of l = None"
    and mem: "c \<in> set (if 0 \<le> bl_amount l then credit_candidates l bk else debit_candidates day_of l bk)"
    using c(1) by (auto simp: suggest_matches_def dest: in_set_takeD split: if_splits)
  have "\<exists>a. target_amount l (ca_kind c) (ca_id c) bk = Inr a \<and> \<bar>a - q2 \<bar>bl_amount l\<bar>\<bar> \<le> TOL \<and> ca_kind c \<in> set KINDS \<and>
      ca_id c \<notin> set (matched_targets (ca_kind c) bk)"
  proof (cases "0 \<le> bl_amount l")
    case True
    then consider (r) r where "c = candidate_of l ''receipt'' (rc_id r) (rc_amount r) (rc_received_on r) (rc_reference r)"
        "r \<in> set (rb_receipts bk)" "near l (rc_amount r)" "rc_id r \<notin> set (matched_targets ''receipt'' bk)"
      | (p) p where "c = candidate_of l ''issued_payment'' (pm_id p) (pm_amount p) (pm_paid_on p) (pm_reference p)"
        "p \<in> set (rb_payments bk)" "pm_receipt p = None" "0 < pm_amount p" "near l (pm_amount p)"
        "pm_id p \<notin> set (matched_targets ''issued_payment'' bk)"
      using mem by (auto simp: credit_candidates_def)
    then show ?thesis
    proof cases
      case r
      then show ?thesis using True near_amount [OF r(3)] find_row [OF ids(1) r(2), of "\<lambda>_. True"]
        by (simp add: target_amount_def KINDS_def)
    next
      case p
      then show ?thesis using True near_amount [OF p(5)] find_row [OF ids(2) p(2), of "\<lambda>p. pm_receipt p = None"]
        by (simp add: target_amount_def KINDS_def)
    qed
  next
    case False
    then consider (b) b where "c = candidate_of l ''reimbursement'' (pt_id b) (pt_total_eur b) (paid_day day_of l (pt_paid_at b)) (pt_reference b)"
        "b \<in> set (rb_batches bk)" "pt_status b = BatchPaid" "near l (pt_total_eur b)" "pt_id b \<notin> set (matched_targets ''reimbursement'' bk)"
      | (u) u where "c = candidate_of l ''payment_run'' (pr_id u) (pr_total_eur u) (paid_day day_of l (pr_paid_at u)) (pr_reference u)"
        "u \<in> set (rb_runs bk)" "pr_status u = RunPaid" "near l (pr_total_eur u)" "pr_id u \<notin> set (matched_targets ''payment_run'' bk)"
      using mem by (auto simp: debit_candidates_def)
    then show ?thesis
    proof cases
      case b
      then show ?thesis using False near_amount [OF b(4)] find_row [OF ids(3) b(2), of "\<lambda>_. True"]
        by (simp add: target_amount_def KINDS_def)
    next
      case u
      then show ?thesis using False near_amount [OF u(4)] find_row [OF ids(4) u(2), of "\<lambda>_. True"]
        by (simp add: target_amount_def KINDS_def)
    qed
  qed
  then have "confirm_match l (ca_kind c) (ca_id c) bk =
     Inr (set_line (bl_id l) ''matched'' (Some (ca_kind c)) (Some (ca_id c)) bk)"
    using f free_target [OF c(2)] unfolding confirm_match_Inr by blast
  moreover have "suggest_matches day_of l' n bk = [] \<and> isl (confirm_match l' k t bk)" if "foreign_currency_of l' \<noteq> None" for l' k t
    using that by (auto simp: suggest_matches_def confirm_match_def)
  ultimately show ?thesis by blast
qed

section \<open>A run\<close>

definition sample_txn :: bank_txn where
  "sample_txn = \<lparr>bt_date = 100, bt_description = ''ACME RF12'', bt_amount = 50, bt_direction = ''credit'', bt_balance = None,
     bt_currency = None\<rparr>"

definition sample_receipt :: receipt where
  "sample_receipt = \<lparr>rc_id = ''rc1'', rc_amount = 50, rc_received_on = 99, rc_method = ''bank'', rc_reference = Some ''RF12'', rc_note = None\<rparr>"

text \<open>A payment of 50 that was reversed.\<close>

definition reversed_payment :: "payment list" where
  "reversed_payment =
     [\<lparr>pm_id = ''p1'', pm_invoice = ''v1'', pm_amount = 50, pm_paid_on = 98, pm_method = ''bank'', pm_reference = None, pm_note = None,
       pm_receipt = None, pm_command_key = None, pm_command_hash = None, pm_reversal_of = None\<rparr>,
      \<lparr>pm_id = ''p2'', pm_invoice = ''v1'', pm_amount = - 50, pm_paid_on = 99, pm_method = ''bank'', pm_reference = None, pm_note = None,
       pm_receipt = None, pm_command_key = None, pm_command_hash = None, pm_reversal_of = Some ''p1''\<rparr>]"

definition recon_start :: recon_books where
  "recon_start = \<lparr>rb_enabled = True, rb_statements = [], rb_lines = [], rb_receipts = [sample_receipt], rb_payments = reversed_payment,
     rb_batches = [], rb_runs = []\<rparr>"

definition recon_imported :: recon_books where
  "recon_imported = (case import_bank_statement ''s1'' (\<lambda>n. ''l'' @ replicate n (CHR ''x'')) ''march.csv'' ''sha''
     \<lparr>ps_method = ''csv'', ps_transactions = [sample_txn]\<rparr> None recon_start of Inr bk \<Rightarrow> bk)"

definition recon_matched :: recon_books where
  "recon_matched = (case match_line ''l'' ''receipt'' ''rc1'' recon_imported of Inr bk \<Rightarrow> bk)"

lemma recon_run:
  "import_bank_statement ''s1'' (\<lambda>n. ''l'' @ replicate n (CHR ''x'')) ''march.csv'' ''sha''
     \<lparr>ps_method = ''csv'', ps_transactions = [sample_txn]\<rparr> None recon_start = Inr recon_imported"
  "match_line ''l'' ''receipt'' ''rc1'' recon_imported = Inr recon_matched"
proof -
  show "import_bank_statement ''s1'' (\<lambda>n. ''l'' @ replicate n (CHR ''x'')) ''march.csv'' ''sha''
     \<lparr>ps_method = ''csv'', ps_transactions = [sample_txn]\<rparr> None recon_start = Inr recon_imported"
    by (simp add: recon_imported_def import_bank_statement_def recon_start_def already_imported_def)
  have "\<not> isl (match_line ''l'' ''receipt'' ''rc1'' recon_imported)" by code_simp
  then show "match_line ''l'' ''receipt'' ''rc1'' recon_imported = Inr recon_matched"
    unfolding recon_matched_def by (cases "match_line ''l'' ''receipt'' ''rc1'' recon_imported") simp_all
qed

lemma recon_run_reach: "recon_reach recon_matched"
proof -
  have "recon_reach recon_start" by (rule recon_reach.empty) (simp_all add: recon_start_def)
  moreover have "recon_step recon_start recon_imported"
    by (rule recon_step.imported [OF _ _ recon_run(1)]) (auto simp: inj_def recon_start_def)
  moreover have "recon_step recon_imported recon_matched" by (rule recon_step.matches [OF recon_run(2)])
  ultimately show ?thesis using recon_reach.moves by blast
qed


theorem suggestions_confirmable_witness:
  "map ca_id (suggest_matches floor (hd (rb_lines recon_imported)) 8 recon_imported) = [''rc1'', ''p1''] \<and>
   \<not> isl (confirm_match (hd (rb_lines recon_imported)) ''receipt'' ''rc1'' recon_imported)"
proof -
  have s: "map ca_id (suggest_matches floor (hd (rb_lines recon_imported)) 8 recon_imported) = [''rc1'', ''p1'']"
    "map ca_kind (suggest_matches floor (hd (rb_lines recon_imported)) 8 recon_imported) = [''receipt'', ''issued_payment'']"
    by code_simp+
  then obtain c e where "suggest_matches floor (hd (rb_lines recon_imported)) 8 recon_imported = [c, e]"
    and k: "ca_id c = ''rc1''" "ca_kind c = ''receipt''" by (auto simp: map_eq_Cons_conv)
  then have c: "c \<in> set (suggest_matches floor (hd (rb_lines recon_imported)) 8 recon_imported)" by simp
  have d: "distinct (map rc_id (rb_receipts recon_imported)) \<and> distinct (map pm_id (rb_payments recon_imported)) \<and>
    rb_batches recon_imported = [] \<and> rb_runs recon_imported = []" by code_simp
  then show ?thesis using suggestions_confirmable [OF _ _ _ _ c] s(1) k by simp
qed

text \<open>
  Money received is reconciled against money taken back. The suggestions leave out
  the reversal of a payment, but the confirmation reads the magnitude only: a credit of
  50 on the bank statement is accepted as the reversal of minus 50.
\<close>

theorem reversal_matches_credit:
  "''p2'' \<notin> ca_id ` set (suggest_matches floor (hd (rb_lines recon_imported)) 8 recon_imported) \<and>
   map pm_amount (filter (\<lambda>p. pm_id p = ''p2'') (rb_payments recon_imported)) = [- 50] \<and>
   map bl_amount (rb_lines recon_imported) = [50] \<and>
   \<not> isl (match_line ''l'' ''issued_payment'' ''p2'' recon_imported)"
proof -
  have s: "map ca_id (suggest_matches floor (hd (rb_lines recon_imported)) 8 recon_imported) = [''rc1'', ''p1'']" by code_simp
  have "''p2'' \<notin> set (map ca_id (suggest_matches floor (hd (rb_lines recon_imported)) 8 recon_imported))" unfolding s by simp
  moreover have "map pm_amount (filter (\<lambda>p. pm_id p = ''p2'') (rb_payments recon_imported)) = [- 50]"
    "map bl_amount (rb_lines recon_imported) = [50]" "\<not> isl (match_line ''l'' ''issued_payment'' ''p2'' recon_imported)"
    by code_simp+
  ultimately show ?thesis unfolding list.set_map by blast
qed

end
