(* ===== verification/Dunning.thy ===== *)
theory Dunning
  imports Numbering
begin

text \<open>
  Reminders for overdue invoices: \<open>services/dunning.py\<close>, \<open>api/routes/dunning.py\<close> and the
  reminder handlers of \<open>api/routes/issued.py\<close>. A ladder of levels, each with a number of
  days and a tone, is walked for every overdue invoice. What the mail relay answers is an
  argument: \<open>services/mailer.py\<close> records the message whatever happens.
\<close>

section \<open>State\<close>

record dunning_level =
  dl_level :: int
  dl_days :: int
  dl_tone :: string

record dunning_row =
  dr_level :: int
  dr_days :: int
  dr_tone :: string
  dr_active :: bool

text \<open>The reminder columns of an invoice.\<close>

record reminder_mark =
  rk_count :: nat
  rk_level :: int
  rk_last :: "date option"

datatype relay = RelayOff | RelayAccepts | RelayFails

record reminder =
  rm_invoice :: ident
  rm_to :: string
  rm_level :: "int option"
  rm_tone :: string
  rm_number :: string
  rm_outstanding :: decimal
  rm_penalty :: decimal
  rm_days :: int
  rm_status :: string

record dunning_books =
  du_issuing :: issuing_books
  du_rows :: "dunning_row list"
  du_marks :: "ident \<Rightarrow> reminder_mark"
  du_outbox :: "reminder list"

datatype dunning_error = DunningIssue issue_error | NoRecipient | AlreadyPaid | DuplicateLevel

section \<open>The ladder\<close>

definition DEFAULT_LADDER :: "dunning_level list" where
  "DEFAULT_LADDER =
     [\<lparr>dl_level = 1, dl_days = 3, dl_tone = ''reminder''\<rparr>, \<lparr>dl_level = 2, dl_days = 14, dl_tone = ''firm''\<rparr>,
      \<lparr>dl_level = 3, dl_days = 30, dl_tone = ''final''\<rparr>]"

definition load_ladder :: "dunning_row list \<Rightarrow> dunning_level list" where
  "load_ladder rows =
     (if rows = [] then DEFAULT_LADDER
      else map (\<lambda>r. \<lparr>dl_level = dr_level r, dl_days = dr_days r, dl_tone = dr_tone r\<rparr>)
             (filter dr_active (sort_key dr_level rows)))"

text \<open>\<open>max(\<dots>, key=level)\<close>: the first of the greatest.\<close>

fun max_level :: "dunning_level \<Rightarrow> dunning_level list \<Rightarrow> dunning_level" where
  "max_level best [] = best"
| "max_level best (l # ls) = max_level (if dl_level best < dl_level l then l else best) ls"

definition resolve_level :: "int \<Rightarrow> dunning_level list \<Rightarrow> dunning_level option" where
  "resolve_level days ladder =
     (case filter (\<lambda>l. dl_days l \<le> days) ladder of [] \<Rightarrow> None | l # ls \<Rightarrow> Some (max_level l ls))"

text \<open>The policy handlers: the ladder in force, and its replacement as a whole.\<close>

definition dunning_policy :: "dunning_books \<Rightarrow> bool \<times> dunning_row list" where
  "dunning_policy bk =
     (if du_rows bk \<noteq> [] then (False, sort_key dr_level (du_rows bk))
      else (True, map (\<lambda>l. \<lparr>dr_level = dl_level l, dr_days = dl_days l, dr_tone = dl_tone l, dr_active = True\<rparr>) DEFAULT_LADDER))"

definition set_dunning_policy :: "ident \<Rightarrow> dunning_row list \<Rightarrow> dunning_books \<Rightarrow> dunning_error + dunning_books" where
  "set_dunning_policy org rows bk =
     (let levels = sort_key dr_level rows in
      if length (remdups (map dr_level levels)) \<noteq> length levels then Inl DuplicateLevel
      else Inr (bk\<lparr>du_rows := levels, du_issuing := note_audit ''dunning.config'' org (du_issuing bk)\<rparr>))"

section \<open>Reminders\<close>

definition mail_status :: "relay \<Rightarrow> string" where
  "mail_status r = (case r of RelayOff \<Rightarrow> ''recorded'' | RelayAccepts \<Rightarrow> ''sent'' | RelayFails \<Rightarrow> ''failed'')"

definition send_reminder ::
  "document \<Rightarrow> string \<Rightarrow> string \<Rightarrow> int option \<Rightarrow> date \<Rightarrow> relay \<Rightarrow> dunning_books \<Rightarrow> reminder \<times> dunning_books" where
  "send_reminder d recipient tone level today relay bk =
     (let iv = receivable d;
          msg = \<lparr>rm_invoice = iv_id d, rm_to = recipient, rm_level = level, rm_tone = tone, rm_number = str_or (iv_number d) [],
                 rm_outstanding = outstanding_of iv, rm_penalty = penalty_of iv today, rm_days = days_overdue_of iv today,
                 rm_status = mail_status relay\<rparr>;
          k = du_marks bk (iv_id d);
          k' = \<lparr>rk_count = rk_count k + 1, rk_level = (case level of None \<Rightarrow> rk_level k | Some l \<Rightarrow> max l (rk_level k)),
                rk_last = Some today\<rparr>
      in (msg, bk\<lparr>du_marks := (du_marks bk)(iv_id d := k'), du_outbox := du_outbox bk @ [msg],
             du_issuing := note_audit ''issued.reminder'' (iv_id d) (du_issuing bk)\<rparr>))"

record dunning_result =
  ds_sent :: nat
  ds_skipped_no_email :: nat
  ds_skipped :: nat

fun walk :: "dunning_level list \<Rightarrow> date \<Rightarrow> (ident \<Rightarrow> relay) \<Rightarrow> document list \<Rightarrow> dunning_result \<times> dunning_books \<Rightarrow>
  dunning_result \<times> dunning_books" where
  "walk ladder today relay [] (res, bk) = (res, bk)"
| "walk ladder today relay (d # ds) (res, bk) =
     (if status_of (receivable d) today \<noteq> AR_OVERDUE then walk ladder today relay ds (res, bk)
      else if \<not> truthy (by_email (dc_buyer d))
      then walk ladder today relay ds (res\<lparr>ds_skipped_no_email := ds_skipped_no_email res + 1\<rparr>, bk)
      else (case resolve_level (days_overdue_of (receivable d) today) ladder of
              None \<Rightarrow> walk ladder today relay ds (res\<lparr>ds_skipped := ds_skipped res + 1\<rparr>, bk)
            | Some t \<Rightarrow>
                if dl_level t \<le> rk_level (du_marks bk (iv_id d))
                then walk ladder today relay ds (res\<lparr>ds_skipped := ds_skipped res + 1\<rparr>, bk)
                else walk ladder today relay ds (res\<lparr>ds_sent := ds_sent res + 1\<rparr>,
                       snd (send_reminder d (the (by_email (dc_buyer d))) (dl_tone t) (Some (dl_level t)) today
                              (relay (iv_id d)) bk))))"

definition run_overdue :: "date \<Rightarrow> (ident \<Rightarrow> relay) \<Rightarrow> dunning_books \<Rightarrow> dunning_result \<times> dunning_books" where
  "run_overdue today relay bk =
     walk (load_ladder (du_rows bk)) today relay (ib_docs (du_issuing bk))
       (\<lparr>ds_sent = 0, ds_skipped_no_email = 0, ds_skipped = 0\<rparr>, bk)"

definition run_overdue_reminders ::
  "date \<Rightarrow> (ident \<Rightarrow> relay) \<Rightarrow> dunning_books \<Rightarrow> dunning_error + dunning_result \<times> dunning_books" where
  "run_overdue_reminders today relay bk =
     (if \<not> ib_enabled (du_issuing bk) then Inl (DunningIssue ModuleDisabled) else Inr (run_overdue today relay bk))"

text \<open>The manual reminder: the tone of the ladder, also when its level has fired before.\<close>

definition remind :: "ident \<Rightarrow> string option \<Rightarrow> date \<Rightarrow> relay \<Rightarrow> dunning_books \<Rightarrow> dunning_error + reminder \<times> dunning_books" where
  "remind i to_email today relay bk =
     (if \<not> ib_enabled (du_issuing bk) then Inl (DunningIssue ModuleDisabled)
      else (case get_doc i (du_issuing bk) of
         None \<Rightarrow> Inl (DunningIssue DocNotFound)
       | Some d \<Rightarrow>
      (case require_receivable d of
         Inl e \<Rightarrow> Inl (DunningIssue e)
       | Inr _ \<Rightarrow>
           let recipient = or_else to_email (by_email (dc_buyer d))
           in if \<not> truthy recipient then Inl NoRecipient
              else if status_of (receivable d) today = AR_PAID then Inl AlreadyPaid
              else (let t = resolve_level (days_overdue_of (receivable d) today) (load_ladder (du_rows bk))
                    in Inr (send_reminder d (the recipient) (case t of None \<Rightarrow> ''reminder'' | Some l \<Rightarrow> dl_tone l)
                         (map_option dl_level t) today relay bk)))))"


section \<open>Each level once\<close>

text \<open>The books under reminders: the automatic run of a day, reminders by hand, changes of
  the ladder, and whatever the other handlers do to the documents. \<open>ms\<close> is the list of
  messages of the automatic runs.\<close>

inductive dunning_run :: "dunning_books \<Rightarrow> reminder list \<Rightarrow> dunning_books \<Rightarrow> bool" for bk where
  dn_start: "dunning_run bk [] bk"
| dn_overdue: "dunning_run bk ms bk1 \<Longrightarrow> run_overdue_reminders today relay bk1 = Inr (res, bk2) \<Longrightarrow>
    dunning_run bk (ms @ drop (length (du_outbox bk1)) (du_outbox bk2)) bk2"
| dn_remind: "dunning_run bk ms bk1 \<Longrightarrow> remind i to_email today relay1 bk1 = Inr (m, bk2) \<Longrightarrow> dunning_run bk ms bk2"
| dn_policy: "dunning_run bk ms bk1 \<Longrightarrow> set_dunning_policy org rows bk1 = Inr bk2 \<Longrightarrow> dunning_run bk ms bk2"
| dn_documents: "dunning_run bk ms bk1 \<Longrightarrow> dunning_run bk ms (bk1\<lparr>du_issuing := ib\<rparr>)"

text \<open>Later messages about an invoice carry higher levels.\<close>

definition rises :: "reminder \<Rightarrow> reminder \<Rightarrow> bool" where
  "rises a b \<longleftrightarrow> rm_invoice a = rm_invoice b \<longrightarrow> the (rm_level a) < the (rm_level b)"

definition mark_level :: "dunning_books \<Rightarrow> ident \<Rightarrow> int" where
  "mark_level bk i = rk_level (du_marks bk i)"

definition covered :: "dunning_books \<Rightarrow> reminder \<Rightarrow> bool" where
  "covered bk m \<longleftrightarrow> rm_level m \<noteq> None \<and> the (rm_level m) \<le> mark_level bk (rm_invoice m)"

lemma send_reminder_facts:
  assumes "send_reminder d r tone l today relay bk = (m, bk')"
  shows "du_outbox bk' = du_outbox bk @ [m]" "rm_invoice m = iv_id d" "rm_level m = l" "rm_status m = mail_status relay"
    "mark_level bk i \<le> mark_level bk' i" "l = Some k \<Longrightarrow> k \<le> mark_level bk' (iv_id d)"
  using assms by (auto simp: send_reminder_def Let_def mark_level_def split: option.splits)

lemma covered_mono: "covered bk m \<Longrightarrow> (\<And>i. mark_level bk i \<le> mark_level bk' i) \<Longrightarrow> covered bk' m"
  unfolding covered_def by (meson order_trans)

lemma walk_rises:
  assumes "walk ladder today relay ds (res, bk) = (res', bk')"
  shows "\<exists>new. du_outbox bk' = du_outbox bk @ new \<and> (\<forall>i. mark_level bk i \<le> mark_level bk' i) \<and>
     (\<forall>m \<in> set new. covered bk' m \<and> mark_level bk (rm_invoice m) < the (rm_level m)) \<and> sorted_wrt rises new"
  using assms
proof (induction ladder today relay ds "(res, bk)" arbitrary: res bk rule: walk.induct)
  case (1 ladder today relay res bk)
  then show ?case by simp
next
  case (2 ladder today relay d ds res bk)
  show ?case
  proof (cases "\<exists>t. status_of (receivable d) today = AR_OVERDUE \<and> truthy (by_email (dc_buyer d)) \<and>
      resolve_level (days_overdue_of (receivable d) today) ladder = Some t \<and> mark_level bk (iv_id d) < dl_level t")
    case False
    then obtain res1 where "walk ladder today relay ds (res1, bk) = (res', bk')"
      using 2(6) by (auto simp: mark_level_def not_less split: if_splits option.splits)
    then show ?thesis using 2(1,2,3,4) False 2(6)
      by (auto simp: mark_level_def not_less split: if_splits option.splits)
  next
    case True
    then obtain t where t: "status_of (receivable d) today = AR_OVERDUE" "truthy (by_email (dc_buyer d))"
      "resolve_level (days_overdue_of (receivable d) today) ladder = Some t" "mark_level bk (iv_id d) < dl_level t" by blast
    obtain m bk1 where m: "send_reminder d (the (by_email (dc_buyer d))) (dl_tone t) (Some (dl_level t)) today
                              (relay (iv_id d)) bk = (m, bk1)" by force
    note f = send_reminder_facts [OF m]
    have "walk ladder today relay ds (res\<lparr>ds_sent := ds_sent res + 1\<rparr>, bk1) = (res', bk')"
      using 2(6) t m by (simp add: mark_level_def)
    then obtain new where new: "du_outbox bk' = du_outbox bk1 @ new" "\<And>i. mark_level bk1 i \<le> mark_level bk' i"
       "\<And>x. x \<in> set new \<Longrightarrow> covered bk' x \<and> mark_level bk1 (rm_invoice x) < the (rm_level x)" "sorted_wrt rises new"
      using 2(5) [OF _ _ t(3)] t m by (auto simp: mark_level_def)
    have k: "dl_level t \<le> mark_level bk1 (iv_id d)" using f(6) by simp
    then have "dl_level t \<le> mark_level bk' (iv_id d)" using new(2) order_trans by blast
    then have "covered bk' m" by (simp add: covered_def f(2,3))
    moreover have "rises m x" if "x \<in> set new" for x
      using new(3) [OF that] k by (auto simp: rises_def f(2,3))
    moreover have "mark_level bk (rm_invoice x) < the (rm_level x)" if "x \<in> set new" for x
      using new(3) [OF that] f(5) [of "rm_invoice x"] by simp
    moreover have "mark_level bk i \<le> mark_level bk' i" for i using f(5) new(2) order_trans by blast
    ultimately show ?thesis using new(1,3,4) t(4) f(1,2,3)
      by (intro exI [of _ "m # new"]) auto
  qed
qed

lemma run_overdue_rises:
  assumes "run_overdue_reminders today relay bk = Inr (res, bk')"
  obtains new where "du_outbox bk' = du_outbox bk @ new" "\<And>i. mark_level bk i \<le> mark_level bk' i"
    "\<And>m. m \<in> set new \<Longrightarrow> covered bk' m \<and> mark_level bk (rm_invoice m) < the (rm_level m)" "sorted_wrt rises new"
proof -
  obtain res0 where "walk (load_ladder (du_rows bk)) today relay (ib_docs (du_issuing bk)) (res0, bk) = (res, bk')"
    using assms by (auto simp: run_overdue_reminders_def run_overdue_def split: if_splits)
  from walk_rises [OF this] show thesis using that by blast
qed

lemma dunning_run_rises:
  "dunning_run bk ms bk' \<Longrightarrow> sorted_wrt rises ms \<and> (\<forall>m \<in> set ms. covered bk' m)"
proof (induction rule: dunning_run.induct)
  case (dn_overdue ms bk1 today relay res bk2)
  obtain new where new: "du_outbox bk2 = du_outbox bk1 @ new" "\<And>i. mark_level bk1 i \<le> mark_level bk2 i"
    "\<And>m. m \<in> set new \<Longrightarrow> covered bk2 m \<and> mark_level bk1 (rm_invoice m) < the (rm_level m)" "sorted_wrt rises new"
    using run_overdue_rises [OF dn_overdue(2)] by metis
  have "rises a b" if "a \<in> set ms" "b \<in> set new" for a b
    using dn_overdue(3) that new(3) [of b] by (fastforce simp: rises_def covered_def)
  with dn_overdue(3) new covered_mono [OF _ new(2)] show ?case by (auto simp: sorted_wrt_append)
next
  case (dn_remind ms bk1 i to_email today relay1 m bk2)
  obtain d r tone l where "send_reminder d r tone l today relay1 bk1 = (m, bk2)"
    using dn_remind(2) by (auto simp: remind_def Let_def split: if_splits option.splits sum.splits)
  from covered_mono [OF _ send_reminder_facts(5) [OF this]] dn_remind(3) show ?case by blast
next
  case (dn_policy ms bk1 org rows bk2)
  then show ?case by (auto simp: set_dunning_policy_def Let_def covered_def mark_level_def split: if_splits)
next
  case (dn_documents ms bk1 ib)
  then show ?case by (simp add: covered_def mark_level_def)
qed simp

section \<open>What a run sends\<close>

text \<open>The level an invoice is due for: read off the books before the run.\<close>

definition due_level :: "date \<Rightarrow> dunning_books \<Rightarrow> document \<Rightarrow> dunning_level option" where
  "due_level today bk d =
     (if status_of (receivable d) today = AR_OVERDUE \<and> truthy (by_email (dc_buyer d))
      then (case resolve_level (days_overdue_of (receivable d) today) (load_ladder (du_rows bk)) of
              None \<Rightarrow> None
            | Some t \<Rightarrow> if rk_level (du_marks bk (iv_id d)) < dl_level t then Some t else None)
      else None)"

definition reminder_for :: "date \<Rightarrow> (ident \<Rightarrow> relay) \<Rightarrow> dunning_books \<Rightarrow> document \<Rightarrow> reminder" where
  "reminder_for today relay bk d =
     (let t = the (due_level today bk d)
      in \<lparr>rm_invoice = iv_id d, rm_to = the (by_email (dc_buyer d)), rm_level = Some (dl_level t), rm_tone = dl_tone t,
          rm_number = str_or (iv_number d) [], rm_outstanding = outstanding_of (receivable d),
          rm_penalty = penalty_of (receivable d) today, rm_days = days_overdue_of (receivable d) today,
          rm_status = mail_status (relay (iv_id d))\<rparr>)"

lemma walk_sends:
  assumes "distinct (map iv_id ds)" "walk (load_ladder (du_rows bk)) today relay ds (res, bk1) = (res', bk')"
    and "\<And>d. d \<in> set ds \<Longrightarrow> du_marks bk1 (iv_id d) = du_marks bk (iv_id d)"
  shows "du_outbox bk' = du_outbox bk1 @ map (reminder_for today relay bk) (filter (\<lambda>d. due_level today bk d \<noteq> None) ds) \<and>
    ds_sent res' = ds_sent res + length (filter (\<lambda>d. due_level today bk d \<noteq> None) ds) \<and>
    ds_sent res' + ds_skipped_no_email res' + ds_skipped res' =
      ds_sent res + ds_skipped_no_email res + ds_skipped res + length (filter (\<lambda>d. status_of (receivable d) today = AR_OVERDUE) ds)"
  using assms
proof (induction ds arbitrary: res bk1)
  case (Cons d ds)
  have m: "du_marks bk1 (iv_id d) = du_marks bk (iv_id d)" using Cons.prems(3) by simp
  have IH: "walk (load_ladder (du_rows bk)) today relay ds (r, b) = (res', bk') \<Longrightarrow>
      (\<And>x. x \<in> set ds \<Longrightarrow> du_marks b (iv_id x) = du_marks bk (iv_id x)) \<Longrightarrow>
      du_outbox bk' = du_outbox b @ map (reminder_for today relay bk) (filter (\<lambda>d. due_level today bk d \<noteq> None) ds) \<and>
      ds_sent res' = ds_sent r + length (filter (\<lambda>d. due_level today bk d \<noteq> None) ds) \<and>
      ds_sent res' + ds_skipped_no_email res' + ds_skipped res' =
        ds_sent r + ds_skipped_no_email r + ds_skipped r + length (filter (\<lambda>d. status_of (receivable d) today = AR_OVERDUE) ds)" for r b
    using Cons.IH [of r b] Cons.prems(1) by simp
  show ?case
  proof (cases "due_level today bk d")
    case None
    then show ?thesis using Cons.prems(2) Cons.prems(3) m
      by (auto simp: due_level_def split: if_splits option.splits dest!: IH)
  next
    case (Some t)
    then have t: "status_of (receivable d) today = AR_OVERDUE" "truthy (by_email (dc_buyer d))"
      "resolve_level (days_overdue_of (receivable d) today) (load_ladder (du_rows bk)) = Some t"
      "rk_level (du_marks bk1 (iv_id d)) < dl_level t"
      by (auto simp: due_level_def m split: if_splits option.splits)
    obtain msg bk2 where s: "send_reminder d (the (by_email (dc_buyer d))) (dl_tone t) (Some (dl_level t)) today
        (relay (iv_id d)) bk1 = (msg, bk2)" by force
    have w: "walk (load_ladder (du_rows bk)) today relay ds (res\<lparr>ds_sent := ds_sent res + 1\<rparr>, bk2) = (res', bk')"
      using Cons.prems(2) t s by simp
    have msg: "msg = reminder_for today relay bk d" "du_outbox bk2 = du_outbox bk1 @ [msg]"
      "\<And>i. i \<noteq> iv_id d \<Longrightarrow> du_marks bk2 i = du_marks bk1 i"
      using s Some by (auto simp: send_reminder_def reminder_for_def Let_def)
    have "du_marks bk2 (iv_id x) = du_marks bk (iv_id x)" if "x \<in> set ds" for x
      using msg(3) [of "iv_id x"] Cons.prems(1) Cons.prems(3) [of x] that by (metis distinct.simps(2) imageI list.map(2) list.set_intros(2) list.set_map)
    from IH [OF w this] show ?thesis using Some msg(1,2) t(1) by simp
  qed
qed simp

section \<open>Properties\<close>

text \<open>
  C39: However often the reminder job runs, whatever its dates and the answers of the relay,
  and whatever happens between two runs (payments, edits, a new ladder, reminders by
  hand), no level is sent about an invoice twice by the job, and the levels an invoice
  receives only rise.
\<close>

theorem dunning_level_once:
  assumes "dunning_run bk ms bk'"
  shows "distinct (map (\<lambda>m. (rm_invoice m, rm_level m)) ms) \<and> sorted_wrt rises ms"
proof -
  have s: "sorted_wrt rises ms" using dunning_run_rises [OF assms] by blast
  then have "distinct (map (\<lambda>m. (rm_invoice m, rm_level m)) ms)"
    by (induction ms) (auto simp: rises_def)
  with s show ?thesis by blast
qed


section \<open>A concrete run\<close>

definition late_body :: invoice_body where
  "late_body = sample_body\<lparr>bd_due := Some 738990, bd_buyer := no_buyer\<lparr>by_name := Some ''Buyer'', by_email := Some ''b@x''\<rparr>\<rparr>"
definition late_books :: dunning_books where
  "late_books = \<lparr>du_issuing = snd (create_issued ''is-2'' ''d-1'' sample_scope late_body None ''h'' 738980 0 sample_start),
     du_rows = [], du_marks = (\<lambda>_. \<lparr>rk_count = 0, rk_level = 0, rk_last = None\<rparr>), du_outbox = []\<rparr>"
definition run_day :: "date \<Rightarrow> relay \<Rightarrow> dunning_books \<Rightarrow> dunning_books" where
  "run_day today r bk = (case run_overdue_reminders today (\<lambda>_. r) bk of Inl _ \<Rightarrow> bk | Inr (res, bk') \<Rightarrow> bk')"

lemma run_day_step:
  assumes "dunning_run bk ms bk1" "ib_enabled (du_issuing bk1)"
  shows "dunning_run bk (ms @ drop (length (du_outbox bk1)) (du_outbox (run_day today r bk1))) (run_day today r bk1)"
proof -
  obtain res bk2 where r: "run_overdue_reminders today (\<lambda>_. r) bk1 = Inr (res, bk2)"
    using assms(2) by (cases "run_overdue today (\<lambda>_. r) bk1") (simp add: run_overdue_reminders_def)
  from dn_overdue [OF assms(1) r] r show ?thesis by (simp add: run_day_def)
qed

text \<open>The one invoice of the run, evaluated once.\<close>

definition late_doc :: document where "late_doc = hd (ib_docs (du_issuing late_books))"

lemma late_facts:
  "ib_docs (du_issuing late_books) = [late_doc]" "ib_enabled (du_issuing late_books)" "iv_id late_doc = ''d-1''"
  "by_email (dc_buyer late_doc) = Some ''b@x''" "status_of (receivable late_doc) 739000 = AR_OVERDUE"
  "status_of (receivable late_doc) 739001 = AR_OVERDUE" "status_of (receivable late_doc) 739010 = AR_OVERDUE"
  "days_overdue_of (receivable late_doc) 739000 = 10" "days_overdue_of (receivable late_doc) 739001 = 11"
  "days_overdue_of (receivable late_doc) 739010 = 20"
proof -
  have "length (ib_docs (du_issuing late_books)) = 1" by code_simp
  then show "ib_docs (du_issuing late_books) = [late_doc]"
    by (cases "ib_docs (du_issuing late_books)") (simp_all add: late_doc_def)
  have "(let bk = du_issuing late_books; d = hd (ib_docs bk); v = receivable d
      in ib_enabled bk \<and> iv_id d = ''d-1'' \<and> by_email (dc_buyer d) = Some ''b@x'' \<and>
        map (status_of v) [739000, 739001, 739010] = [AR_OVERDUE, AR_OVERDUE, AR_OVERDUE] \<and>
        map (days_overdue_of v) [739000, 739001, 739010] = [10, 11, 20])" by code_simp
  then show "ib_enabled (du_issuing late_books)" "iv_id late_doc = ''d-1''" "by_email (dc_buyer late_doc) = Some ''b@x''"
    "status_of (receivable late_doc) 739000 = AR_OVERDUE" "status_of (receivable late_doc) 739001 = AR_OVERDUE"
    "status_of (receivable late_doc) 739010 = AR_OVERDUE" "days_overdue_of (receivable late_doc) 739000 = 10"
    "days_overdue_of (receivable late_doc) 739001 = 11" "days_overdue_of (receivable late_doc) 739010 = 20"
    unfolding Let_def late_doc_def by simp_all
qed

lemma late_ladder: "load_ladder (du_rows late_books) = DEFAULT_LADDER" "du_outbox late_books = []"
    "du_marks late_books i = \<lparr>rk_count = 0, rk_level = 0, rk_last = None\<rparr>" "du_rows late_books = []"
  by (simp_all add: late_books_def load_ladder_def)

lemma level_at: "resolve_level 10 DEFAULT_LADDER = Some \<lparr>dl_level = 1, dl_days = 3, dl_tone = ''reminder''\<rparr>"
    "resolve_level 11 DEFAULT_LADDER = Some \<lparr>dl_level = 1, dl_days = 3, dl_tone = ''reminder''\<rparr>"
    "resolve_level 20 DEFAULT_LADDER = Some \<lparr>dl_level = 2, dl_days = 14, dl_tone = ''firm''\<rparr>"
  by (simp_all add: resolve_level_def DEFAULT_LADDER_def)

lemmas late_run = run_day_def run_overdue_reminders_def run_overdue_def late_facts late_ladder level_at
  send_reminder_def Let_def note_audit_def load_ladder_def [of "[]"]

theorem dunning_level_once_witness:
  "map rm_level (du_outbox (run_day 739010 RelayAccepts (run_day 739000 RelayAccepts late_books))) = [Some 1, Some 2] \<and>
   distinct (map (\<lambda>m. (rm_invoice m, rm_level m)) (du_outbox (run_day 739010 RelayAccepts (run_day 739000 RelayAccepts late_books))))"
proof -
  let ?bk1 = "run_day 739000 RelayAccepts late_books"
  have p: "take (length (du_outbox ?bk1)) (du_outbox (run_day 739010 RelayAccepts ?bk1)) = du_outbox ?bk1"
    "ib_enabled (du_issuing ?bk1)" by (simp_all add: late_run)
  have "dunning_run late_books (du_outbox ?bk1) ?bk1"
    using run_day_step [OF dn_start late_facts(2)] by (simp add: late_ladder)
  from run_day_step [OF this p(2)]
  have r: "dunning_run late_books (du_outbox (run_day 739010 RelayAccepts ?bk1)) (run_day 739010 RelayAccepts ?bk1)"
    using p(1) by (metis append_take_drop_id)
  have "map rm_level (du_outbox (run_day 739010 RelayAccepts ?bk1)) = [Some 1, Some 2]" by (simp add: late_run)
  with dunning_level_once [OF r] show ?thesis by blast
qed


text \<open>
  A reminder that the relay did not take uses up its level all the same: the message is
  kept as failed, the invoice counts as reminded, and the next run sends nothing.
\<close>

theorem failed_mail_consumes_level:
  "map rm_status (du_outbox (run_day 739000 RelayFails late_books)) = [''failed''] \<and>
   du_marks (run_day 739000 RelayFails late_books) ''d-1'' = \<lparr>rk_count = 1, rk_level = 1, rk_last = Some 739000\<rparr> \<and>
   length (du_outbox (run_day 739001 RelayAccepts (run_day 739000 RelayFails late_books))) = 1"
  by (simp add: late_run mail_status_def)

end
